(* ===== verification/Ares_Prelude.thy ===== *)
theory Ares_Prelude
  imports Complex_Main "HOL-Library.AList" "HOL-Library.Word" "HOL-Library.Char_ord"
    "HOL-Library.List_Lexorder"
begin

text \<open>
  Shared vocabulary of the development: how Go data is represented in HOL, and the
  generic lemmas the component theories lean on.

  \<^item> A Go \<open>string\<close> and a Go \<open>[]byte\<close> are both byte sequences, and the conversions
    between them keep the bytes. Both are the HOL type \<^typ>\<open>string\<close> (a list of 8-bit
    characters).
  \<^item> A Go \<open>map\<close> is an association list with distinct keys. The order of the list is one
    order in which a \<open>range\<close> loop may visit the entries; where a loop's result could depend
    on it, the component proves that it does not.
  \<^item> A Go \<open>int\<close> that only counts events is an unbounded \<^typ>\<open>int\<close>: it would take
    \<open>2 ^ 63\<close> events to wrap it. Fixed-width values whose wrap-around is observable are words.
  \<^item> \<open>%\<close> on Go integers truncates towards zero (\<open>go_rem\<close>).
\<close>

section \<open>Collections of facts\<close>

named_theorems gomap_simps \<open>lookups and domains of updated Go maps\<close>
named_theorems wf_intros \<open>well-formedness of updated states\<close>
named_theorems frame_simps \<open>fields an operation leaves alone\<close>

section \<open>Go data\<close>

type_synonym bytes = string
type_synonym ('k, 'v) gomap = "('k \<times> 'v) list"
type_synonym ('e, 'a) result = "'e + 'a"

abbreviation keys :: "('k, 'v) gomap \<Rightarrow> 'k set" where
  "keys m \<equiv> fst ` set m"

abbreviation gomap_wf :: "('k, 'v) gomap \<Rightarrow> bool" where
  "gomap_wf m \<equiv> distinct (map fst m)"

text \<open>Truncated remainder: the sign of the result is the sign of the dividend.\<close>

definition go_rem :: "int \<Rightarrow> int \<Rightarrow> int" where
  "go_rem a b = sgn a * (\<bar>a\<bar> mod \<bar>b\<bar>)"

lemma go_rem_nonneg [simp]: "0 \<le> a \<Longrightarrow> 0 < b \<Longrightarrow> go_rem a b = a mod b"
  by (cases "a = 0") (auto simp: go_rem_def)

lemma go_rem_bounds: "0 < b \<Longrightarrow> - b < go_rem a b \<and> go_rem a b < b"
proof -
  assume b: "0 < b"
  have m: "0 \<le> \<bar>a\<bar> mod b" "\<bar>a\<bar> mod b < b" using b by simp_all
  have "go_rem a b = \<bar>a\<bar> mod b \<or> go_rem a b = - (\<bar>a\<bar> mod b) \<or> go_rem a b = 0"
    using b by (simp add: go_rem_def sgn_if)
  then show ?thesis using b m by linarith
qed

lemma go_rem_normalise: "0 < b \<Longrightarrow> go_rem (go_rem a b + b) b = a mod b"
proof -
  assume b: "0 < b"
  have pos: "0 \<le> go_rem a b + b" using go_rem_bounds [OF b, of a] by simp
  have "(go_rem a b + b) mod b = a mod b"
  proof (cases "0 \<le> a")
    case True
    then show ?thesis using b by simp
  next
    case False
    then have "go_rem a b = - ((- a) mod b)" using b by (simp add: go_rem_def)
    then show ?thesis by (simp add: mod_minus_eq)
  qed
  then show ?thesis using pos b by simp
qed

section \<open>Association lists as Go maps\<close>

lemma map_of_update [gomap_simps]: "map_of (AList.update k v m) = (map_of m)(k \<mapsto> v)"
  by (rule update_conv')

lemma map_of_delete [gomap_simps]: "map_of (AList.delete k m) = (map_of m)(k := None)"
  by (rule delete_conv')

lemma keys_update [gomap_simps]: "keys (AList.update k v m) = insert k (keys m)"
  by (simp add: dom_update [unfolded dom_map_of_conv_image_fst])

lemma keys_delete [gomap_simps]: "keys (AList.delete k m) = keys m - {k}"
  by (auto simp: AList.delete_eq)

lemma gomap_wf_update [simp]: "gomap_wf m \<Longrightarrow> gomap_wf (AList.update k v m)"
  by (rule distinct_update)

lemma gomap_wf_delete [simp]: "gomap_wf m \<Longrightarrow> gomap_wf (AList.delete k m)"
  by (rule distinct_delete)

lemma gomap_len: "gomap_wf m \<Longrightarrow> length m = card (keys m)"
  by (metis distinct_card length_map list.set_map)

lemma gomap_update_fresh: "k \<notin> keys m \<Longrightarrow> AList.update k v m = m @ [(k, v)]"
  by (induction m) auto

lemma map_of_eq_Some: "gomap_wf m \<Longrightarrow> map_of m k = Some v \<longleftrightarrow> (k, v) \<in> set m"
  by (rule map_of_eq_Some_iff)

lemma map_of_in_keys: "map_of m k = Some v \<Longrightarrow> k \<in> keys m"
  by (metis domI dom_map_of_conv_image_fst)

lemma map_of_isSome: "(map_of m k \<noteq> None) = (k \<in> keys m)"
  by (simp add: map_of_eq_None_iff)

lemma set_delete: "set (AList.delete k m) = {(k', v') \<in> set m. k' \<noteq> k}"
  by (auto simp: AList.delete_eq)

lemma set_update_wf:
  "gomap_wf m \<Longrightarrow> set (AList.update k v m) = insert (k, v) {(k', v') \<in> set m. k' \<noteq> k}"
proof (induction m)
  case (Cons a m)
  then show ?case by (cases a) (force simp: image_iff)
qed simp

section \<open>Decimal numerals\<close>

definition digit :: "nat \<Rightarrow> char" where
  "digit d = char_of (48 + d)"

fun nat_dec :: "nat \<Rightarrow> string" where
  "nat_dec n = (if n < 10 then [digit n] else nat_dec (n div 10) @ [digit (n mod 10)])"

declare nat_dec.simps [simp del]

text \<open>\<open>strconv.Itoa\<close>.\<close>

definition itoa :: "int \<Rightarrow> string" where
  "itoa i = (if i < 0 then CHR ''-'' # nat_dec (nat (- i)) else nat_dec (nat i))"

definition dec_val :: "string \<Rightarrow> nat" where
  "dec_val s = foldl (\<lambda>acc c. 10 * acc + (of_char c - 48)) 0 s"

lemma digit_val: "d < 10 \<Longrightarrow> of_char (digit d) - (48::nat) = d"
  by (simp add: digit_def)

lemma dec_val_nat_dec [simp]: "dec_val (nat_dec n) = n"
proof (induction n rule: nat_dec.induct)
  case (1 n)
  show ?case
  proof (cases "n < 10")
    case True
    then show ?thesis by (simp add: nat_dec.simps [of n] dec_val_def digit_val)
  next
    case False
    with "1" have "dec_val (nat_dec (n div 10)) = n div 10" by simp
    then have "dec_val (nat_dec n) = 10 * (n div 10) + n mod 10"
      using False by (simp add: nat_dec.simps [of n] dec_val_def digit_val)
    then show ?thesis by simp
  qed
qed

lemma nat_dec_inj: "nat_dec m = nat_dec n \<longleftrightarrow> m = n"
  by (metis dec_val_nat_dec)

lemma itoa_nonneg_inj: "0 \<le> i \<Longrightarrow> 0 \<le> j \<Longrightarrow> itoa i = itoa j \<longleftrightarrow> i = j"
  by (simp add: itoa_def nat_dec_inj eq_nat_nat_iff)

section \<open>Loops over slices\<close>

text \<open>
  \<open>slices_remove x xs\<close> is the loop
  \<^verbatim>\<open>for i, v := range s { if v == x { s = append(s[:i], s[i+1:]...); break } }\<close>:
  it removes the first occurrence.
\<close>

fun slices_remove :: "'a \<Rightarrow> 'a list \<Rightarrow> 'a list" where
  "slices_remove x [] = []"
| "slices_remove x (y # ys) = (if y = x then ys else y # slices_remove x ys)"

lemma slices_remove_remove1: "slices_remove x xs = remove1 x xs"
  by (induction xs) auto

lemma slices_remove_props [simp]:
  "distinct xs \<Longrightarrow> set (slices_remove x xs) = set xs - {x}"
  "distinct xs \<Longrightarrow> distinct (slices_remove x xs)"
  by (simp_all add: slices_remove_remove1)

section \<open>The last elements of a list\<close>

lemma last_n_snoc:
  "0 < n \<Longrightarrow> drop (length (xs @ [x]) - n) (xs @ [x]) =
     (if n \<le> length (drop (length xs - n) xs) then tl (drop (length xs - n) xs) else drop (length xs - n) xs) @ [x]"
  by (auto simp: Suc_diff_le drop_Suc drop_tl [symmetric] tl_drop)

section \<open>Transition systems\<close>

text \<open>The states a step relation can reach from a start state, and the rule that every component
  uses to establish its invariants: shown once from the two laws of \<open>invariant_system\<close>.\<close>

inductive reach :: "('s \<Rightarrow> 's \<Rightarrow> bool) \<Rightarrow> 's \<Rightarrow> 's \<Rightarrow> bool"
  for step :: "'s \<Rightarrow> 's \<Rightarrow> bool" and start :: "'s" where
  reach_start: "reach step start start"
| reach_step: "reach step start s \<Longrightarrow> step s t \<Longrightarrow> reach step start t"

lemma reach_trans: "reach step s t \<Longrightarrow> reach step r s \<Longrightarrow> reach step r t"
  by (induction rule: reach.induct) (auto intro: reach.intros)

locale invariant_system =
  fixes step :: "'s \<Rightarrow> 's \<Rightarrow> bool"
    and init :: "'s"
    and inv :: "'s \<Rightarrow> bool"
  assumes inv_init: "inv init"
    and inv_step: "inv s \<Longrightarrow> step s t \<Longrightarrow> inv t"
begin

lemma reach_inv: "reach step init s \<Longrightarrow> inv s"
  by (induction rule: reach.induct) (auto intro: inv_init inv_step)

lemma reach_inv_from: "reach step s t \<Longrightarrow> inv s \<Longrightarrow> inv t"
  by (induction rule: reach.induct) (auto intro: inv_step)

end

text \<open>A quantity that no step decreases.\<close>

locale monotone_system =
  fixes step :: "'s \<Rightarrow> 's \<Rightarrow> bool"
    and measure_of :: "'s \<Rightarrow> 'm::preorder"
  assumes step_mono: "step s t \<Longrightarrow> measure_of s \<le> measure_of t"
begin

lemma reach_mono: "reach step s t \<Longrightarrow> measure_of s \<le> measure_of t"
  by (induction rule: reach.induct) (auto intro: order_trans step_mono)

end

end
