(* ===== verification/Float64.thy ===== *)
theory Float64
  imports Ares_Prelude "HOL-Library.Log_Nat"
begin

text \<open>
  Go's \<open>float64\<close>: IEEE 754 binary64 with round-to-nearest, ties to even.

  A finite value is the rational number it denotes; every arithmetic operation computes the
  exact rational result and rounds it once (\<open>f64_of_rat\<close>), with gradual underflow at
  \<open>2 ^ -1074\<close> and overflow to an infinity at \<open>2 ^ 1024\<close>. The two zeros are one value:
  no code of this repository that is modelled here divides by a quantity that can be zero,
  prints a sign or inspects a sign bit, so the sign of a zero is never observed.

  The lemmas show what the component proofs use: rounding is monotone, odd, exact on
  representable values and idempotent, and a difference of representable values has the sign of
  the exact difference (no flush to zero).
\<close>

section \<open>Rounding\<close>

text \<open>The number of binary digits of an integer, and the exponent of the leading binary digit of a
  positive rational.\<close>

function ibits :: "int \<Rightarrow> int" where
  "ibits n = (if n \<le> 0 then 0 else 1 + ibits (n div 2))"
  by pat_completeness auto
termination
  by (relation "measure nat") auto

definition ilog2 :: "rat \<Rightarrow> int" where
  "ilog2 x = (let (p, q) = quotient_of x; e = ibits p - ibits q
              in if 2 powi e \<le> x then e else e - 1)"

text \<open>Round to the nearest integer, ties to even.\<close>

definition rhe :: "rat \<Rightarrow> int" where
  "rhe x = (let f = \<lfloor>x\<rfloor>; d = x - of_int f
            in if d < 1 / 2 then f else if 1 / 2 < d then f + 1
               else if even f then f else f + 1)"

text \<open>The exponent of the unit in the last place: 53 significant bits, but never below
  \<open>2 ^ -1074\<close>.\<close>

definition qexp :: "rat \<Rightarrow> int" where
  "qexp x = max (ilog2 \<bar>x\<bar> - 52) (- 1074)"

definition rnd :: "rat \<Rightarrow> rat" where
  "rnd x = (if x = 0 then 0 else of_int (rhe (x / 2 powi qexp x)) * 2 powi qexp x)"

section \<open>Values and operations\<close>

datatype f64 = NaN | PInf | NInf | Fin rat

definition f64_max_bound :: rat where
  "f64_max_bound = 2 ^ 1024"

text \<open>Whether a rational is below the overflow threshold: its leading digit has an exponent under
  1024 (\<open>fits_iff\<close>).\<close>

definition fits :: "rat \<Rightarrow> bool" where
  "fits y \<longleftrightarrow> y = 0 \<or> ilog2 \<bar>y\<bar> < 1024"

definition f64_of_rat :: "rat \<Rightarrow> f64" where
  "f64_of_rat x = (let y = rnd x in if fits y then Fin y else if 0 < y then PInf else NInf)"

text \<open>The values a \<open>float64\<close> variable can hold.\<close>

fun f64_ok :: "f64 \<Rightarrow> bool" where
  "f64_ok (Fin r) \<longleftrightarrow> rnd r = r \<and> fits r"
| "f64_ok _ \<longleftrightarrow> True"

fun fneg :: "f64 \<Rightarrow> f64" where
  "fneg NaN = NaN"
| "fneg PInf = NInf"
| "fneg NInf = PInf"
| "fneg (Fin r) = Fin (- r)"

fun fadd :: "f64 \<Rightarrow> f64 \<Rightarrow> f64" where
  "fadd NaN _ = NaN"
| "fadd _ NaN = NaN"
| "fadd PInf NInf = NaN"
| "fadd NInf PInf = NaN"
| "fadd PInf _ = PInf"
| "fadd _ PInf = PInf"
| "fadd NInf _ = NInf"
| "fadd _ NInf = NInf"
| "fadd (Fin a) (Fin b) = f64_of_rat (a + b)"

definition fsub :: "f64 \<Rightarrow> f64 \<Rightarrow> f64" where
  "fsub a b = fadd a (fneg b)"

definition finf :: "rat \<Rightarrow> f64" where
  "finf s = (if s < 0 then NInf else if s = 0 then NaN else PInf)"

fun fmul :: "f64 \<Rightarrow> f64 \<Rightarrow> f64" where
  "fmul NaN _ = NaN"
| "fmul _ NaN = NaN"
| "fmul (Fin a) (Fin b) = f64_of_rat (a * b)"
| "fmul PInf PInf = PInf"
| "fmul PInf NInf = NInf"
| "fmul NInf PInf = NInf"
| "fmul NInf NInf = PInf"
| "fmul PInf (Fin b) = finf b"
| "fmul (Fin a) PInf = finf a"
| "fmul NInf (Fin b) = finf (- b)"
| "fmul (Fin a) NInf = finf (- a)"

text \<open>Division; a zero divisor counts as the positive zero.\<close>

fun fdiv :: "f64 \<Rightarrow> f64 \<Rightarrow> f64" where
  "fdiv NaN _ = NaN"
| "fdiv _ NaN = NaN"
| "fdiv (Fin a) (Fin b) = (if b = 0 then finf a else f64_of_rat (a / b))"
| "fdiv (Fin a) _ = Fin 0"
| "fdiv PInf (Fin b) = (if b < 0 then NInf else PInf)"
| "fdiv NInf (Fin b) = (if b < 0 then PInf else NInf)"
| "fdiv _ _ = NaN"

text \<open>The comparisons are false as soon as one side is NaN.\<close>

fun flt :: "f64 \<Rightarrow> f64 \<Rightarrow> bool" where
  "flt NaN _ = False"
| "flt _ NaN = False"
| "flt (Fin a) (Fin b) = (a < b)"
| "flt NInf y = (y \<noteq> NInf)"
| "flt PInf _ = False"
| "flt _ PInf = True"
| "flt _ NInf = False"

definition fle :: "f64 \<Rightarrow> f64 \<Rightarrow> bool" where
  "fle a b \<longleftrightarrow> a \<noteq> NaN \<and> b \<noteq> NaN \<and> \<not> flt b a"

text \<open>\<open>math.Max\<close>: infinity wins over NaN, NaN over the rest.\<close>

definition math_Max :: "f64 \<Rightarrow> f64 \<Rightarrow> f64" where
  "math_Max x y = (if x = PInf \<or> y = PInf then PInf
     else if x = NaN \<or> y = NaN then NaN else if flt y x then x else y)"

definition f64_nat :: "nat \<Rightarrow> f64" where
  "f64_nat n = f64_of_rat (of_nat n)"

definition f64_int :: "int \<Rightarrow> f64" where
  "f64_int n = f64_of_rat (of_int n)"

fun fval :: "f64 \<Rightarrow> rat" where
  "fval (Fin r) = r"
| "fval _ = 0"

fun is_fin :: "f64 \<Rightarrow> bool" where
  "is_fin (Fin _) = True"
| "is_fin _ = False"

section \<open>The binary exponent\<close>

lemma powi2_pos [simp]: "(0::rat) < 2 powi e"
  by (simp add: zero_less_power_int)

lemma powi2_neq0 [simp]: "(2::rat) powi e \<noteq> 0"
  by simp

lemma powi2_le_iff [simp]: "(2::rat) powi a \<le> 2 powi b \<longleftrightarrow> a \<le> b"
  using power_int_increasing [of a b "2::rat"] power_int_strict_increasing [of b a "2::rat"]
  by (cases "a \<le> b") auto

lemma powi2_less_iff [simp]: "(2::rat) powi a < 2 powi b \<longleftrightarrow> a < b"
  by (simp add: less_le_not_le)

lemma powi2_add: "(2::rat) powi (a + b) = 2 powi a * 2 powi b"
  by (simp add: power_int_add)

lemma powi2_diff: "(2::rat) powi (a - b) = 2 powi a / 2 powi b"
  by (simp add: power_int_diff)

lemma powi2_int: "0 \<le> e \<Longrightarrow> (2::rat) powi e = of_int (2 ^ nat e)"
  by (simp add: power_int_def)

declare ibits.simps [simp del]

lemma ibits_bitlen: "ibits n = bitlen n"
proof (induction n rule: ibits.induct)
  case (1 n)
  then show ?case by (subst ibits.simps, subst compute_bitlen) auto
qed

lemma bitlen_powi:
  assumes "0 < p"
  shows "2 powi (bitlen p - 1) \<le> (of_int p :: rat)" "(of_int p :: rat) < 2 powi bitlen p"
proof -
  have b: "2 ^ nat (bitlen p - 1) \<le> p" "p < 2 ^ nat (bitlen p)"
    using bitlen_bounds [OF assms] by auto
  have n: "0 \<le> bitlen p - 1" "0 \<le> bitlen p"
    using bitlen_nonneg [of p] bitlen_eq_zero_iff [of p] assms by linarith+
  show "2 powi (bitlen p - 1) \<le> (of_int p :: rat)"
    using b(1) by (simp only: powi2_int [OF n(1)] of_int_le_iff)
  show "(of_int p :: rat) < 2 powi bitlen p"
    using b(2) by (simp only: powi2_int [OF n(2)] of_int_less_iff)
qed

lemma ilog2_bounds:
  assumes "0 < x"
  shows "2 powi ilog2 x \<le> x \<and> x < 2 powi (ilog2 x + 1)"
proof -
  obtain p q where pq: "quotient_of x = (p, q)" by fastforce
  have q: "0 < q" using quotient_of_denom_pos [OF pq] .
  have x: "x = of_int p / of_int q" using quotient_of_div [OF pq] .
  have p: "0 < p" using assms q by (simp add: x zero_less_divide_iff)
  note bp = bitlen_powi [OF p] and bq = bitlen_powi [OF q]
  have up: "x < 2 powi (bitlen p - bitlen q + 1)"
  proof -
    have "x < 2 powi bitlen p / of_int q" using bp(2) q by (simp add: x divide_strict_right_mono)
    also have "\<dots> \<le> 2 powi bitlen p / 2 powi (bitlen q - 1)"
      using bq(1) by (intro divide_left_mono) (simp_all add: q)
    also have "\<dots> = 2 powi (bitlen p - (bitlen q - 1))" by (simp only: powi2_diff)
    also have "bitlen p - (bitlen q - 1) = bitlen p - bitlen q + 1" by linarith
    finally show ?thesis .
  qed
  have lo: "2 powi (bitlen p - bitlen q - 1) \<le> x"
  proof -
    have "bitlen p - bitlen q - 1 = (bitlen p - 1) - bitlen q" by linarith
    then have "(2::rat) powi (bitlen p - bitlen q - 1) = 2 powi (bitlen p - 1) / 2 powi bitlen q"
      by (simp only: powi2_diff)
    also have "\<dots> \<le> of_int p / 2 powi bitlen q" using bp(1) by (simp add: divide_right_mono)
    also have "\<dots> \<le> x" using bq(2) p q by (simp add: x divide_left_mono)
    finally show ?thesis .
  qed
  show ?thesis using lo up by (auto simp: ilog2_def pq Let_def ibits_bitlen)
qed

lemma ilog2_unique:
  assumes "2 powi e \<le> x" "x < 2 powi (e + 1)"
  shows "ilog2 x = e"
proof -
  have "0 < x" using assms(1) powi2_pos [of e] by linarith
  note b = ilog2_bounds [OF this]
  from b assms have "(2::rat) powi e < 2 powi (ilog2 x + 1)" "(2::rat) powi ilog2 x < 2 powi (e + 1)"
    by linarith+
  then show ?thesis by simp
qed

lemma ilog2_mono: "0 < x \<Longrightarrow> x \<le> y \<Longrightarrow> ilog2 x \<le> ilog2 y"
proof -
  assume "0 < x" "x \<le> y"
  then have "(2::rat) powi ilog2 x < 2 powi (ilog2 y + 1)"
    using ilog2_bounds [of x] ilog2_bounds [of y] by linarith
  then show ?thesis by simp
qed

lemma ilog2_less: "0 < x \<Longrightarrow> x < 2 powi e \<Longrightarrow> ilog2 x < e"
  using ilog2_bounds [of x] by (metis order_le_less_trans powi2_less_iff)

section \<open>Rounding to integers\<close>

lemma rhe_of_int [simp]: "rhe (of_int n) = n"
  by (simp add: rhe_def)

lemma rhe_floor: "\<lfloor>x\<rfloor> \<le> rhe x \<and> rhe x \<le> \<lfloor>x\<rfloor> + 1"
  by (simp add: rhe_def Let_def)

lemma rhe_mono: "x \<le> y \<Longrightarrow> rhe x \<le> rhe y"
proof (cases "\<lfloor>x\<rfloor> = \<lfloor>y\<rfloor>")
  case True
  assume "x \<le> y"
  with True show ?thesis by (auto simp: rhe_def Let_def)
next
  case False
  assume "x \<le> y"
  then have "\<lfloor>x\<rfloor> \<le> \<lfloor>y\<rfloor>" by (rule floor_mono)
  with False have "\<lfloor>x\<rfloor> + 1 \<le> \<lfloor>y\<rfloor>" by linarith
  then show ?thesis using rhe_floor [of x] rhe_floor [of y] by linarith
qed

lemma rhe_minus: "rhe (- x) = - rhe x"
proof (cases "x = of_int \<lfloor>x\<rfloor>")
  case True
  then show ?thesis by (metis of_int_minus rhe_of_int)
next
  case False
  have fl: "\<lfloor>- x\<rfloor> = - \<lfloor>x\<rfloor> - 1"
    using False by (simp add: floor_minus ceiling_altdef)
  have dl: "- x - of_int (- \<lfloor>x\<rfloor> - 1) = 1 - (x - of_int \<lfloor>x\<rfloor>)" by simp
  show ?thesis unfolding rhe_def Let_def fl dl by auto
qed

lemma rhe_err: "\<bar>of_int (rhe x) - x\<bar> \<le> 1 / 2"
proof -
  have "of_int \<lfloor>x\<rfloor> \<le> x" "x < of_int \<lfloor>x\<rfloor> + 1" by linarith+
  then show ?thesis unfolding rhe_def Let_def abs_le_iff by (auto simp del: of_int_floor_le)
qed

section \<open>Rounding to binary64\<close>

lemma rnd_0 [simp]: "rnd 0 = 0"
  by (simp add: rnd_def)

lemma qexp_minus [simp]: "qexp (- x) = qexp x"
  by (simp add: qexp_def)

lemma rnd_minus: "rnd (- x) = - rnd x"
  by (simp add: rnd_def rhe_minus)

lemma rnd_nonneg: "0 \<le> x \<Longrightarrow> 0 \<le> rnd x"
  using rhe_mono [of 0 "x / 2 powi qexp x"] rhe_of_int [of 0]
  by (simp add: rnd_def)

lemma rnd_grid: "\<exists>n q. rnd x = of_int n * 2 powi q \<and> - 1074 \<le> q"
proof (cases "x = 0")
  case True
  then show ?thesis by (intro exI [of _ 0] exI [of _ 0]) simp
next
  case False
  then have "rnd x = of_int (rhe (x / 2 powi qexp x)) * 2 powi qexp x \<and> - 1074 \<le> qexp x"
    by (simp add: rnd_def qexp_def)
  then show ?thesis by blast
qed

text \<open>A power of two above the unit in the last place is a barrier that rounding respects.\<close>

lemma rnd_le_pow2:
  assumes "0 < x" "x \<le> 2 powi e" "qexp x \<le> e"
  shows "rnd x \<le> 2 powi e"
proof -
  let ?q = "qexp x"
  have "x / 2 powi ?q \<le> 2 powi (e - ?q)" using assms by (simp add: powi2_diff divide_right_mono)
  then have "rhe (x / 2 powi ?q) \<le> rhe (2 powi (e - ?q))" by (rule rhe_mono)
  also have "\<dots> = 2 ^ nat (e - ?q)" using assms(3) by (simp only: powi2_int diff_ge_0_iff_ge rhe_of_int)
  finally have "of_int (rhe (x / 2 powi ?q)) \<le> (2::rat) powi (e - ?q)"
    using assms(3) by (simp add: powi2_int flip: of_int_le_iff)
  then have "of_int (rhe (x / 2 powi ?q)) * 2 powi ?q \<le> (2::rat) powi (e - ?q) * 2 powi ?q"
    by (simp add: mult_right_mono)
  then show ?thesis using assms(1) by (simp add: rnd_def flip: powi2_add)
qed

lemma rnd_ge_pow2:
  assumes "2 powi e \<le> x" "qexp x \<le> e"
  shows "2 powi e \<le> rnd x"
proof -
  let ?q = "qexp x"
  have x: "0 < x" using assms(1) powi2_pos [of e] by linarith
  have "2 powi (e - ?q) \<le> x / 2 powi ?q" using assms by (simp add: powi2_diff divide_right_mono)
  then have "rhe (2 powi (e - ?q)) \<le> rhe (x / 2 powi ?q)" by (rule rhe_mono)
  moreover have "rhe (2 powi (e - ?q)) = 2 ^ nat (e - ?q)"
    using assms(2) by (simp only: powi2_int diff_ge_0_iff_ge rhe_of_int)
  ultimately have "(2::rat) powi (e - ?q) \<le> of_int (rhe (x / 2 powi ?q))"
    using assms(2) by (simp add: powi2_int flip: of_int_le_iff)
  then have "(2::rat) powi (e - ?q) * 2 powi ?q \<le> of_int (rhe (x / 2 powi ?q)) * 2 powi ?q"
    by (simp add: mult_right_mono)
  then show ?thesis using x by (simp add: rnd_def flip: powi2_add)
qed

lemma rnd_mono_pos:
  assumes "0 < x" "x \<le> y"
  shows "rnd x \<le> rnd y"
proof (cases "qexp x = qexp y")
  case True
  have "x / 2 powi qexp y \<le> y / 2 powi qexp y" using assms(2) by (simp add: divide_right_mono)
  then have "rhe (x / 2 powi qexp y) \<le> rhe (y / 2 powi qexp y)" by (rule rhe_mono)
  with True assms show ?thesis by (simp add: rnd_def mult_right_mono)
next
  case False
  let ?e = "ilog2 y"
  have le: "ilog2 x \<le> ?e" using assms by (rule ilog2_mono)
  with False have e: "ilog2 x < ?e" "qexp y = ?e - 52" "qexp x \<le> ?e"
    using assms by (auto simp: qexp_def max_def split: if_splits)
  have yb: "2 powi ?e \<le> y" using ilog2_bounds [of y] assms by simp
  have "x < 2 powi (ilog2 x + 1)" using ilog2_bounds [of x] assms by simp
  also have "\<dots> \<le> (2::rat) powi ?e" using e(1) by simp
  finally have "rnd x \<le> 2 powi ?e" using rnd_le_pow2 [of x ?e] assms(1) e(3) by simp
  also have "\<dots> \<le> rnd y" using rnd_ge_pow2 [OF yb] e(2) by simp
  finally show ?thesis .
qed

lemma rnd_mono: "x \<le> y \<Longrightarrow> rnd x \<le> rnd y"
proof -
  assume xy: "x \<le> y"
  consider "0 < x" | "x \<le> 0" "0 \<le> y" | "y < 0" by linarith
  then show ?thesis
  proof cases
    case 1
    then show ?thesis using xy by (rule rnd_mono_pos)
  next
    case 2
    then show ?thesis using rnd_nonneg [of y] rnd_nonneg [of "- x"] by (simp add: rnd_minus)
  next
    case 3
    then show ?thesis using xy rnd_mono_pos [of "- y" "- x"] by (simp add: rnd_minus)
  qed
qed

section \<open>Representable values\<close>

lemma rnd_fixI:
  assumes "x = of_int m * 2 powi qexp x"
  shows "rnd x = x"
proof (cases "x = 0")
  case False
  have "x / 2 powi qexp x = of_int m" by (subst assms) simp
  then have "rhe (x / 2 powi qexp x) = m" by (simp only: rhe_of_int)
  then show ?thesis using False assms by (simp add: rnd_def)
qed simp

text \<open>An integer of at most 53 bits times a power of two at or above the smallest subnormal is
  representable.\<close>

lemma rnd_exact:
  assumes "\<bar>n\<bar> \<le> 2 ^ 53" "- 1074 \<le> q"
  shows "rnd (of_int n * 2 powi q) = of_int n * 2 powi q"
proof (cases "n = 0")
  case False
  let ?x = "of_int n * 2 powi q :: rat"
  have x: "0 < \<bar>?x\<bar>" using False by (simp add: abs_mult)
  show ?thesis
  proof (cases "qexp ?x \<le> q")
    case True
    then have "?x = of_int (n * 2 ^ nat (q - qexp ?x)) * 2 powi qexp ?x"
      by (simp add: powi2_diff flip: powi2_int [where e = "q - qexp ?x"] of_int_power)
    then show ?thesis by (rule rnd_fixI)
  next
    case False
    with assms(2) have e: "q + 53 \<le> ilog2 \<bar>?x\<bar>" by (simp add: qexp_def max_def split: if_splits)
    have "(2::rat) powi (q + 53) \<le> 2 powi ilog2 \<bar>?x\<bar>" using e by (simp only: powi2_le_iff)
    also have "\<dots> \<le> \<bar>of_int n\<bar> * 2 powi q" using ilog2_bounds [OF x] by (simp add: abs_mult)
    finally have "(2::rat) ^ 53 \<le> of_int \<bar>n\<bar>" by (simp add: powi2_add)
    then have "of_int (2 ^ 53) \<le> (of_int \<bar>n\<bar> :: rat)" by simp
    then have n: "\<bar>n\<bar> = 2 ^ 53" using assms(1) by (simp only: of_int_le_iff) 
    have a: "\<bar>?x\<bar> = 2 powi (q + 53)"
    proof -
      have "\<bar>?x\<bar> = of_int \<bar>n\<bar> * 2 powi q" by (simp add: abs_mult)
      then show ?thesis by (simp add: n powi2_add)
    qed
    have "ilog2 \<bar>?x\<bar> = q + 53" unfolding a by (rule ilog2_unique) simp_all
    then have qx: "qexp ?x = q + 1" using assms(2) by (simp add: qexp_def)
    have "n = 2 * (sgn n * 2 ^ 52)" using n by (cases "0 < n") (simp_all add: sgn_if abs_if split: if_splits)
    then have "(of_int n :: rat) = 2 * of_int (sgn n * 2 ^ 52)" by (metis of_int_mult of_int_numeral)
    then have "?x = of_int (sgn n * 2 ^ 52) * 2 powi qexp ?x"
      unfolding qx by (simp add: powi2_add)
    then show ?thesis by (rule rnd_fixI)
  qed
qed simp

lemma rnd_idem [simp]: "rnd (rnd x) = rnd x"
proof (cases "x = 0")
  case False
  let ?q = "qexp x" and ?n = "rhe (x / 2 powi qexp x)"
  have "\<bar>x\<bar> < 2 powi (ilog2 \<bar>x\<bar> + 1)" using ilog2_bounds [of "\<bar>x\<bar>"] False by simp
  also have "\<dots> \<le> 2 powi (?q + 53)" by (simp only: powi2_le_iff) (simp add: qexp_def)
  finally have "\<bar>x\<bar> \<le> 2 ^ 53 * 2 powi ?q" by (simp add: powi2_add)
  then have "\<bar>x / 2 powi ?q\<bar> \<le> of_int (2 ^ 53)"
    by (simp add: abs_divide divide_le_eq)
  then have "x / 2 powi ?q \<le> of_int (2 ^ 53)" "- of_int (2 ^ 53) \<le> x / 2 powi ?q"
    by (simp_all only: abs_le_iff) linarith+
  then have "?n \<le> rhe (of_int (2 ^ 53))" "rhe (of_int (- (2 ^ 53))) \<le> ?n"
    by (auto intro!: rhe_mono)
  then have "\<bar>?n\<bar> \<le> 2 ^ 53" by (simp only: rhe_of_int)
  then have "rnd (of_int ?n * 2 powi ?q) = of_int ?n * 2 powi ?q"
    by (rule rnd_exact) (simp add: qexp_def)
  then show ?thesis using False by (simp add: rnd_def)
qed simp

lemma rnd_multiple: "\<exists>n. rnd x = of_int n * 2 powi (- 1074)"
proof -
  obtain n q where r: "rnd x = of_int n * 2 powi q" and q: "- 1074 \<le> q"
    using rnd_grid by blast
  have "(2::rat) powi q = 2 powi (q + 1074) * 2 powi (- 1074)"
    by (simp only: powi2_add [symmetric]) simp
  also have "(2::rat) powi (q + 1074) = of_int (2 ^ nat (q + 1074))"
    using q by (intro powi2_int) simp
  finally have "rnd x = of_int (n * 2 ^ nat (q + 1074)) * 2 powi (- 1074)"
    by (simp only: r of_int_mult mult.assoc)
  then show ?thesis by blast
qed

text \<open>Gradual underflow: the rounded difference of representable values is negative exactly when
  the exact difference is.\<close>

lemma rnd_diff_neg:
  assumes "rnd a = a" "rnd b = b"
  shows "rnd (a - b) < 0 \<longleftrightarrow> a < b"
proof
  assume "a < b"
  obtain m n where mn: "a = of_int m * 2 powi (- 1074)" "b = of_int n * 2 powi (- 1074)"
    using rnd_multiple [of a] rnd_multiple [of b] assms by metis
  have "a - b = of_int (m - n) * 2 powi (- 1074)" by (simp add: mn left_diff_distrib)
  moreover have "m - n \<le> - 1" using \<open>a < b\<close> by (simp add: mn)
  ultimately have "a - b \<le> of_int (- 1) * 2 powi (- 1074)"
    by (simp only: mult_right_mono of_int_le_iff powi2_pos less_imp_le)
  then have "rnd (a - b) \<le> rnd (of_int (- 1) * 2 powi (- 1074))" by (rule rnd_mono)
  also have "\<dots> = of_int (- 1) * 2 powi (- 1074)" by (rule rnd_exact) simp_all
  also have "\<dots> < 0" by simp
  finally show "rnd (a - b) < 0" .
next
  assume "rnd (a - b) < 0"
  then show "a < b" using rnd_nonneg [of "a - b"] by (cases "a < b") simp_all
qed

lemma rnd_between: "rnd lo = lo \<Longrightarrow> lo \<le> x \<Longrightarrow> lo \<le> rnd x"
  "rnd hi = hi \<Longrightarrow> x \<le> hi \<Longrightarrow> rnd x \<le> hi"
  using rnd_mono by metis+

lemma rnd_1 [simp]: "rnd 1 = 1"
  using rnd_exact [of 1 0] by simp

lemma rnd_int: "\<bar>n\<bar> \<le> 2 ^ 53 \<Longrightarrow> rnd (of_int n) = of_int n"
  using rnd_exact [of n 0] by simp

section \<open>Facts about the operations\<close>

lemma f64_bound_pos [simp]: "0 < f64_max_bound"
  by (simp add: f64_max_bound_def)

lemma fits_iff: "fits y \<longleftrightarrow> \<bar>y\<bar> < f64_max_bound"
proof (cases "y = 0")
  case False
  have p: "(2::rat) powi 1024 = f64_max_bound" by (simp add: f64_max_bound_def)
  have b: "2 powi ilog2 \<bar>y\<bar> \<le> \<bar>y\<bar>" "\<bar>y\<bar> < 2 powi (ilog2 \<bar>y\<bar> + 1)"
    using ilog2_bounds [of "\<bar>y\<bar>"] False by simp_all
  have "ilog2 \<bar>y\<bar> < 1024 \<longleftrightarrow> \<bar>y\<bar> < 2 powi 1024"
  proof
    assume "ilog2 \<bar>y\<bar> < 1024"
    then have "(2::rat) powi (ilog2 \<bar>y\<bar> + 1) \<le> 2 powi 1024" by (simp only: powi2_le_iff)
    with b(2) show "\<bar>y\<bar> < 2 powi 1024" by (rule less_le_trans)
  next
    assume "\<bar>y\<bar> < 2 powi 1024"
    with b(1) have "(2::rat) powi ilog2 \<bar>y\<bar> < 2 powi 1024" by (rule le_less_trans)
    then show "ilog2 \<bar>y\<bar> < 1024" by (simp only: powi2_less_iff)
  qed
  then show ?thesis using False by (simp only: fits_def p simp_thms)
qed (simp add: fits_def)

lemma fits_minus [simp]: "fits (- y) = fits y"
  by (simp add: fits_def)

lemma fits_0 [simp]: "fits 0"
  by (simp add: fits_def)

lemma fits_le: "fits y \<Longrightarrow> \<bar>x\<bar> \<le> \<bar>y\<bar> \<Longrightarrow> fits x"
  by (simp add: fits_iff)

lemma f64_of_rat_ok [simp]: "f64_ok (f64_of_rat x)"
  by (auto simp: f64_of_rat_def Let_def)

lemma f64_of_rat_not_NaN [simp]: "f64_of_rat x \<noteq> NaN"
  by (simp add: f64_of_rat_def Let_def)

lemma f64_of_rat_exact: "f64_ok (Fin r) \<Longrightarrow> f64_of_rat r = Fin r"
  by (simp add: f64_of_rat_def Let_def)

lemma finf_ok [simp]: "f64_ok (finf s)"
  by (simp add: finf_def)

lemma fneg_ok [simp]: "f64_ok (fneg a) = f64_ok a"
  by (cases a) (simp_all add: rnd_minus)

lemma fadd_ok [simp]: "f64_ok (fadd a b)"
  by (cases a; cases b) simp_all

lemma fsub_ok [simp]: "f64_ok (fsub a b)"
  by (simp add: fsub_def)

lemma fmul_ok [simp]: "f64_ok (fmul a b)"
  by (cases a; cases b) simp_all

lemma fdiv_ok [simp]: "f64_ok (fdiv a b)"
  by (cases a; cases b) simp_all

lemma fle_Fin [simp]: "fle (Fin a) (Fin b) \<longleftrightarrow> a \<le> b"
  by (auto simp: fle_def)

lemma fle_refl: "a \<noteq> NaN \<Longrightarrow> fle a a"
  by (cases a) (auto simp: fle_def)

lemma fle_trans: "fle a b \<Longrightarrow> fle b c \<Longrightarrow> fle a c"
  by (cases a; cases b; cases c) (auto simp: fle_def)

lemma not_flt_fle: "a \<noteq> NaN \<Longrightarrow> b \<noteq> NaN \<Longrightarrow> \<not> flt a b \<longleftrightarrow> fle b a"
  by (simp add: fle_def)

lemma flt_imp_fle: "flt a b \<Longrightarrow> fle a b"
  by (cases a; cases b) (auto simp: fle_def)

lemma fsub_Fin: "fsub (Fin a) (Fin b) = f64_of_rat (a - b)"
  by (simp add: fsub_def)

text \<open>The sign test \<open>x - y < 0\<close> on finite values compares them exactly.\<close>

lemma fsub_lt0_iff:
  assumes "f64_ok (Fin a)" "f64_ok (Fin b)"
  shows "flt (fsub (Fin a) (Fin b)) (Fin 0) \<longleftrightarrow> a < b"
proof -
  have r: "rnd (a - b) < 0 \<longleftrightarrow> a < b" using assms by (intro rnd_diff_neg) simp_all
  have "flt (f64_of_rat (a - b)) (Fin 0) \<longleftrightarrow> rnd (a - b) < 0"
    by (auto simp: f64_of_rat_def Let_def fits_def)
  then show ?thesis using r by (simp add: fsub_Fin)
qed

lemma math_Max_Fin [simp]: "math_Max (Fin a) (Fin b) = Fin (max a b)"
  by (auto simp: math_Max_def max_def)

lemma math_Max_ok [simp]: "f64_ok a \<Longrightarrow> f64_ok b \<Longrightarrow> f64_ok (math_Max a b)"
  by (simp add: math_Max_def)

lemma f64_of_rat_small:
  assumes "\<bar>x\<bar> \<le> 2 ^ 53"
  shows "f64_of_rat x = Fin (rnd x)"
proof -
  have r: "rnd (2 ^ 53) = 2 ^ 53" using rnd_int [of "2 ^ 53"] by simp
  have "rnd x \<le> 2 ^ 53" using rnd_between(2) [OF r, of x] assms by linarith
  moreover have "rnd (- x) \<le> 2 ^ 53" using rnd_between(2) [OF r, of "- x"] assms by linarith
  ultimately have "\<bar>rnd x\<bar> \<le> \<bar>2 ^ 53\<bar>" by (simp add: rnd_minus abs_le_iff)
  moreover have "fits (2 ^ 53)" by (simp add: fits_iff f64_max_bound_def)
  ultimately have "fits (rnd x)" using fits_le by blast
  then show ?thesis by (simp add: f64_of_rat_def)
qed

lemma f64_of_rat_int: "\<bar>n\<bar> \<le> 2 ^ 53 \<Longrightarrow> f64_of_rat (of_int n) = Fin (of_int n)"
proof -
  assume n: "\<bar>n\<bar> \<le> 2 ^ 53"
  then have "of_int \<bar>n\<bar> \<le> (of_int (2 ^ 53) :: rat)" by (simp only: of_int_le_iff)
  then have "\<bar>of_int n :: rat\<bar> \<le> 2 ^ 53" by simp
  then show ?thesis using rnd_int [OF n] by (simp add: f64_of_rat_small)
qed

end
