(* ===== verification/Market.thy ===== *)
theory Market
  imports Float64
begin

text \<open>
  The public market data behind the meter display (examples/energy\_auction/market.go): the
  day-ahead prices, the plant's output curve, the load shape and the clearing band of an hour.
  \<open>math.Sin\<close> is the argument \<open>msin\<close> of \<open>PVOutput\<close>: only the display uses its value.
  An index out of range is \<open>None\<close>, the run-time panic.
\<close>

section \<open>Data\<close>

definition DayPrices :: "f64 list" where
  "DayPrices = map (\<lambda>c. f64_of_rat (of_int c / 100))
     [655, 545, 445, 412, 463, 435, 176, 48,
      24, -28, -250, -696, -1001, -1354, -1329, -851,
      -300, -13, 225, 679, 757, 583, 446, 356]"

definition RetailEnergyRate :: f64 where
  "RetailEnergyRate = f64_of_rat 16"

definition math_Pi :: f64 where
  "math_Pi = f64_of_rat (314159265358979323846264338327950288419716939937510582097494459 / 10 ^ 62)"

definition PVOutput :: "(f64 \<Rightarrow> f64) \<Rightarrow> int \<Rightarrow> f64" where
  "PVOutput msin hour =
     (let sunrise = f64_of_rat 5; sunset = f64_of_rat 21;
          h = fadd (f64_int hour) (f64_of_rat (1 / 2))
      in if flt h sunrise \<or> flt sunset h then Fin 0
         else fmul (f64_of_rat (92 / 100))
                (msin (fdiv (fmul math_Pi (fsub h sunrise)) (f64_of_rat (21 - 5)))))"

definition nth_opt :: "'a list \<Rightarrow> int \<Rightarrow> 'a option" where
  "nth_opt xs i = (if 0 \<le> i \<and> i < int (length xs) then Some (xs ! nat i) else None)"

definition load_shape :: "f64 list" where
  "load_shape = map (\<lambda>c. f64_of_rat (of_int c / 100))
     [40, 37, 33, 33, 37, 47, 63, 77,
      73, 67, 63, 67, 70, 63, 60, 63,
      73, 87, 100, 100, 90, 77, 63, 50]"

definition LoadShape :: "int \<Rightarrow> f64 option" where
  "LoadShape hour = nth_opt load_shape (go_rem hour 24)"

record band =
  b_Hour :: int
  b_SpotCt :: f64
  b_FloorCt :: f64
  b_CapCt :: f64
  b_PVFraction :: f64

definition BandAt :: "(f64 \<Rightarrow> f64) \<Rightarrow> int \<Rightarrow> band option" where
  "BandAt msin hour =
     (case nth_opt DayPrices (go_rem hour 24) of
        None \<Rightarrow> None
      | Some spot \<Rightarrow>
          (let fl = math_Max (Fin 0) spot; cap = RetailEnergyRate;
               fl' = (if flt cap fl then cap else fl)
           in Some \<lparr>b_Hour = go_rem hour 24, b_SpotCt = spot, b_FloorCt = fl', b_CapCt = cap,
                    b_PVFraction = PVOutput msin (go_rem hour 24)\<rparr>))"

section \<open>The clearing band\<close>

lemma length_DayPrices [simp]: "length DayPrices = 24"
  by (simp add: DayPrices_def)

lemma DayPrices_finite: "\<forall>p \<in> set DayPrices. is_fin p"
  by (simp add: DayPrices_def f64_of_rat_small)

lemma nth_opt_in_range: "0 \<le> i \<Longrightarrow> i < int (length xs) \<Longrightarrow> \<exists>x. nth_opt xs i = Some x \<and> x \<in> set xs"
  by (simp add: nth_opt_def nat_less_iff)

lemma RetailEnergyRate_val: "RetailEnergyRate = Fin 16"
  using f64_of_rat_int [of 16] by (simp add: RetailEnergyRate_def)

lemma BandAt_wf:
  assumes "0 \<le> hour"
  shows "\<exists>b. BandAt msin hour = Some b \<and> b_CapCt b = Fin 16
           \<and> (\<exists>f s. b_FloorCt b = Fin f \<and> b_SpotCt b = Fin s \<and> f = min 16 (max 0 s))"
proof -
  have "0 \<le> go_rem hour 24" "go_rem hour 24 < int (length DayPrices)"
    using assms by simp_all
  then obtain p where p: "nth_opt DayPrices (go_rem hour 24) = Some p" "p \<in> set DayPrices"
    using nth_opt_in_range by blast
  then obtain s where "p = Fin s" using DayPrices_finite by (cases p) auto
  with p(1) show ?thesis
    by (auto simp: BandAt_def RetailEnergyRate_val Let_def)
qed

end
