(* ===== verification/Auction.thy ===== *)
theory Auction
  imports Market
begin

text \<open>
  The round and epoch state machine of the energy auction
  (examples/energy\_auction/auction.go).

  The struct \<open>Auction\<close> is the record \<open>auction\<close>; every exported method is a function on it
  (the mutex makes each call one atomic step). \<open>peers\<close> and the other Go maps are association
  lists. \<open>time.Now\<close> is the argument \<open>now\<close> of \<open>Settle\<close>, and \<open>math.Sin\<close> reaches \<open>Snapshot\<close>
  through \<open>BandAt\<close>. \<open>auction_step\<close> lets any client call any method at any time, which is what the
  relay's concurrent connections can do; \<open>auction_inv\<close> is what every interleaving keeps.
\<close>

section \<open>Data\<close>

definition MaxBuyers :: int where
  "MaxBuyers = 5"

datatype role = RoleSeller | RoleBuyer | RoleFull

datatype aphase = PhaseWaiting | PhaseBidding | PhaseEvaluating | PhaseOffer | PhaseSettled

record peer =
  p_ID :: string
  p_Role :: role
  p_Seat :: int
  p_Sealed :: bool

record trade =
  t_At :: string
  t_Slot :: int
  t_PriceCt :: f64
  t_Accepted :: bool
  t_Bidders :: int
  t_seat :: int

definition EpochSize :: nat where
  "EpochSize = 5"

datatype epoch_phase = EpochOpen | EpochReady | EpochAudit | EpochDone

record auction =
  a_Hour :: int
  a_phase :: aphase
  a_peers :: "(string, peer) gomap"
  a_order :: "string list"
  a_pubKey :: bytes
  a_evalKey :: bytes
  a_bids :: "(int, bytes) gomap"
  a_masks :: "bytes list"
  a_keyID :: int
  a_winnerSeat :: int
  a_priceCt :: f64
  a_trades :: "trade list"
  a_epoch :: epoch_phase
  a_epochKey :: bytes
  a_epochTotals :: "(string, bytes) gomap"
  a_epochNet :: f64
  a_epochOK :: bool
  a_epochOpened :: bool
  a_chainPos :: int
  a_epochPartials :: "(string, bytes) gomap"
  a_epochParty :: "string list"
  a_epochAbort :: string

definition NewAuction :: auction where
  "NewAuction = \<lparr>a_Hour = 13, a_phase = PhaseWaiting, a_peers = [], a_order = [],
     a_pubKey = [], a_evalKey = [], a_bids = [], a_masks = [], a_keyID = 0,
     a_winnerSeat = - 1, a_priceCt = Fin 0, a_trades = [], a_epoch = EpochOpen,
     a_epochKey = [], a_epochTotals = [], a_epochNet = Fin 0, a_epochOK = False,
     a_epochOpened = False, a_chainPos = 0, a_epochPartials = [], a_epochParty = [],
     a_epochAbort = []\<rparr>"

section \<open>Seats\<close>

abbreviation peer_list :: "auction \<Rightarrow> peer list" where
  "peer_list a \<equiv> map snd (a_peers a)"

definition seller :: "auction \<Rightarrow> peer option" where
  "seller a = List.find (\<lambda>p. p_Role p = RoleSeller) (peer_list a)"

definition buyerCount :: "auction \<Rightarrow> int" where
  "buyerCount a = int (length (filter (\<lambda>p. p_Role p = RoleBuyer) (peer_list a)))"

definition Join :: "string \<Rightarrow> auction \<Rightarrow> auction \<times> peer" where
  "Join pid a =
     (let p = (if seller a = None then
                 \<lparr>p_ID = pid, p_Role = RoleSeller, p_Seat = - 1, p_Sealed = False\<rparr>
               else if buyerCount a < MaxBuyers then
                 \<lparr>p_ID = pid, p_Role = RoleBuyer, p_Seat = buyerCount a, p_Sealed = False\<rparr>
               else \<lparr>p_ID = pid, p_Role = RoleFull, p_Seat = - 1, p_Sealed = False\<rparr>)
      in (a\<lparr>a_peers := AList.update pid p (a_peers a), a_order := a_order a @ [pid]\<rparr>, p))"

definition unseal :: "(string, peer) gomap \<Rightarrow> (string, peer) gomap" where
  "unseal ps = map (\<lambda>(k, p). (k, p\<lparr>p_Sealed := False\<rparr>)) ps"

definition resetLocked :: "auction \<Rightarrow> auction" where
  "resetLocked a = a\<lparr>a_phase := PhaseWaiting, a_pubKey := [], a_evalKey := [], a_bids := [],
     a_masks := [], a_winnerSeat := - 1, a_priceCt := Fin 0, a_peers := unseal (a_peers a)\<rparr>"

definition Leave :: "string \<Rightarrow> auction \<Rightarrow> auction" where
  "Leave pid a =
     (let p = map_of (a_peers a) pid;
          a1 = a\<lparr>a_peers := AList.delete pid (a_peers a), a_order := slices_remove pid (a_order a)\<rparr>;
          a2 = (case p of
                  Some q \<Rightarrow> if p_Role q = RoleSeller \<or> p_Sealed q then resetLocked a1 else a1
                | None \<Rightarrow> a1)
      in if a_epoch a2 = EpochAudit \<and> List.member (a_epochParty a2) pid
         then a2\<lparr>a_epochAbort := ''a participant left mid-audit'', a_epoch := EpochReady,
                 a_epochParty := [], a_epochTotals := [], a_epochPartials := [],
                 a_chainPos := 0\<rparr>
         else a2)"

fun first_buyer :: "(string, peer) gomap \<Rightarrow> string list \<Rightarrow> peer option" where
  "first_buyer ps [] = None"
| "first_buyer ps (pid # pids) =
     (case map_of ps pid of
        Some p \<Rightarrow> if p_Role p = RoleBuyer then Some p else first_buyer ps pids
      | None \<Rightarrow> first_buyer ps pids)"

definition Evaluator :: "auction \<Rightarrow> peer option" where
  "Evaluator a = first_buyer (a_peers a) (a_order a)"

definition evaluatorLocked :: "auction \<Rightarrow> peer option" where
  "evaluatorLocked a = first_buyer (a_peers a) (a_order a)"

definition Reset :: "auction \<Rightarrow> auction" where
  "Reset a = resetLocked a"

definition SetHour :: "int \<Rightarrow> auction \<Rightarrow> auction" where
  "SetHour h a = resetLocked (a\<lparr>a_Hour := go_rem (go_rem h 24 + 24) 24\<rparr>)"

section \<open>A round\<close>

definition PublishKeys :: "bytes \<Rightarrow> bytes \<Rightarrow> auction \<Rightarrow> auction" where
  "PublishKeys pk ek a = a\<lparr>a_pubKey := pk, a_evalKey := ek, a_keyID := a_keyID a + 1,
     a_bids := [], a_masks := [], a_winnerSeat := - 1, a_peers := unseal (a_peers a),
     a_phase := PhaseBidding\<rparr>"

datatype bid_result = BidRejected | BidStored | BidComplete

definition SubmitBid :: "string \<Rightarrow> int \<Rightarrow> bytes \<Rightarrow> auction \<Rightarrow> auction \<times> bid_result" where
  "SubmitBid pid keyID ct a =
     (case map_of (a_peers a) pid of
        None \<Rightarrow> (a, BidRejected)
      | Some p \<Rightarrow>
          if p_Role p \<noteq> RoleBuyer \<or> a_phase a \<noteq> PhaseBidding then (a, BidRejected)
          else if keyID \<noteq> a_keyID a then (a, BidRejected)
          else
            (let a1 = a\<lparr>a_bids := AList.update (p_Seat p) ct (a_bids a),
                        a_peers := AList.update pid (p\<lparr>p_Sealed := True\<rparr>) (a_peers a)\<rparr>
             in if int (length (a_bids a1)) < buyerCount a1 \<or> buyerCount a1 = 0
                then (a1, BidStored)
                else (a1\<lparr>a_phase := PhaseEvaluating\<rparr>, BidComplete)))"

fun collect_bids :: "(int, bytes) gomap \<Rightarrow> int list \<Rightarrow> bytes list \<times> int list" where
  "collect_bids bids [] = ([], [])"
| "collect_bids bids (seat # rest) =
     (let (cts, seats) = collect_bids bids rest
      in case map_of bids seat of
           Some ct \<Rightarrow> (ct # cts, seat # seats)
         | None \<Rightarrow> (cts, seats))"

definition OrderedBids :: "auction \<Rightarrow> bytes list \<times> int list" where
  "OrderedBids a = collect_bids (a_bids a) [0..MaxBuyers - 1]"

definition SetMasks :: "bytes list \<Rightarrow> auction \<Rightarrow> auction" where
  "SetMasks masks a = a\<lparr>a_masks := masks, a_phase := PhaseOffer\<rparr>"

definition Offer :: "int \<Rightarrow> f64 \<Rightarrow> auction \<Rightarrow> auction" where
  "Offer seat price a = a\<lparr>a_winnerSeat := seat, a_priceCt := price, a_phase := PhaseOffer\<rparr>"

definition Settle :: "string \<Rightarrow> bool \<Rightarrow> auction \<Rightarrow> auction \<times> int" where
  "Settle now accepted a =
     (if a_winnerSeat a < 0 then (a, - 1)
      else
        (let seat = a_winnerSeat a;
             a1 = a\<lparr>a_trades := \<lparr>t_At = now, t_Slot = a_Hour a, t_PriceCt = a_priceCt a,
                      t_Accepted = accepted, t_Bidders = int (length (a_bids a)),
                      t_seat = seat\<rparr> # a_trades a\<rparr>;
             a2 = a1\<lparr>a_Hour := go_rem (a_Hour a1 + 1) 24\<rparr>;
             trades = a_trades a2;
             a3 = (resetLocked a2)\<lparr>a_trades := trades, a_phase := PhaseSettled\<rparr>
         in (if a_epoch a3 = EpochOpen \<and> EpochSize \<le> length (a_trades a3)
             then a3\<lparr>a_epoch := EpochReady\<rparr> else a3, seat)))"

section \<open>The epoch audit\<close>

definition StartEpochChain :: "auction \<Rightarrow> auction \<times> string" where
  "StartEpochChain a =
     (if a_epoch a = EpochAudit then (a, [])
      else
        (let a1 = a\<lparr>a_epoch := EpochAudit, a_epochParty := a_order a, a_epochAbort := [],
                    a_epochKey := [], a_epochTotals := [], a_epochPartials := [],
                    a_epochOpened := False, a_chainPos := 0\<rparr>
         in (a1, case a_epochParty a1 of [] \<Rightarrow> [] | pid # _ \<Rightarrow> pid)))"

text \<open>The result is \<open>None\<close> when the index \<open>epochParty[chainPos]\<close> would be out of range.\<close>

definition AdvanceEpochChain :: "bytes \<Rightarrow> auction \<Rightarrow> auction \<times> (string \<times> bool) option" where
  "AdvanceEpochChain pk a =
     (let a1 = a\<lparr>a_epochKey := pk, a_chainPos := a_chainPos a + 1\<rparr>
      in (a1,
          if int (length (a_epochParty a1)) \<le> a_chainPos a1 then Some ([], True)
          else (case nth_opt (a_epochParty a1) (a_chainPos a1) of
                  Some next_id \<Rightarrow> Some (next_id, False)
                | None \<Rightarrow> None)))"

definition EpochKey :: "auction \<Rightarrow> bytes" where
  "EpochKey a = a_epochKey a"

definition haveAllLocked :: "auction \<Rightarrow> (string, bytes) gomap \<Rightarrow> bool" where
  "haveAllLocked a m \<longleftrightarrow>
     list_all (\<lambda>pid. map_of m pid \<noteq> None) (a_epochParty a) \<and> 0 < length (a_epochParty a)"

definition SubmitEpochPartial :: "string \<Rightarrow> bytes \<Rightarrow> auction \<Rightarrow> auction \<times> bool" where
  "SubmitEpochPartial pid ct a =
     (let a1 = a\<lparr>a_epochPartials := AList.update pid ct (a_epochPartials a)\<rparr>
      in (a1, haveAllLocked a1 (a_epochPartials a1)))"

definition EpochPartials :: "auction \<Rightarrow> bytes list" where
  "EpochPartials a = List.map_filter (map_of (a_epochPartials a)) (a_epochParty a)"

definition SubmitEpochTotal :: "string \<Rightarrow> bytes \<Rightarrow> auction \<Rightarrow> auction \<times> bool" where
  "SubmitEpochTotal pid ct a =
     (if a_epoch a \<noteq> EpochAudit then (a, False)
      else
        (let a1 = a\<lparr>a_epochTotals := AList.update pid ct (a_epochTotals a)\<rparr>
         in (a1, haveAllLocked a1 (a_epochTotals a1))))"

definition EpochCiphertexts :: "auction \<Rightarrow> bytes list" where
  "EpochCiphertexts a = List.map_filter (map_of (a_epochTotals a)) (a_epochParty a)"

definition CloseEpoch :: "f64 \<Rightarrow> bool \<Rightarrow> auction \<Rightarrow> auction" where
  "CloseEpoch net ok a = a\<lparr>a_epochNet := net, a_epochOK := ok, a_epochOpened := True,
     a_epoch := EpochDone\<rparr>"

definition NewEpoch :: "auction \<Rightarrow> auction" where
  "NewEpoch a = resetLocked (a\<lparr>a_trades := [], a_epoch := EpochOpen, a_epochKey := [],
     a_epochTotals := [], a_epochNet := Fin 0, a_epochOK := False, a_epochOpened := False,
     a_chainPos := 0, a_epochPartials := [], a_epochParty := [], a_epochAbort := []\<rparr>)"

section \<open>What every tab is shown\<close>

text \<open>A trade as \<open>encoding/json\<close> writes it: the unexported field \<open>seat\<close> is left out.\<close>

record trade_json =
  tj_at :: string
  tj_slot :: int
  tj_price_ct :: f64
  tj_accepted :: bool
  tj_bidders :: int

definition trade_to_json :: "trade \<Rightarrow> trade_json" where
  "trade_to_json t = \<lparr>tj_at = t_At t, tj_slot = t_Slot t, tj_price_ct = t_PriceCt t,
     tj_accepted = t_Accepted t, tj_bidders = t_Bidders t\<rparr>"

record snapshot =
  s_hour :: int
  s_band :: "band option"
  s_phase :: aphase
  s_peers :: "peer list"
  s_buyers :: int
  s_max_buyers :: int
  s_sealed :: int
  s_evaluator :: string
  s_winner_seat :: int
  s_price_ct :: f64
  s_trades :: "trade_json list"
  s_has_keys :: bool
  s_key_id :: int
  s_epoch :: epoch_phase
  s_epoch_size :: nat
  s_epoch_net :: f64
  s_epoch_ok :: bool
  s_epoch_open :: bool
  s_epoch_have :: int
  s_epoch_chain :: int
  s_epoch_parts :: int
  s_epoch_party :: int
  s_epoch_abort :: string

definition Snapshot :: "(f64 \<Rightarrow> f64) \<Rightarrow> auction \<Rightarrow> snapshot" where
  "Snapshot msin a = \<lparr>s_hour = a_Hour a, s_band = BandAt msin (a_Hour a), s_phase = a_phase a,
     s_peers = List.map_filter (map_of (a_peers a)) (a_order a),
     s_buyers = buyerCount a, s_max_buyers = MaxBuyers, s_sealed = int (length (a_bids a)),
     s_evaluator = (case evaluatorLocked a of Some p \<Rightarrow> p_ID p | None \<Rightarrow> []),
     s_winner_seat = a_winnerSeat a, s_price_ct = a_priceCt a,
     s_trades = map trade_to_json (a_trades a), s_has_keys = (0 < length (a_pubKey a)),
     s_key_id = a_keyID a, s_epoch = a_epoch a, s_epoch_size = EpochSize,
     s_epoch_net = a_epochNet a, s_epoch_ok = a_epochOK a, s_epoch_open = a_epochOpened a,
     s_epoch_have = int (length (a_epochTotals a)), s_epoch_chain = a_chainPos a,
     s_epoch_parts = int (length (a_epochPartials a)),
     s_epoch_party = int (length (a_epochParty a)), s_epoch_abort = a_epochAbort a\<rparr>"

definition SellerID :: "auction \<Rightarrow> string" where
  "SellerID a = (case seller a of Some p \<Rightarrow> p_ID p | None \<Rightarrow> [])"

definition PeerAtSeat :: "int \<Rightarrow> auction \<Rightarrow> string" where
  "PeerAtSeat seat a =
     (case List.find (\<lambda>p. p_Role p = RoleBuyer \<and> p_Seat p = seat) (peer_list a) of
        Some p \<Rightarrow> p_ID p | None \<Rightarrow> [])"

definition KeyID :: "auction \<Rightarrow> int" where
  "KeyID a = a_keyID a"

section \<open>Interleavings\<close>

text \<open>One critical section of some connection. \<open>Join\<close> is only called with a fresh connection id
  (the relay numbers its connections); everything else may come from any client at any time with
  any argument.\<close>

inductive auction_step :: "auction \<Rightarrow> auction \<Rightarrow> bool" where
  st_Join: "pid \<notin> keys (a_peers a) \<Longrightarrow> auction_step a (fst (Join pid a))"
| st_Leave: "auction_step a (Leave pid a)"
| st_Reset: "auction_step a (Reset a)"
| st_SetHour: "auction_step a (SetHour h a)"
| st_PublishKeys: "auction_step a (PublishKeys pk ek a)"
| st_SubmitBid: "auction_step a (fst (SubmitBid pid k ct a))"
| st_SetMasks: "auction_step a (SetMasks ms a)"
| st_Offer: "auction_step a (Offer seat price a)"
| st_Settle: "auction_step a (fst (Settle now ok a))"
| st_StartEpochChain: "auction_step a (fst (StartEpochChain a))"
| st_AdvanceEpochChain: "auction_step a (fst (AdvanceEpochChain pk a))"
| st_SubmitEpochPartial: "auction_step a (fst (SubmitEpochPartial pid ct a))"
| st_SubmitEpochTotal: "auction_step a (fst (SubmitEpochTotal pid ct a))"
| st_CloseEpoch: "auction_step a (CloseEpoch net ok a)"
| st_NewEpoch: "auction_step a (NewEpoch a)"

abbreviation auction_reachable :: "auction \<Rightarrow> bool" where
  "auction_reachable a \<equiv> reach auction_step NewAuction a"

section \<open>The invariant\<close>

text \<open>A well-formed entry of the peer map.\<close>

definition peer_wf :: "string \<Rightarrow> peer \<Rightarrow> bool" where
  "peer_wf k p \<longleftrightarrow> p_ID p = k
     \<and> (if p_Role p = RoleBuyer then 0 \<le> p_Seat p \<and> p_Seat p < MaxBuyers
        else p_Seat p = - 1 \<and> \<not> p_Sealed p)"

definition sellers :: "(string, peer) gomap \<Rightarrow> peer list" where
  "sellers ps = filter (\<lambda>p. p_Role p = RoleSeller) (map snd ps)"

definition buyers :: "(string, peer) gomap \<Rightarrow> peer list" where
  "buyers ps = filter (\<lambda>p. p_Role p = RoleBuyer) (map snd ps)"

definition peers_inv :: "(string, peer) gomap \<Rightarrow> string list \<Rightarrow> bool" where
  "peers_inv ps ord \<longleftrightarrow> gomap_wf ps \<and> distinct ord \<and> set ord = keys ps
     \<and> (\<forall>k p. (k, p) \<in> set ps \<longrightarrow> peer_wf k p)
     \<and> length (sellers ps) \<le> 1 \<and> int (length (buyers ps)) \<le> MaxBuyers"

text \<open>The bid map holds exactly the seats of the peers marked as sealed.\<close>

definition sealed_seats :: "(string, peer) gomap \<Rightarrow> int set" where
  "sealed_seats ps = {p_Seat p |k p. (k, p) \<in> set ps \<and> p_Sealed p}"

definition bids_inv :: "(string, peer) gomap \<Rightarrow> (int, bytes) gomap \<Rightarrow> bool" where
  "bids_inv ps bids \<longleftrightarrow> gomap_wf bids \<and> keys bids = sealed_seats ps"

definition epoch_inv :: "auction \<Rightarrow> bool" where
  "epoch_inv a \<longleftrightarrow> 0 \<le> a_chainPos a \<and> distinct (a_epochParty a)
     \<and> (a_epoch a = EpochAudit \<longrightarrow> set (a_epochParty a) \<subseteq> keys (a_peers a))
     \<and> (a_epoch a = EpochOpen \<longrightarrow> length (a_trades a) < EpochSize)"

definition auction_inv :: "auction \<Rightarrow> bool" where
  "auction_inv a \<longleftrightarrow> peers_inv (a_peers a) (a_order a) \<and> bids_inv (a_peers a) (a_bids a)
     \<and> epoch_inv a \<and> 0 \<le> a_Hour a \<and> a_Hour a < 24"

subsection \<open>The peer map\<close>

lemma buyerCount_buyers: "buyerCount a = int (length (buyers (a_peers a)))"
  by (simp add: buyerCount_def buyers_def)

lemma seller_None: "seller a = None \<longleftrightarrow> sellers (a_peers a) = []"
  by (auto simp: seller_def sellers_def find_None_iff filter_empty_conv)

lemma sellers_snoc: "sellers (ps @ [(k, p)]) = sellers ps @ (if p_Role p = RoleSeller then [p] else [])"
  by (simp add: sellers_def)

lemma buyers_snoc: "buyers (ps @ [(k, p)]) = buyers ps @ (if p_Role p = RoleBuyer then [p] else [])"
  by (simp add: buyers_def)

lemma keys_unseal [simp]: "keys (unseal ps) = keys ps"
  by (force simp: unseal_def)

lemma map_fst_unseal [simp]: "map fst (unseal ps) = map fst ps"
  by (induction ps) (auto simp: unseal_def)

lemma length_sellers_unseal [simp]: "length (sellers (unseal ps)) = length (sellers ps)"
  by (induction ps) (auto simp: unseal_def sellers_def)

lemma length_buyers_unseal [simp]: "length (buyers (unseal ps)) = length (buyers ps)"
  by (induction ps) (auto simp: unseal_def buyers_def)

lemma in_unseal: "(k, p) \<in> set (unseal ps) \<longleftrightarrow> (\<exists>q. (k, q) \<in> set ps \<and> p = q\<lparr>p_Sealed := False\<rparr>)"
  by (auto simp: unseal_def)

lemma sealed_seatsI: "(k, p) \<in> set ps \<Longrightarrow> p_Sealed p \<Longrightarrow> p_Seat p \<in> sealed_seats ps"
  unfolding sealed_seats_def by blast

lemma sealed_seats_unseal [simp]: "sealed_seats (unseal ps) = {}"
  by (auto simp: sealed_seats_def in_unseal)

lemma sealed_seats_Nil [simp]: "sealed_seats [] = {}"
  by (simp add: sealed_seats_def)

lemma peer_wf_unseal: "peer_wf k p \<Longrightarrow> peer_wf k (p\<lparr>p_Sealed := False\<rparr>)"
  by (simp add: peer_wf_def)

lemma peers_inv_unseal [wf_intros]: "peers_inv ps ord \<Longrightarrow> peers_inv (unseal ps) ord"
  by (auto simp: peers_inv_def in_unseal peer_wf_unseal)

lemma bids_inv_unseal [wf_intros]: "bids_inv (unseal ps) []"
  by (simp add: bids_inv_def)

lemma length_sellers_delete: "length (sellers (AList.delete pid ps)) \<le> length (sellers ps)"
  by (induction ps) (auto simp: sellers_def)

lemma length_buyers_delete: "length (buyers (AList.delete pid ps)) \<le> length (buyers ps)"
  by (induction ps) (auto simp: buyers_def)

lemma peers_inv_delete [wf_intros]:
  "peers_inv ps ord \<Longrightarrow> peers_inv (AList.delete pid ps) (slices_remove pid ord)"
  using length_sellers_delete [of pid ps] length_buyers_delete [of pid ps]
  by (auto simp: peers_inv_def gomap_simps set_delete)

lemma sealed_seats_delete:
  assumes "gomap_wf ps"
    and "\<And>q. map_of ps pid = Some q \<Longrightarrow> \<not> p_Sealed q"
  shows "sealed_seats (AList.delete pid ps) = sealed_seats ps"
  using assms by (auto simp: sealed_seats_def set_delete)

text \<open>Sealing a buyer's entry keeps its role and seat.\<close>

lemma length_roles_update:
  assumes "gomap_wf ps" "map_of ps pid = Some p" "p_Role q = p_Role p"
  shows "length (sellers (AList.update pid q ps)) = length (sellers ps)"
    and "length (buyers (AList.update pid q ps)) = length (buyers ps)"
  using assms by (induction ps) (auto simp: sellers_def buyers_def split: if_splits)

lemma peers_inv_seal [wf_intros]:
  assumes "peers_inv ps ord" "map_of ps pid = Some p" "p_Role p = RoleBuyer"
  shows "peers_inv (AList.update pid (p\<lparr>p_Sealed := True\<rparr>) ps) ord"
proof -
  have "peer_wf pid p" using assms by (auto simp: peers_inv_def map_of_eq_Some)
  then have w: "peer_wf pid (p\<lparr>p_Sealed := True\<rparr>)" using assms(3) by (simp add: peer_wf_def)
  have "pid \<in> keys ps" using assms(2) by (rule map_of_in_keys)
  then show ?thesis using assms w
    by (auto simp: peers_inv_def gomap_simps set_update_wf length_roles_update)
qed

lemma sealed_seats_seal:
  assumes "gomap_wf ps" "map_of ps pid = Some p"
  shows "sealed_seats (AList.update pid (p\<lparr>p_Sealed := True\<rparr>) ps) = insert (p_Seat p) (sealed_seats ps)"
proof -
  let ?p = "p\<lparr>p_Sealed := True\<rparr>"
  have u: "set (AList.update pid ?p ps) = insert (pid, ?p) {(k, q) \<in> set ps. k \<noteq> pid}"
    using assms(1) by (rule set_update_wf)
  have k: "q = p" if "(pid, q) \<in> set ps" for q
    using that assms(2) map_of_eq_Some [OF assms(1), of pid q] by simp
  have "s \<in> sealed_seats (AList.update pid ?p ps)"
    if "s = p_Seat p \<or> s \<in> sealed_seats ps" for s
  proof (cases "s = p_Seat p")
    case True
    moreover have "(pid, ?p) \<in> set (AList.update pid ?p ps)" by (simp add: u)
    ultimately show ?thesis using sealed_seatsI by fastforce
  next
    case False
    with that obtain k' q where "(k', q) \<in> set ps" "p_Sealed q" "s = p_Seat q"
      by (auto simp: sealed_seats_def)
    with False k have "(k', q) \<in> set (AList.update pid ?p ps)" by (auto simp: u)
    with \<open>p_Sealed q\<close> \<open>s = p_Seat q\<close> show ?thesis by (simp add: sealed_seatsI)
  qed
  moreover have "s = p_Seat p \<or> s \<in> sealed_seats ps"
    if "s \<in> sealed_seats (AList.update pid ?p ps)" for s
    using that by (auto simp: sealed_seats_def u)
  ultimately show ?thesis by blast
qed

lemma peers_inv_join [wf_intros]:
  assumes "peers_inv (a_peers a) (a_order a)" "pid \<notin> keys (a_peers a)"
  shows "peers_inv (a_peers (fst (Join pid a))) (a_order (fst (Join pid a)))"
proof -
  have "a_peers (fst (Join pid a)) = a_peers a @ [(pid, snd (Join pid a))]"
    using assms(2) by (simp add: Join_def Let_def gomap_update_fresh)
  moreover have "peer_wf pid (snd (Join pid a))"
    by (simp add: Join_def Let_def peer_wf_def buyerCount_def)
  moreover have "length (sellers (a_peers a @ [(pid, snd (Join pid a))])) \<le> 1"
    using assms(1) by (simp add: Join_def Let_def seller_None peers_inv_def sellers_snoc)
  moreover have "int (length (buyers (a_peers a @ [(pid, snd (Join pid a))]))) \<le> MaxBuyers"
    using assms(1) by (simp add: Join_def Let_def peers_inv_def buyers_snoc buyerCount_buyers)
  ultimately show ?thesis using assms
    by (auto simp: peers_inv_def Join_def Let_def)
qed

lemma sealed_seats_join:
  "pid \<notin> keys (a_peers a) \<Longrightarrow> sealed_seats (a_peers (fst (Join pid a))) = sealed_seats (a_peers a)"
  by (auto simp: Join_def Let_def gomap_update_fresh sealed_seats_def)

subsection \<open>Every operation keeps the invariant\<close>

lemma auction_inv_resetLocked [wf_intros]: "auction_inv a \<Longrightarrow> auction_inv (resetLocked a)"
  by (auto simp: auction_inv_def resetLocked_def epoch_inv_def intro: wf_intros)

lemma auction_inv_Join:
  assumes "auction_inv a" "pid \<notin> keys (a_peers a)"
  shows "auction_inv (fst (Join pid a))"
proof -
  have "bids_inv (a_peers (fst (Join pid a))) (a_bids a)"
    using assms by (simp add: auction_inv_def bids_inv_def sealed_seats_join)
  moreover have "keys (a_peers a) \<subseteq> keys (a_peers (fst (Join pid a)))"
    by (auto simp: Join_def Let_def gomap_simps)
  moreover have "epoch_inv (fst (Join pid a))"
    using assms(1) by (auto simp: auction_inv_def epoch_inv_def Join_def Let_def gomap_simps)
  ultimately show ?thesis using assms peers_inv_join [of a pid]
    by (simp add: auction_inv_def) (simp add: Join_def Let_def)
qed

lemma bids_inv_Leave:
  assumes "peers_inv ps ord" "bids_inv ps bids"
    and "\<And>q. map_of ps pid = Some q \<Longrightarrow> \<not> p_Sealed q"
  shows "bids_inv (AList.delete pid ps) bids"
  using assms sealed_seats_delete [of ps pid] by (auto simp: bids_inv_def peers_inv_def)

text \<open>\<open>Leave\<close> without the audit part: the peer is gone, and the round with it when it mattered.\<close>

definition leave_round :: "string \<Rightarrow> auction \<Rightarrow> auction" where
  "leave_round pid a =
     (let a1 = a\<lparr>a_peers := AList.delete pid (a_peers a), a_order := slices_remove pid (a_order a)\<rparr>
      in case map_of (a_peers a) pid of
           Some q \<Rightarrow> if p_Role q = RoleSeller \<or> p_Sealed q then resetLocked a1 else a1
         | None \<Rightarrow> a1)"

lemma leave_round_frame [frame_simps]:
  "a_epoch (leave_round pid a) = a_epoch a"
  "a_epochParty (leave_round pid a) = a_epochParty a"
  "a_chainPos (leave_round pid a) = a_chainPos a"
  "a_epochTotals (leave_round pid a) = a_epochTotals a"
  "a_epochPartials (leave_round pid a) = a_epochPartials a"
  "a_trades (leave_round pid a) = a_trades a"
  "a_Hour (leave_round pid a) = a_Hour a"
  "a_order (leave_round pid a) = slices_remove pid (a_order a)"
  "keys (a_peers (leave_round pid a)) = keys (a_peers a) - {pid}"
  by (auto simp: leave_round_def Let_def resetLocked_def gomap_simps split: option.splits)

lemma Leave_eq:
  "Leave pid a =
     (let b = leave_round pid a
      in if a_epoch a = EpochAudit \<and> pid \<in> set (a_epochParty a)
         then b\<lparr>a_epochAbort := ''a participant left mid-audit'', a_epoch := EpochReady,
                a_epochParty := [], a_epochTotals := [], a_epochPartials := [], a_chainPos := 0\<rparr>
         else b)"
  using leave_round_frame [of pid a] by (simp add: Leave_def leave_round_def Let_def)

lemma leave_round_inv:
  assumes "auction_inv a"
  shows "peers_inv (a_peers (leave_round pid a)) (a_order (leave_round pid a))"
    and "bids_inv (a_peers (leave_round pid a)) (a_bids (leave_round pid a))"
proof -
  have i: "peers_inv (a_peers a) (a_order a)" "bids_inv (a_peers a) (a_bids a)"
    using assms by (simp_all add: auction_inv_def)
  show "peers_inv (a_peers (leave_round pid a)) (a_order (leave_round pid a))"
    using i(1) by (auto simp: leave_round_def resetLocked_def Let_def intro: wf_intros split: option.split)
  show "bids_inv (a_peers (leave_round pid a)) (a_bids (leave_round pid a))"
    using bids_inv_Leave [OF i, of pid]
    by (auto simp: leave_round_def resetLocked_def Let_def intro: wf_intros split: option.split)
qed

lemma auction_inv_Leave:
  assumes "auction_inv a"
  shows "auction_inv (Leave pid a)"
proof -
  have "set (a_epochParty a) \<subseteq> keys (a_peers a) - {pid}"
    if "a_epoch a = EpochAudit" "pid \<notin> set (a_epochParty a)"
    using assms that by (auto simp: auction_inv_def epoch_inv_def)
  then show ?thesis using leave_round_inv [OF assms, of pid] assms
    by (auto simp: Leave_eq Let_def auction_inv_def epoch_inv_def frame_simps)
qed

lemma auction_inv_SubmitBid:
  assumes "auction_inv a"
  shows "auction_inv (fst (SubmitBid pid k ct a))"
proof (cases "map_of (a_peers a) pid")
  case None
  with assms show ?thesis by (simp add: SubmitBid_def)
next
  case (Some p)
  have p: "peers_inv (a_peers a) (a_order a)" and b: "bids_inv (a_peers a) (a_bids a)"
    using assms by (simp_all add: auction_inv_def)
  have "bids_inv (AList.update pid (p\<lparr>p_Sealed := True\<rparr>) (a_peers a)) (AList.update (p_Seat p) ct (a_bids a))"
    using p b Some by (simp add: bids_inv_def sealed_seats_seal peers_inv_def gomap_simps)
  with peers_inv_seal [OF p Some] assms Some show ?thesis
    by (auto simp: SubmitBid_def Let_def auction_inv_def epoch_inv_def gomap_simps)
qed

lemma auction_inv_Settle: "auction_inv a \<Longrightarrow> auction_inv (fst (Settle now ok a))"
  by (auto simp: auction_inv_def Settle_def Let_def resetLocked_def epoch_inv_def intro: wf_intros)

lemma auction_inv_SetHour: "auction_inv a \<Longrightarrow> auction_inv (SetHour h a)"
  by (auto simp: auction_inv_def SetHour_def resetLocked_def epoch_inv_def go_rem_normalise intro: wf_intros)

lemma auction_inv_PublishKeys: "auction_inv a \<Longrightarrow> auction_inv (PublishKeys pk ek a)"
  by (auto simp: auction_inv_def PublishKeys_def epoch_inv_def intro: wf_intros)

lemma auction_inv_StartEpochChain: "auction_inv a \<Longrightarrow> auction_inv (fst (StartEpochChain a))"
  by (auto simp: auction_inv_def StartEpochChain_def Let_def epoch_inv_def peers_inv_def)

lemma auction_inv_epoch_ops:
  assumes "auction_inv a"
  shows "auction_inv (fst (AdvanceEpochChain pk a))" "auction_inv (fst (SubmitEpochPartial pid ct a))"
    "auction_inv (fst (SubmitEpochTotal pid ct a))" "auction_inv (CloseEpoch net ok a)"
    "auction_inv (SetMasks ms a)" "auction_inv (Offer seat price a)"
  using assms
  by (auto simp: auction_inv_def AdvanceEpochChain_def SubmitEpochPartial_def SubmitEpochTotal_def
      CloseEpoch_def SetMasks_def Offer_def Let_def epoch_inv_def)

lemma auction_inv_NewEpoch: "auction_inv a \<Longrightarrow> auction_inv (NewEpoch a)"
  by (auto simp: auction_inv_def NewEpoch_def resetLocked_def epoch_inv_def EpochSize_def intro: wf_intros)

lemmas auction_inv_ops = auction_inv_Join auction_inv_Leave auction_inv_SubmitBid
  auction_inv_Settle auction_inv_SetHour auction_inv_PublishKeys auction_inv_StartEpochChain
  auction_inv_epoch_ops auction_inv_NewEpoch auction_inv_resetLocked

lemma auction_inv_step: "auction_inv a \<Longrightarrow> auction_step a b \<Longrightarrow> auction_inv b"
  by (erule auction_step.cases) (auto simp: Reset_def intro: auction_inv_ops)

lemma auction_inv_NewAuction: "auction_inv NewAuction"
  by (simp add: auction_inv_def NewAuction_def peers_inv_def bids_inv_def epoch_inv_def
      sellers_def buyers_def MaxBuyers_def EpochSize_def)

interpretation auction_sys: invariant_system auction_step NewAuction auction_inv
  by unfold_locales (auto intro: auction_inv_NewAuction auction_inv_step)

section \<open>Counting sealed seats\<close>

definition buyer_entries :: "(string, peer) gomap \<Rightarrow> (string \<times> peer) set" where
  "buyer_entries ps = {(k, p) \<in> set ps. p_Role p = RoleBuyer}"

text \<open>No two buyers share a seat.\<close>

definition seats_distinct :: "auction \<Rightarrow> bool" where
  "seats_distinct a \<longleftrightarrow> inj_on (\<lambda>(k, p). p_Seat p) (buyer_entries (a_peers a))"

definition all_sealed :: "auction \<Rightarrow> bool" where
  "all_sealed a \<longleftrightarrow> (\<forall>(k, p) \<in> buyer_entries (a_peers a). p_Sealed p)"

lemma finite_buyer_entries [simp]: "finite (buyer_entries ps)"
  by (rule finite_subset [of _ "set ps"]) (auto simp: buyer_entries_def)

lemma card_buyer_entries: "gomap_wf ps \<Longrightarrow> card (buyer_entries ps) = length (buyers ps)"
proof -
  assume "gomap_wf ps"
  then have d: "distinct ps" by (simp add: distinct_map)
  have "buyer_entries ps = set (filter (\<lambda>(k, p). p_Role p = RoleBuyer) ps)"
    by (auto simp: buyer_entries_def)
  then have "card (buyer_entries ps) = length (filter (\<lambda>(k, p). p_Role p = RoleBuyer) ps)"
    using distinct_card [OF distinct_filter [OF d]] by metis
  also have "\<dots> = length (buyers ps)"
    by (induction ps) (auto simp: buyers_def)
  finally show ?thesis .
qed

lemma sealed_seats_image:
  assumes "peers_inv ps ord"
  shows "sealed_seats ps = (\<lambda>(k, p). p_Seat p) ` {(k, p) \<in> buyer_entries ps. p_Sealed p}"
  using assms by (force simp: sealed_seats_def buyer_entries_def peers_inv_def peer_wf_def image_iff
      split: if_splits)

text \<open>As many bids as buyers means that every buyer has sealed, each on a seat of its own.\<close>

lemma bids_complete_iff:
  assumes "peers_inv (a_peers a) (a_order a)" "bids_inv (a_peers a) (a_bids a)"
  shows "buyerCount a \<le> int (length (a_bids a)) \<longleftrightarrow> all_sealed a \<and> seats_distinct a"
proof -
  let ?B = "buyer_entries (a_peers a)" and ?seat = "\<lambda>(k::string, p). p_Seat p"
  let ?S = "{(k, p) \<in> ?B. p_Sealed p}"
  have len: "length (a_bids a) = card (?seat ` ?S)"
    using assms gomap_len [of "a_bids a"] sealed_seats_image [OF assms(1)] by (simp add: bids_inv_def)
  have bc: "buyerCount a = int (card ?B)"
    using assms(1) by (simp add: buyerCount_buyers card_buyer_entries peers_inv_def)
  have fin: "finite ?S" by (rule finite_subset [of _ ?B]) auto
  have le: "card (?seat ` ?S) \<le> card ?S" "card ?S \<le> card ?B"
    using fin by (auto intro: card_image_le card_mono)
  have "card ?B \<le> card (?seat ` ?S) \<longleftrightarrow> ?S = ?B \<and> inj_on ?seat ?B"
  proof
    assume "card ?B \<le> card (?seat ` ?S)"
    with le have "card ?S = card ?B" "card (?seat ` ?S) = card ?S" by linarith+
    moreover from this(1) have "?S = ?B" by (intro card_subset_eq) auto
    ultimately show "?S = ?B \<and> inj_on ?seat ?B" using fin eq_card_imp_inj_on by metis
  next
    assume "?S = ?B \<and> inj_on ?seat ?B"
    then show "card ?B \<le> card (?seat ` ?S)" by (metis card_image order_refl)
  qed
  moreover have "?S = ?B \<longleftrightarrow> all_sealed a" by (auto simp: all_sealed_def)
  ultimately show ?thesis by (simp add: len bc seats_distinct_def)
qed

lemma SubmitBid_accepted:
  assumes "map_of (a_peers a) pid = Some p" "p_Role p = RoleBuyer" "a_phase a = PhaseBidding"
    and "k = a_keyID a"
  shows "SubmitBid pid k ct a =
    (let a1 = a\<lparr>a_bids := AList.update (p_Seat p) ct (a_bids a),
                a_peers := AList.update pid (p\<lparr>p_Sealed := True\<rparr>) (a_peers a)\<rparr>
     in if int (length (a_bids a1)) < buyerCount a1 \<or> buyerCount a1 = 0 then (a1, BidStored)
        else (a1\<lparr>a_phase := PhaseEvaluating\<rparr>, BidComplete))"
  using assms by (simp add: SubmitBid_def)

lemma SubmitBid_rejected:
  assumes "\<not> (\<exists>p. map_of (a_peers a) pid = Some p \<and> p_Role p = RoleBuyer
                \<and> a_phase a = PhaseBidding \<and> k = a_keyID a)"
  shows "SubmitBid pid k ct a = (a, BidRejected)"
  using assms by (auto simp: SubmitBid_def split: option.splits)

lemma buyerCount_seal:
  assumes "gomap_wf (a_peers a)" "map_of (a_peers a) pid = Some p"
  shows "buyerCount (a\<lparr>a_bids := b, a_peers := AList.update pid (p\<lparr>p_Sealed := s\<rparr>) (a_peers a)\<rparr>) = buyerCount a"
  using length_roles_update(2) [OF assms, of "p\<lparr>p_Sealed := s\<rparr>"] by (simp add: buyerCount_buyers)

lemma buyerCount_pos:
  assumes "gomap_wf (a_peers a)" "map_of (a_peers a) pid = Some p" "p_Role p = RoleBuyer"
  shows "0 < buyerCount a"
proof -
  have "p \<in> set (buyers (a_peers a))"
    using assms by (force simp: buyers_def map_of_eq_Some image_iff)
  then show ?thesis by (auto simp: buyerCount_buyers)
qed

end
