(* ===== verification/Auction_Rounds.thy ===== *)
theory Auction_Rounds
  imports Auction
begin

text \<open>
  What the rounds and the epoch audit of \<^verbatim>\<open>examples/energy_auction/auction.go\<close> promise: which bids
  are taken and when a round is complete, that a round whose buyers all bid completes, that bids
  under replaced keys are refused, that the audit's collections are complete exactly when every
  member has contributed, and what membership changes do to a running round or audit.
\<close>

section \<open>Bids\<close>

lemma SubmitBid_effect:
  assumes "auction_inv a" and "SubmitBid pid k ct a = (b, r)"
  shows "if \<exists>p. map_of (a_peers a) pid = Some p \<and> p_Role p = RoleBuyer
              \<and> a_phase a = PhaseBidding \<and> k = a_keyID a
         then (\<exists>p. map_of (a_peers a) pid = Some p
                 \<and> map_of (a_bids b) = (map_of (a_bids a))(p_Seat p \<mapsto> ct)
                 \<and> map_of (a_peers b) = (map_of (a_peers a))(pid \<mapsto> p\<lparr>p_Sealed := True\<rparr>))
            \<and> r \<noteq> BidRejected
            \<and> (r = BidComplete \<longleftrightarrow> all_sealed b \<and> seats_distinct b)
            \<and> a_phase b = (if r = BidComplete then PhaseEvaluating else PhaseBidding)
         else r = BidRejected \<and> b = a"
proof (cases "\<exists>p. map_of (a_peers a) pid = Some p \<and> p_Role p = RoleBuyer
    \<and> a_phase a = PhaseBidding \<and> k = a_keyID a")
  case False
  then have "SubmitBid pid k ct a = (a, BidRejected)" by (rule SubmitBid_rejected)
  then show ?thesis using False assms(2) by auto
next
  case True
  then obtain p where p: "map_of (a_peers a) pid = Some p" "p_Role p = RoleBuyer"
      "a_phase a = PhaseBidding" "k = a_keyID a" by blast
  let ?a1 = "a\<lparr>a_bids := AList.update (p_Seat p) ct (a_bids a),
               a_peers := AList.update pid (p\<lparr>p_Sealed := True\<rparr>) (a_peers a)\<rparr>"
  note inv = assms(1)
  have wf: "gomap_wf (a_peers a)" using inv by (simp add: auction_inv_def peers_inv_def)
  have inv1: "auction_inv b" using auction_inv_SubmitBid [OF inv, of pid k ct] assms(2) by simp
  have pos: "0 < buyerCount ?a1"
    using buyerCount_pos [OF wf p(1,2)] buyerCount_seal [OF wf p(1)] by simp
  have eq: "(b, r) = (if int (length (a_bids ?a1)) < buyerCount ?a1 then (?a1, BidStored)
      else (?a1\<lparr>a_phase := PhaseEvaluating\<rparr>, BidComplete))"
    using assms(2) SubmitBid_accepted [OF p, of ct] pos by (simp add: Let_def)
  have same: "a_bids b = a_bids ?a1" "a_peers b = a_peers ?a1" "buyerCount b = buyerCount ?a1"
    using eq by (auto simp: buyerCount_def split: if_splits)
  have "r = BidComplete \<longleftrightarrow> buyerCount b \<le> int (length (a_bids b))"
    using eq same by (auto split: if_splits)
  also have "\<dots> \<longleftrightarrow> all_sealed b \<and> seats_distinct b"
    using inv1 by (intro bids_complete_iff) (simp_all add: auction_inv_def)
  finally have "r = BidComplete \<longleftrightarrow> all_sealed b \<and> seats_distinct b" .
  moreover have "r \<noteq> BidRejected \<and> a_phase b = (if r = BidComplete then PhaseEvaluating else PhaseBidding)"
    using eq p(3) by (auto split: if_splits)
  ultimately show ?thesis using True p(1) same by (simp add: gomap_simps)
qed

lemma buyer_in_map:
  "gomap_wf ps \<Longrightarrow> (k, p) \<in> buyer_entries ps \<longleftrightarrow> map_of ps k = Some p \<and> p_Role p = RoleBuyer"
  by (auto simp: buyer_entries_def)

definition buyer_seat :: "(string, peer) gomap \<Rightarrow> string \<Rightarrow> int option" where
  "buyer_seat ps k = (case map_of ps k of
     Some p \<Rightarrow> if p_Role p = RoleBuyer then Some (p_Seat p) else None | None \<Rightarrow> None)"

lemma buyer_seat_Some:
  "buyer_seat ps k = Some s \<longleftrightarrow> (\<exists>p. map_of ps k = Some p \<and> p_Role p = RoleBuyer \<and> p_Seat p = s)"
  by (auto simp: buyer_seat_def split: option.splits)

lemma seats_distinct_map:
  assumes "gomap_wf (a_peers a)"
  shows "seats_distinct a \<longleftrightarrow> (\<forall>k k' s. buyer_seat (a_peers a) k = Some s
    \<longrightarrow> buyer_seat (a_peers a) k' = Some s \<longrightarrow> k = k')"
proof
  assume d: "seats_distinct a"
  show "\<forall>k k' s. buyer_seat (a_peers a) k = Some s \<longrightarrow> buyer_seat (a_peers a) k' = Some s \<longrightarrow> k = k'"
  proof (intro allI impI)
    fix k k' s
    assume "buyer_seat (a_peers a) k = Some s" "buyer_seat (a_peers a) k' = Some s"
    then obtain p p' where "(k, p) \<in> buyer_entries (a_peers a)" "(k', p') \<in> buyer_entries (a_peers a)"
      "p_Seat p = p_Seat p'"
      using assms by (auto simp: buyer_in_map buyer_seat_Some)
    then show "k = k'" using inj_onD [OF d [unfolded seats_distinct_def], of "(k, p)" "(k', p')"] by simp
  qed
next
  assume r: "\<forall>k k' s. buyer_seat (a_peers a) k = Some s \<longrightarrow> buyer_seat (a_peers a) k' = Some s \<longrightarrow> k = k'"
  show "seats_distinct a" unfolding seats_distinct_def
  proof (rule inj_onI)
    fix x y
    assume xy: "x \<in> buyer_entries (a_peers a)" "y \<in> buyer_entries (a_peers a)"
      and eq: "(case x of (k, p) \<Rightarrow> p_Seat p) = (case y of (k, p) \<Rightarrow> p_Seat p)"
    obtain k p k' p' where d: "x = (k, p)" "y = (k', p')" by (metis surj_pair)
    from xy eq assms have m: "map_of (a_peers a) k = Some p" "map_of (a_peers a) k' = Some p'"
      and "buyer_seat (a_peers a) k = Some (p_Seat p)" "buyer_seat (a_peers a) k' = Some (p_Seat p)"
      unfolding d by (auto simp: buyer_in_map buyer_seat_Some simp del: map_of_eq_Some_iff)
    then have "k = k'" using r by blast
    with m show "x = y" by (simp add: d)
  qed
qed

lemma buyer_seat_seal:
  "map_of ps pid = Some p \<Longrightarrow>
   map_of ps' = (map_of ps)(pid \<mapsto> p\<lparr>p_Sealed := b\<rparr>) \<Longrightarrow> buyer_seat ps' = buyer_seat ps"
  by (rule ext) (simp add: buyer_seat_def)

lemma all_sealed_map:
  assumes "gomap_wf (a_peers a)"
  shows "all_sealed a \<longleftrightarrow> (\<forall>k p. map_of (a_peers a) k = Some p \<and> p_Role p = RoleBuyer \<longrightarrow> p_Sealed p)"
  using assms by (auto simp: all_sealed_def buyer_in_map)

definition waiting_ids :: "auction \<Rightarrow> string set" where
  "waiting_ids a = {k. \<exists>p. map_of (a_peers a) k = Some p \<and> p_Role p = RoleBuyer \<and> \<not> p_Sealed p}"

lemma all_sealed_waiting: "gomap_wf (a_peers a) \<Longrightarrow> all_sealed a \<longleftrightarrow> waiting_ids a = {}"
  by (auto simp: all_sealed_map waiting_ids_def)

fun submit_all :: "(string \<Rightarrow> bytes) \<Rightarrow> string list \<Rightarrow> auction \<Rightarrow> auction" where
  "submit_all ct [] a = a"
| "submit_all ct (i # is) a = submit_all ct is (fst (SubmitBid i (a_keyID a) (ct i) a))"

lemma SubmitBid_frame:
  assumes "gomap_wf (a_peers a)"
  shows "a_keyID (fst (SubmitBid pid k ct a)) = a_keyID a"
    "a_epoch (fst (SubmitBid pid k ct a)) = a_epoch a"
    "seats_distinct (fst (SubmitBid pid k ct a)) = seats_distinct a"
    "gomap_wf (a_peers (fst (SubmitBid pid k ct a)))"
proof -
  show "a_keyID (fst (SubmitBid pid k ct a)) = a_keyID a"
    "a_epoch (fst (SubmitBid pid k ct a)) = a_epoch a"
    by (auto simp: SubmitBid_def Let_def split: option.splits)
  show wf: "gomap_wf (a_peers (fst (SubmitBid pid k ct a)))"
    using assms by (auto simp: SubmitBid_def Let_def split: option.splits)
  show "seats_distinct (fst (SubmitBid pid k ct a)) = seats_distinct a"
  proof (cases "snd (SubmitBid pid k ct a) = BidRejected")
    case True
    then have "fst (SubmitBid pid k ct a) = a"
      by (auto simp: SubmitBid_def Let_def split: option.splits if_splits)
    then show ?thesis by simp
  next
    case False
    then obtain p where p: "map_of (a_peers a) pid = Some p" "p_Role p = RoleBuyer"
      and e: "map_of (a_peers (fst (SubmitBid pid k ct a))) = (map_of (a_peers a))(pid \<mapsto> p\<lparr>p_Sealed := True\<rparr>)"
      by (auto simp: SubmitBid_def Let_def gomap_simps split: option.splits if_splits)
    show ?thesis unfolding seats_distinct_map [OF assms] seats_distinct_map [OF wf]
      buyer_seat_seal [OF p(1) e] by (rule refl)
  qed
qed

lemma submit_step:
  assumes "auction_inv a" "a_phase a = PhaseBidding" "seats_distinct a" "i \<in> waiting_ids a"
    and "b = fst (SubmitBid i (a_keyID a) ct a)"
  shows "auction_inv b" "seats_distinct b" "waiting_ids b = waiting_ids a - {i}"
    "buyer_seat (a_peers b) = buyer_seat (a_peers a)"
    "a_phase b = (if waiting_ids b = {} then PhaseEvaluating else PhaseBidding)"
    "\<exists>s. buyer_seat (a_peers a) i = Some s \<and> map_of (a_bids b) = (map_of (a_bids a))(s \<mapsto> ct)"
proof -
  obtain r where br: "SubmitBid i (a_keyID a) ct a = (b, r)" using assms(5) by (cases "SubmitBid i (a_keyID a) ct a") simp
  from assms(4) obtain p where p: "map_of (a_peers a) i = Some p" "p_Role p = RoleBuyer"
    by (auto simp: waiting_ids_def)
  have wf: "gomap_wf (a_peers a)" using assms(1) by (simp add: auction_inv_def peers_inv_def)
  show inv: "auction_inv b" using auction_inv_SubmitBid [OF assms(1), of i "a_keyID a" ct] br by simp
  show sd: "seats_distinct b" using SubmitBid_frame(3) [OF wf, of i "a_keyID a" ct] br assms(3) by simp
  have e: "map_of (a_peers b) = (map_of (a_peers a))(i \<mapsto> p\<lparr>p_Sealed := True\<rparr>)"
    "map_of (a_bids b) = (map_of (a_bids a))(p_Seat p \<mapsto> ct)"
    "r = BidComplete \<longleftrightarrow> all_sealed b \<and> seats_distinct b"
    "a_phase b = (if r = BidComplete then PhaseEvaluating else PhaseBidding)"
    using SubmitBid_effect [OF assms(1) br] p assms(2) by auto
  show "waiting_ids b = waiting_ids a - {i}" using p by (auto simp: waiting_ids_def e(1))
  show "buyer_seat (a_peers b) = buyer_seat (a_peers a)" using p(1) e(1) by (rule buyer_seat_seal)
  have "gomap_wf (a_peers b)" using inv by (simp add: auction_inv_def peers_inv_def)
  then show "a_phase b = (if waiting_ids b = {} then PhaseEvaluating else PhaseBidding)"
    using e sd all_sealed_waiting by simp
  show "\<exists>s. buyer_seat (a_peers a) i = Some s \<and> map_of (a_bids b) = (map_of (a_bids a))(s \<mapsto> ct)"
    using p e(2) by (auto simp: buyer_seat_Some)
qed

text \<open>Submitting for every buyer that has not sealed yet, in any order, completes the round, and
  the bid map then holds what each of them sent under its seat.\<close>

lemma submit_all_completes:
  "auction_inv a \<Longrightarrow> a_phase a = PhaseBidding \<Longrightarrow> seats_distinct a \<Longrightarrow> distinct ids \<Longrightarrow>
   set ids = waiting_ids a \<Longrightarrow> ids \<noteq> [] \<Longrightarrow>
   a_phase (submit_all ct ids a) = PhaseEvaluating \<and> gomap_wf (a_bids (submit_all ct ids a))
   \<and> (\<forall>i s. i \<in> set ids \<and> buyer_seat (a_peers a) i = Some s \<longrightarrow> map_of (a_bids (submit_all ct ids a)) s = Some (ct i))
   \<and> (\<forall>s. (\<forall>i\<in>set ids. buyer_seat (a_peers a) i \<noteq> Some s) \<longrightarrow> map_of (a_bids (submit_all ct ids a)) s = map_of (a_bids a) s)"
proof (induction ids arbitrary: a)
  case (Cons i rest)
  define b where "b = fst (SubmitBid i (a_keyID a) (ct i) a)"
  have "i \<in> waiting_ids a" using Cons.prems(5) by auto
  note st = submit_step [OF Cons.prems(1-3) this b_def]
  obtain s where s: "buyer_seat (a_peers a) i = Some s" "map_of (a_bids b) = (map_of (a_bids a))(s \<mapsto> ct i)"
    using st(6) by blast
  have w: "set rest = waiting_ids b" using Cons.prems(4,5) st(3) by auto
  have wf: "gomap_wf (a_peers a)" using Cons.prems(1) by (simp add: auction_inv_def peers_inv_def)
  have other: "buyer_seat (a_peers a) j = Some s \<Longrightarrow> j = i" for j
    using Cons.prems(3) s(1) unfolding seats_distinct_map [OF wf] by blast
  show ?case
  proof (cases "rest = []")
    case True
    then have "a_phase b = PhaseEvaluating" using st(5) w by simp
    moreover have "gomap_wf (a_bids b)" using st(1) by (simp add: auction_inv_def bids_inv_def)
    ultimately show ?thesis using True s by (auto simp flip: b_def)
  next
    case False
    then have "a_phase b = PhaseBidding" using st(5) w by auto
    note IH = Cons.IH [OF st(1) this st(2) _ w False]
    let ?m = "map_of (a_bids (submit_all ct rest b))"
    have d: "i \<notin> set rest" "distinct rest" using Cons.prems(4) by auto
    have ph: "a_phase (submit_all ct rest b) = PhaseEvaluating" "gomap_wf (a_bids (submit_all ct rest b))"
      and in_rest: "\<And>j t. j \<in> set rest \<Longrightarrow> buyer_seat (a_peers a) j = Some t \<Longrightarrow> ?m t = Some (ct j)"
      and out: "\<And>t. (\<And>j. j \<in> set rest \<Longrightarrow> buyer_seat (a_peers a) j \<noteq> Some t) \<Longrightarrow> ?m t = map_of (a_bids b) t"
      using IH [OF d(2)] unfolding st(4) by blast+
    have "?m s = Some (ct i)" using out [of s] other d(1) s(2) by force
    then have "?m t = Some (ct j)" if "j \<in> set (i # rest)" "buyer_seat (a_peers a) j = Some t" for j t
      using that in_rest s(1) by auto
    moreover have "?m t = map_of (a_bids a) t" if "\<forall>j\<in>set (i # rest). buyer_seat (a_peers a) j \<noteq> Some t" for t
      using that out [of t] s by force
    ultimately show ?thesis using ph unfolding submit_all.simps b_def [symmetric] by blast
  qed
qed simp

lemma collect_bids_filter:
  "collect_bids bids l = (map (\<lambda>s. the (map_of bids s)) (filter (\<lambda>s. map_of bids s \<noteq> None) l),
     filter (\<lambda>s. map_of bids s \<noteq> None) l)"
  by (induction l) (auto simp: Let_def split: option.split)

lemma map_of_unseal: "map_of (unseal ps) = map_option (\<lambda>p. p\<lparr>p_Sealed := False\<rparr>) \<circ> map_of ps"
  by (induction ps) (auto simp: unseal_def fun_eq_iff)

lemma sorted_upto_strict: "sorted_wrt (<) [i..j]"
  by (induction i j rule: upto.induct) (subst upto.simps, auto)

lemma buyer_seat_bounds:
  "auction_inv a \<Longrightarrow> buyer_seat (a_peers a) i = Some s \<Longrightarrow> 0 \<le> s \<and> s \<le> MaxBuyers - 1"
  by (auto simp: buyer_seat_Some auction_inv_def peers_inv_def peer_wf_def dest!: map_of_SomeD)

section \<open>Keys\<close>

text \<open>No call lowers the key generation, and publishing raises it: this is what makes the key
  identifier a client sends with its bid a freshness check.\<close>

lemma keyID_step: "auction_step a b \<Longrightarrow> a_keyID a \<le> a_keyID b"
  by (erule auction_step.cases)
    (auto simp: Join_def Leave_def resetLocked_def Reset_def SetHour_def PublishKeys_def SubmitBid_def
      SetMasks_def Offer_def Settle_def StartEpochChain_def AdvanceEpochChain_def
      SubmitEpochPartial_def SubmitEpochTotal_def CloseEpoch_def NewEpoch_def Let_def
      split: option.splits)

interpretation key_sys: monotone_system auction_step a_keyID
  by unfold_locales (rule keyID_step)

section \<open>Seats without departures\<close>

text \<open>As long as nobody leaves, buyers sit on seats 0, 1, 2, ... in the order they joined.\<close>

definition seats_in_order :: "auction \<Rightarrow> bool" where
  "seats_in_order a \<longleftrightarrow> auction_inv a \<and>
     map p_Seat (buyers (a_peers a)) = map int [0..<length (buyers (a_peers a))]"

inductive staying_step :: "auction \<Rightarrow> auction \<Rightarrow> bool" where
  "auction_step a b \<Longrightarrow> keys (a_peers a) \<subseteq> keys (a_peers b) \<Longrightarrow> staying_step a b"

lemma seats_unseal [simp]: "map p_Seat (buyers (unseal ps)) = map p_Seat (buyers ps)"
  by (induction ps) (auto simp: unseal_def buyers_def)

lemma seats_seal [simp]:
  "map_of ps pid = Some p \<Longrightarrow>
   map p_Seat (buyers (AList.update pid (p\<lparr>p_Sealed := s\<rparr>) ps)) = map p_Seat (buyers ps)"
  by (induction ps) (auto simp: buyers_def split: if_splits)

lemma seats_length: "map p_Seat xs = map p_Seat ys \<Longrightarrow> length xs = length ys"
  by (metis length_map)

lemma buyer_seats_step:
  assumes "staying_step a b"
  shows "map p_Seat (buyers (a_peers b)) = map p_Seat (buyers (a_peers a))
    \<or> map p_Seat (buyers (a_peers b)) = map p_Seat (buyers (a_peers a)) @ [int (length (buyers (a_peers a)))]"
  using assms
proof (cases rule: staying_step.cases)
  case 1
  from 1(1) show ?thesis
  proof cases
    case (st_Join pid)
    then show ?thesis by (auto simp: Join_def Let_def gomap_update_fresh buyers_snoc buyerCount_buyers)
  next
    case (st_Leave pid)
    have "keys (a_peers b) = keys (a_peers a) - {pid}"
      unfolding st_Leave by (simp add: Leave_eq Let_def frame_simps)
    then have "pid \<notin> keys (a_peers a)" using 1(2) by blast
    then have "map_of (a_peers a) pid = None" "AList.delete pid (a_peers a) = a_peers a"
      by (auto simp: map_of_eq_None_iff intro: delete_idem)
    then show ?thesis unfolding st_Leave by (simp add: Leave_def Let_def)
  next
    case (st_SubmitBid pid k ct)
    then show ?thesis by (auto simp: SubmitBid_def Let_def split: option.splits)
  qed (auto simp: resetLocked_def Reset_def SetHour_def PublishKeys_def SetMasks_def Offer_def
      Settle_def StartEpochChain_def AdvanceEpochChain_def SubmitEpochPartial_def
      SubmitEpochTotal_def CloseEpoch_def NewEpoch_def Let_def)
qed

lemma seats_in_order_step:
  assumes "seats_in_order a" "staying_step a b"
  shows "seats_in_order b"
proof -
  have "auction_inv b" using assms by (auto simp: seats_in_order_def elim: staying_step.cases intro: auction_inv_step)
  moreover have "map p_Seat (buyers (a_peers b)) = map int [0..<length (buyers (a_peers b))]"
    using buyer_seats_step [OF assms(2)]
  proof
    assume e: "map p_Seat (buyers (a_peers b)) = map p_Seat (buyers (a_peers a))"
    then show ?thesis using assms(1) seats_length [OF e] by (simp add: seats_in_order_def)
  next
    assume e: "map p_Seat (buyers (a_peers b)) = map p_Seat (buyers (a_peers a)) @ [int (length (buyers (a_peers a)))]"
    then have "length (buyers (a_peers b)) = Suc (length (buyers (a_peers a)))"
      by (metis length_append_singleton length_map)
    with e assms(1) show ?thesis by (simp add: seats_in_order_def)
  qed
  ultimately show ?thesis by (simp add: seats_in_order_def)
qed

interpretation staying_sys: invariant_system staying_step NewAuction seats_in_order
proof unfold_locales
  show "seats_in_order NewAuction"
    using auction_inv_NewAuction by (simp add: seats_in_order_def buyers_def NewAuction_def)
qed (rule seats_in_order_step)

lemma distinct_map_inj: "distinct (map f xs) \<Longrightarrow> inj_on f (set xs)"
  by (simp add: distinct_map)

lemma seats_in_order_distinct:
  assumes "seats_in_order a"
  shows "seats_distinct a"
proof -
  have "distinct (map p_Seat (buyers (a_peers a)))"
    using assms by (simp add: seats_in_order_def distinct_map)
  also have "map p_Seat (buyers (a_peers a))
      = map (\<lambda>(k, p). p_Seat p) (filter (\<lambda>(k, p). p_Role p = RoleBuyer) (a_peers a))"
    by (induction "a_peers a") (auto simp: buyers_def filter_map comp_def case_prod_beta)
  finally have "inj_on (\<lambda>(k, p). p_Seat p) (set (filter (\<lambda>(k, p). p_Role p = RoleBuyer) (a_peers a)))"
    by (rule distinct_map_inj)
  moreover have "set (filter (\<lambda>(k, p). p_Role p = RoleBuyer) (a_peers a)) = buyer_entries (a_peers a)"
    by (auto simp: buyer_entries_def)
  ultimately show ?thesis by (simp add: seats_distinct_def)
qed

section \<open>The audit\<close>

fun advance_all :: "bytes list \<Rightarrow> auction \<Rightarrow> auction \<times> (string \<times> bool) option list" where
  "advance_all [] a = (a, [])"
| "advance_all (pk # pks) a =
     (let (a1, r) = AdvanceEpochChain pk a; (a2, rs) = advance_all pks a1 in (a2, r # rs))"

lemma advance_all_visits:
  "pks \<noteq> [] \<Longrightarrow> 0 \<le> a_chainPos a \<Longrightarrow> a_chainPos a + int (length pks) = int (length (a_epochParty a)) \<Longrightarrow>
   advance_all pks a = (b, rs) \<Longrightarrow>
   rs = map (\<lambda>p. Some (p, False)) (drop (nat (a_chainPos a) + 1) (a_epochParty a)) @ [Some ([], True)]
   \<and> a_epochKey b = last pks \<and> a_epochParty b = a_epochParty a \<and> a_epoch b = a_epoch a
   \<and> a_epochTotals b = a_epochTotals a \<and> a_epochPartials b = a_epochPartials a \<and> a_peers b = a_peers a"
proof (induction pks arbitrary: a rs)
  case (Cons pk pks)
  let ?a1 = "a\<lparr>a_epochKey := pk, a_chainPos := a_chainPos a + 1\<rparr>"
  let ?c = "nat (a_chainPos a) + 1"
  show ?case
  proof (cases "pks = []")
    case True
    then show ?thesis using Cons.prems by (auto simp: AdvanceEpochChain_def Let_def)
  next
    case False
    obtain rs' where rs': "advance_all pks ?a1 = (b, rs')" "rs = snd (AdvanceEpochChain pk a) # rs'"
      using Cons.prems(4) by (auto simp: AdvanceEpochChain_def Let_def split: prod.splits)
    have lt: "?c < length (a_epochParty a)" using Cons.prems(2,3) False by (cases pks) auto
    then have "snd (AdvanceEpochChain pk a) = Some (a_epochParty a ! ?c, False)"
      using Cons.prems(2,3) False
      by (auto simp: AdvanceEpochChain_def Let_def nth_opt_def nat_add_distrib split: option.splits)
    moreover have "drop ?c (a_epochParty a) = a_epochParty a ! ?c # drop (?c + 1) (a_epochParty a)"
      using lt by (simp add: Cons_nth_drop_Suc)
    moreover have "nat (a_chainPos ?a1) = ?c" using Cons.prems(2) by simp
    ultimately show ?thesis using Cons.IH [of ?a1 rs'] False Cons.prems(2,3) rs' by simp
  qed
qed simp

text \<open>Collecting one contribution from every member of a fixed party. Totals and decryption shares
  are gathered the same way, so the argument is made once.\<close>

fun submit_each :: "('i \<Rightarrow> 'c \<Rightarrow> 's \<Rightarrow> 's \<times> bool) \<Rightarrow> ('i \<times> 'c) list \<Rightarrow> 's \<Rightarrow> 's \<times> bool list" where
  "submit_each submit [] s = (s, [])"
| "submit_each submit ((i, c) # cs) s =
     (let (s1, r) = submit i c s; (s2, rs) = submit_each submit cs s1 in (s2, r # rs))"

locale collection =
  fixes submit :: "'i \<Rightarrow> 'c \<Rightarrow> 's \<Rightarrow> 's \<times> bool"
    and contributions :: "'s \<Rightarrow> ('i, 'c) gomap"
    and party :: "'s \<Rightarrow> 'i list"
    and open_for :: "'s \<Rightarrow> bool"
    and gathered :: "'s \<Rightarrow> 'c list"
  assumes submit_open: "open_for s \<Longrightarrow> open_for (fst (submit i c s))"
    and submit_party: "open_for s \<Longrightarrow> party (fst (submit i c s)) = party s"
    and submit_stores: "open_for s \<Longrightarrow> contributions (fst (submit i c s)) = AList.update i c (contributions s)"
    and submit_complete: "open_for s \<Longrightarrow>
      snd (submit i c s) \<longleftrightarrow> party s \<noteq> [] \<and> set (party s) \<subseteq> keys (contributions (fst (submit i c s)))"
    and gathered_in_order: "gathered s = List.map_filter (map_of (contributions s)) (party s)"
begin

lemma submit_each_stores:
  "open_for s \<Longrightarrow> distinct (map fst cs) \<Longrightarrow> submit_each submit cs s = (t, rs) \<Longrightarrow>
   open_for t \<and> party t = party s
   \<and> map_of (contributions t) = map_of (contributions s) ++ map_of cs"
proof (induction cs arbitrary: s rs)
  case (Cons x cs)
  obtain i c where x: "x = (i, c)" by (cases x)
  obtain rs' where "submit_each submit cs (fst (submit i c s)) = (t, rs')"
    using Cons.prems(3) by (auto simp: x Let_def split: prod.splits)
  from Cons.IH [OF submit_open [OF Cons.prems(1)] _ this] Cons.prems
  have "open_for t" "party t = party s"
    and m: "map_of (contributions t) = (map_of (contributions s))(i \<mapsto> c) ++ map_of cs"
    by (simp_all add: submit_party submit_stores x gomap_simps fun_upd_def)
  moreover have "i \<notin> dom (map_of cs)" using Cons.prems(2) by (simp add: x dom_map_of_conv_image_fst)
  then have "(map_of (contributions s))(i \<mapsto> c) ++ map_of cs = (map_of (contributions s) ++ map_of cs)(i \<mapsto> c)"
    by (rule map_add_upd_left)
  ultimately show ?case by (auto simp: x map_add_def fun_eq_iff)
qed simp

lemma submit_each_flags:
  "open_for s \<Longrightarrow> distinct (map fst cs) \<Longrightarrow> cs \<noteq> [] \<Longrightarrow> set (map fst cs) \<subseteq> set (party s) \<Longrightarrow>
   set (map fst cs) \<inter> keys (contributions s) = {} \<Longrightarrow>
   set (party s) \<subseteq> set (map fst cs) \<union> keys (contributions s) \<Longrightarrow>
   snd (submit_each submit cs s) = replicate (length cs - 1) False @ [True]"
proof (induction cs arbitrary: s)
  case (Cons x cs)
  obtain i c where x: "x = (i, c)" by (cases x)
  have st: "open_for (fst (submit i c s))" "party (fst (submit i c s)) = party s"
    "keys (contributions (fst (submit i c s))) = insert i (keys (contributions s))"
    using Cons.prems(1) by (simp_all add: submit_open submit_party submit_stores gomap_simps)
  have i: "i \<in> set (party s)" using Cons.prems(4) by (simp add: x)
  have snd: "snd (submit_each submit (x # cs) s) = snd (submit i c s) # snd (submit_each submit cs (fst (submit i c s)))"
    by (simp add: x case_prod_beta Let_def)
  show ?case
  proof (cases "cs = []")
    case True
    then show ?thesis using Cons.prems st i unfolding snd by (auto simp: submit_complete x)
  next
    case False
    then obtain j where j: "j \<in> set (map fst cs)" by (cases cs) auto
    then have "j \<noteq> i" "j \<in> set (party s)" "j \<notin> keys (contributions s)"
      using Cons.prems(2,4,5) by (auto simp: x)
    then have "\<not> snd (submit i c s)" using Cons.prems(1) st(3) by (auto simp: submit_complete)
    moreover have "snd (submit_each submit cs (fst (submit i c s))) = replicate (length cs - 1) False @ [True]"
      using Cons.prems st False by (intro Cons.IH) (auto simp: x)
    ultimately show ?thesis using False unfolding snd by (cases cs) auto
  qed
qed simp

lemma gathered_all:
  assumes "set (party s) \<subseteq> dom m" "map_of (contributions s) = m"
  shows "gathered s = map (\<lambda>i. the (m i)) (party s)"
proof -
  have "List.map_filter m xs = map (\<lambda>i. the (m i)) xs" if "set xs \<subseteq> dom m" for xs
    using that by (induction xs) (auto simp: List.map_filter_simps split: option.splits)
  then show ?thesis using assms by (simp add: gathered_in_order)
qed

theorem collect_round:
  assumes "open_for s" "contributions s = []" "party s \<noteq> []"
    and "distinct (map fst cs)" "set (map fst cs) = set (party s)"
    and "submit_each submit cs s = (t, rs)"
  shows "rs = replicate (length cs - 1) False @ [True]"
    and "gathered t = map (\<lambda>i. the (map_of cs i)) (party s)" and "open_for t" and "party t = party s"
proof -
  have "cs \<noteq> []" using assms(3,5) by (cases cs) auto
  then have "snd (submit_each submit cs s) = replicate (length cs - 1) False @ [True]"
    using assms by (intro submit_each_flags) auto
  then show "rs = replicate (length cs - 1) False @ [True]" by (simp add: assms(6))
  have t: "open_for t" "party t = party s" "map_of (contributions t) = map_of cs"
    using submit_each_stores [OF assms(1,4,6)] assms(2) by simp_all
  have "set (party t) \<subseteq> dom (map_of cs)" using assms(5) t(2) by (simp add: dom_map_of_conv_image_fst)
  then show "gathered t = map (\<lambda>i. the (map_of cs i)) (party s)" using gathered_all [OF _ t(3)] t(2) by simp
  show "open_for t" "party t = party s" by fact+
qed

end

lemma haveAllLocked_iff:
  "haveAllLocked a m \<longleftrightarrow> a_epochParty a \<noteq> [] \<and> set (a_epochParty a) \<subseteq> keys m"
  by (auto simp: haveAllLocked_def list_all_iff map_of_eq_None_iff subset_iff image_iff)

interpretation totals: collection SubmitEpochTotal a_epochTotals a_epochParty
  "\<lambda>a. a_epoch a = EpochAudit" EpochCiphertexts
  by unfold_locales (auto simp: SubmitEpochTotal_def EpochCiphertexts_def Let_def haveAllLocked_iff)

lemma submit_totals_partials:
  "a_epochPartials (fst (submit_each SubmitEpochTotal cs a)) = a_epochPartials a"
proof (induction cs arbitrary: a)
  case (Cons x cs)
  then show ?case by (cases x) (simp add: case_prod_beta Let_def, simp add: SubmitEpochTotal_def Let_def)
qed simp

interpretation partials: collection SubmitEpochPartial a_epochPartials a_epochParty
  "\<lambda>a. True" EpochPartials
  by unfold_locales (auto simp: SubmitEpochPartial_def EpochPartials_def Let_def haveAllLocked_iff)

section \<open>Two buyers on one seat\<close>

lemma reachable_ops:
  "auction_reachable NewAuction"
  "auction_reachable a \<Longrightarrow> pid \<notin> keys (a_peers a) \<Longrightarrow> auction_reachable (fst (Join pid a))"
  "auction_reachable a \<Longrightarrow> auction_reachable (Leave pid a)"
  "auction_reachable a \<Longrightarrow> auction_reachable (PublishKeys pk ek a)"
  "auction_reachable a \<Longrightarrow> auction_reachable (fst (SubmitBid pid k ct a))"
  "auction_reachable a \<Longrightarrow> auction_reachable (Offer seat price a)"
  "auction_reachable a \<Longrightarrow> auction_reachable (fst (StartEpochChain a))"
  by (blast intro: reach.intros auction_step.intros)+

definition demo_collision :: auction where
  "demo_collision = PublishKeys ''pk'' ''ek''
     (fst (Join ''p4'' (Leave ''p2'' (fst (Join ''p3'' (fst (Join ''p2'' (fst (Join ''p1'' NewAuction)))))))))"

lemmas join_eval = Join_def Let_def seller_def buyerCount_def NewAuction_def MaxBuyers_def

lemma demo_collision_reachable: "auction_reachable demo_collision"
  unfolding demo_collision_def
  by (intro reachable_ops) (simp_all add: join_eval Leave_def)

lemma demo_collision_peers:
  "a_peers demo_collision =
    [(''p1'', \<lparr>p_ID = ''p1'', p_Role = RoleSeller, p_Seat = - 1, p_Sealed = False\<rparr>),
     (''p3'', \<lparr>p_ID = ''p3'', p_Role = RoleBuyer, p_Seat = 1, p_Sealed = False\<rparr>),
     (''p4'', \<lparr>p_ID = ''p4'', p_Role = RoleBuyer, p_Seat = 1, p_Sealed = False\<rparr>)]"
  by (simp add: demo_collision_def join_eval Leave_def PublishKeys_def unseal_def)

lemma demo_collision_state: "a_phase demo_collision = PhaseBidding" "buyerCount demo_collision = 2"
  by (simp_all add: buyerCount_def demo_collision_peers) (simp add: demo_collision_def PublishKeys_def)

lemma demo_collision_wf: "gomap_wf (a_peers demo_collision)"
  by (simp add: demo_collision_peers)

lemma demo_collision_not_distinct: "\<not> seats_distinct demo_collision"
proof -
  have "buyer_seat (a_peers demo_collision) ''p3'' = Some 1" "buyer_seat (a_peers demo_collision) ''p4'' = Some 1"
    by (simp_all add: buyer_seat_def demo_collision_peers)
  then show ?thesis unfolding seats_distinct_map [OF demo_collision_wf] by fastforce
qed

lemma collision_never_completes:
  "auction_inv a \<Longrightarrow> a_phase a = PhaseBidding \<Longrightarrow> \<not> seats_distinct a \<Longrightarrow>
   a_phase (fold (\<lambda>(pid, k, ct) s. fst (SubmitBid pid k ct s)) bids a) = PhaseBidding"
proof (induction bids arbitrary: a)
  case (Cons x bids)
  obtain pid k ct where x: "x = (pid, k, ct)" by (cases x)
  obtain b r where br: "SubmitBid pid k ct a = (b, r)" by fastforce
  have wf: "gomap_wf (a_peers a)" using Cons.prems(1) by (simp add: auction_inv_def peers_inv_def)
  have sd: "\<not> seats_distinct b" using SubmitBid_frame(3) [OF wf, of pid k ct] br Cons.prems(3) by simp
  have inv: "auction_inv b" using auction_inv_SubmitBid [OF Cons.prems(1), of pid k ct] br by simp
  have "a_phase b = PhaseBidding"
    using SubmitBid_effect [OF Cons.prems(1) br] sd Cons.prems(2) by (auto split: if_splits)
  then show ?case using Cons.IH [OF inv _ sd] by (simp add: x br)
qed simp

section \<open>Snapshots\<close>

lemma snapshot_peers:
  assumes "auction_inv a"
  shows "map p_ID (List.map_filter (map_of (a_peers a)) (a_order a)) = a_order a"
proof -
  have "map p_ID (List.map_filter (map_of (a_peers a)) xs) = xs" if "set xs \<subseteq> keys (a_peers a)" for xs
    using that
  proof (induction xs)
    case (Cons x xs)
    then have "map_of (a_peers a) x \<noteq> None" using map_of_isSome [of "a_peers a" x] by simp
    then obtain p where p: "map_of (a_peers a) x = Some p" by blast
    then have "(x, p) \<in> set (a_peers a)" by (rule map_of_SomeD)
    then have "p_ID p = x" using assms by (auto simp: auction_inv_def peers_inv_def peer_wf_def)
    then show ?case using Cons p by (simp add: List.map_filter_simps)
  qed (simp add: List.map_filter_simps)
  then show ?thesis using assms by (simp add: auction_inv_def peers_inv_def)
qed

lemma sealed_le_buyers:
  assumes "auction_inv a"
  shows "int (length (a_bids a)) \<le> buyerCount a"
proof -
  have i: "peers_inv (a_peers a) (a_order a)" "bids_inv (a_peers a) (a_bids a)"
    using assms by (simp_all add: auction_inv_def)
  let ?S = "{(k, p) \<in> buyer_entries (a_peers a). p_Sealed p}"
  have fin: "finite ?S" by (rule finite_subset [of _ "buyer_entries (a_peers a)"]) auto
  have "length (a_bids a) = card ((\<lambda>(k, p). p_Seat p) ` ?S)"
    using i gomap_len [of "a_bids a"] sealed_seats_image [OF i(1)] by (simp add: bids_inv_def)
  also have "\<dots> \<le> card ?S" using fin by (rule card_image_le)
  also have "\<dots> \<le> card (buyer_entries (a_peers a))" by (rule card_mono) auto
  also have "\<dots> = length (buyers (a_peers a))" using i(1) by (simp add: card_buyer_entries peers_inv_def)
  finally show ?thesis by (simp add: buyerCount_buyers)
qed

lemma first_buyer_Some:
  "pid \<in> set xs \<Longrightarrow> map_of ps pid = Some p \<Longrightarrow> p_Role p = RoleBuyer \<Longrightarrow>
   \<exists>q. first_buyer ps xs = Some q \<and> p_Role q = RoleBuyer \<and> q \<in> set (List.map_filter (map_of ps) xs)"
  by (induction xs) (auto simp: List.map_filter_simps split: option.splits)

lemma evaluator_exists:
  assumes "auction_inv a" "0 < buyerCount a"
  shows "\<exists>q. evaluatorLocked a = Some q \<and> p_Role q = RoleBuyer
    \<and> q \<in> set (List.map_filter (map_of (a_peers a)) (a_order a))"
proof -
  obtain p where "p \<in> set (buyers (a_peers a))"
    using assms(2) by (cases "buyers (a_peers a)") (auto simp: buyerCount_buyers)
  then obtain k where "(k, p) \<in> set (a_peers a)" "p_Role p = RoleBuyer" by (auto simp: buyers_def)
  moreover have "gomap_wf (a_peers a)" "set (a_order a) = keys (a_peers a)"
    using assms(1) by (simp_all add: auction_inv_def peers_inv_def)
  ultimately show ?thesis unfolding evaluatorLocked_def
    by (intro first_buyer_Some [of k _ _ p]) (auto simp: rev_image_eqI)
qed

section \<open>Properties\<close>

text \<open>C15. In every reachable state, whatever the clients sent and however their calls interleaved:
  at most one peer sells, at most five buy, the seating order lists every connected peer exactly
  once, every buyer's seat is one of 0..4, the stored bids are exactly those of the seats marked
  sealed, the delivery hour is an hour of the day, and while the audit runs every frozen
  participant is still connected.\<close>

theorem auction_cohort:
  assumes "auction_reachable a"
  shows "(\<forall>p \<in> set (peer_list a). \<forall>q \<in> set (peer_list a).
            p_Role p = RoleSeller \<and> p_Role q = RoleSeller \<longrightarrow> p = q)
    \<and> buyerCount a \<le> MaxBuyers
    \<and> distinct (a_order a) \<and> set (a_order a) = keys (a_peers a)
    \<and> (\<forall>p \<in> set (peer_list a). p_Role p = RoleBuyer \<longrightarrow> 0 \<le> p_Seat p \<and> p_Seat p < MaxBuyers)
    \<and> keys (a_bids a) = p_Seat ` {p \<in> set (peer_list a). p_Sealed p}
    \<and> 0 \<le> a_Hour a \<and> a_Hour a < 24
    \<and> (a_epoch a = EpochAudit \<longrightarrow> set (a_epochParty a) \<subseteq> keys (a_peers a))"
proof -
  have inv: "auction_inv a" using assms by (rule auction_sys.reach_inv)
  then have ps: "peers_inv (a_peers a) (a_order a)" by (simp add: auction_inv_def)
  have "length (sellers (a_peers a)) \<le> 1" using ps by (simp add: peers_inv_def)
  then have one: "p = q" if "p \<in> set (sellers (a_peers a))" "q \<in> set (sellers (a_peers a))" for p q
    using that by (cases "sellers (a_peers a)") auto
  have seats: "sealed_seats (a_peers a) = p_Seat ` {p \<in> set (peer_list a). p_Sealed p}"
    by (force simp: sealed_seats_def)
  have "p = q" if "p \<in> set (peer_list a)" "q \<in> set (peer_list a)"
      "p_Role p = RoleSeller" "p_Role q = RoleSeller" for p q
    using one [of p q] that by (simp add: sellers_def)
  moreover have "0 \<le> p_Seat p \<and> p_Seat p < MaxBuyers"
    if "p \<in> set (peer_list a)" "p_Role p = RoleBuyer" for p
    using that ps by (force simp: peers_inv_def peer_wf_def)
  moreover have "keys (a_bids a) = sealed_seats (a_peers a)"
    and "buyerCount a \<le> MaxBuyers" and "0 \<le> a_Hour a \<and> a_Hour a < 24"
    and "a_epoch a = EpochAudit \<longrightarrow> set (a_epochParty a) \<subseteq> keys (a_peers a)"
    using inv by (simp_all add: auction_inv_def bids_inv_def peers_inv_def epoch_inv_def buyerCount_buyers)
  moreover have "distinct (a_order a)" "set (a_order a) = keys (a_peers a)"
    using ps by (simp_all add: peers_inv_def)
  ultimately show ?thesis unfolding seats by blast
qed

text \<open>C14. What \<open>SubmitBid\<close> does, in any reachable state: a bid is refused, and nothing changes,
  exactly when it does not come from a seated buyer during bidding under the key of this round.
  Otherwise it is stored under the buyer's seat, and the call reports the round complete (and moves
  it to evaluation) exactly when every buyer has sealed and no two buyers share a seat.\<close>

theorem SubmitBid_spec:
  assumes "auction_reachable a" and "SubmitBid pid k ct a = (b, r)"
  shows "if \<exists>p. map_of (a_peers a) pid = Some p \<and> p_Role p = RoleBuyer
              \<and> a_phase a = PhaseBidding \<and> k = a_keyID a
         then (\<exists>p. map_of (a_peers a) pid = Some p
                 \<and> map_of (a_bids b) = (map_of (a_bids a))(p_Seat p \<mapsto> ct)
                 \<and> map_of (a_peers b) = (map_of (a_peers a))(pid \<mapsto> p\<lparr>p_Sealed := True\<rparr>))
            \<and> r \<noteq> BidRejected
            \<and> (r = BidComplete \<longleftrightarrow> all_sealed b \<and> seats_distinct b)
            \<and> a_phase b = (if r = BidComplete then PhaseEvaluating else PhaseBidding)
         else r = BidRejected \<and> b = a"
proof -
  have "auction_inv a" using assms(1) by (rule auction_sys.reach_inv)
  then show ?thesis using assms(2) by (rule SubmitBid_effect)
qed

text \<open>C17. Liveness of a round: once the seller has published keys, and as long as the buyers' seats
  differ, sealing a bid for every buyer (in any order) ends bidding; the evaluator then gets one
  ciphertext per buyer, in seat order, each the one that buyer sent.\<close>

theorem round_completes:
  assumes "auction_reachable a" "seats_distinct a" "ids \<noteq> []" "distinct ids"
    and "set ids = {i. buyer_seat (a_peers a) i \<noteq> None}"
    and "b = submit_all ct ids (PublishKeys pk ek a)"
  shows "a_phase b = PhaseEvaluating
    \<and> (\<exists>seats. OrderedBids b = (map (\<lambda>s. the (map_of (a_bids b) s)) seats, seats)
         \<and> sorted_wrt (<) seats \<and> set seats = {s. \<exists>i. buyer_seat (a_peers a) i = Some s})
    \<and> (\<forall>i s. buyer_seat (a_peers a) i = Some s \<longrightarrow> map_of (a_bids b) s = Some (ct i))"
proof -
  let ?p = "PublishKeys pk ek a"
  have inv: "auction_inv a" using assms(1) by (rule auction_sys.reach_inv)
  have wf: "gomap_wf (a_peers a)" "gomap_wf (a_peers ?p)"
    using inv auction_inv_PublishKeys [OF inv, of pk ek] by (simp_all add: auction_inv_def peers_inv_def)
  have m: "map_of (a_peers ?p) = map_option (\<lambda>p. p\<lparr>p_Sealed := False\<rparr>) \<circ> map_of (a_peers a)"
    by (simp add: PublishKeys_def map_of_unseal)
  have bs: "buyer_seat (a_peers ?p) = buyer_seat (a_peers a)"
    by (auto simp: fun_eq_iff buyer_seat_def m split: option.split)
  have "seats_distinct ?p" using assms(2) unfolding seats_distinct_map [OF wf(1)] seats_distinct_map [OF wf(2)] bs .
  moreover have "set ids = waiting_ids ?p" unfolding assms(5)
    by (auto simp: waiting_ids_def m buyer_seat_def split: option.splits)
  moreover have "a_phase ?p = PhaseBidding" "map_of (a_bids ?p) = Map.empty" by (simp_all add: PublishKeys_def)
  ultimately have c: "a_phase b = PhaseEvaluating"
      "\<And>i s. i \<in> set ids \<Longrightarrow> buyer_seat (a_peers a) i = Some s \<Longrightarrow> map_of (a_bids b) s = Some (ct i)"
      "\<And>s. (\<And>i. i \<in> set ids \<Longrightarrow> buyer_seat (a_peers a) i \<noteq> Some s) \<Longrightarrow> map_of (a_bids b) s = None"
    using submit_all_completes [OF auction_inv_PublishKeys [OF inv, of pk ek] _ _ assms(4) _ assms(3), of ct]
    unfolding assms(6) bs by metis+
  have r: "a_phase b = PhaseEvaluating"
      "\<And>i s. buyer_seat (a_peers a) i = Some s \<Longrightarrow> map_of (a_bids b) s = Some (ct i)"
      "\<And>s. (\<And>i. buyer_seat (a_peers a) i \<noteq> Some s) \<Longrightarrow> map_of (a_bids b) s = None"
    using c assms(5) by blast+
  let ?seats = "filter (\<lambda>s. map_of (a_bids b) s \<noteq> None) [0..MaxBuyers - 1]"
  have "OrderedBids b = (map (\<lambda>s. the (map_of (a_bids b) s)) ?seats, ?seats)"
    by (simp add: OrderedBids_def collect_bids_filter)
  moreover have "sorted_wrt (<) ?seats" by (intro sorted_wrt_filter sorted_upto_strict)
  moreover have "set ?seats = {s. \<exists>i. buyer_seat (a_peers a) i = Some s}"
    using r(2,3) buyer_seat_bounds [OF inv] by fastforce
  ultimately show ?thesis using r by blast
qed

text \<open>C19. A bid sealed under a key generation that has since been replaced is refused forever: after
  the seller publishes new keys, no later state accepts a bid that carries an older key id.\<close>

theorem stale_bid_rejected:
  assumes "reach auction_step (PublishKeys pk ek a) b" "k \<le> a_keyID a"
  shows "SubmitBid pid k ct b = (b, BidRejected)"
proof -
  have "a_keyID (PublishKeys pk ek a) \<le> a_keyID b" using assms(1) by (rule key_sys.reach_mono)
  then have "k \<noteq> a_keyID b" using assms(2) by (simp add: PublishKeys_def)
  then show ?thesis by (intro SubmitBid_rejected) simp
qed

text \<open>C27. The key chain of the audit visits every connected peer exactly once, in seating order,
  starting with the first, and reports completion after the last; the joint key is the one the
  last member returned, and no index leaves the party.\<close>

theorem epoch_chain_visits_all:
  assumes "a_epoch a \<noteq> EpochAudit" "pks \<noteq> []" "length pks = length (a_order a)"
    and "StartEpochChain a = (a0, first)" "advance_all pks a0 = (b, rs)"
  shows "first # [p. Some (p, False) \<leftarrow> rs] = a_order a
    \<and> rs = map (\<lambda>p. Some (p, False)) (tl (a_order a)) @ [Some ([], True)]
    \<and> EpochKey b = last pks \<and> a_epochParty b = a_order a \<and> a_epoch b = EpochAudit
    \<and> a_epochTotals b = [] \<and> a_epochPartials b = []"
proof -
  have s: "a_epochParty a0 = a_order a" "a_chainPos a0 = 0" "a_epoch a0 = EpochAudit"
    "a_epochTotals a0 = []" "a_epochPartials a0 = []" "first = hd (a_order a)"
    using assms(1-4) by (auto simp: StartEpochChain_def Let_def split: list.splits)
  obtain x xs where o: "a_order a = x # xs" using assms(2,3) by (cases "a_order a") auto
  have rs: "rs = map (\<lambda>p. Some (p, False)) xs @ [Some ([], True)]"
    and b: "a_epochKey b = last pks" "a_epochParty b = a_order a" "a_epoch b = EpochAudit"
      "a_epochTotals b = []" "a_epochPartials b = []"
    using advance_all_visits [OF assms(2) _ _ assms(5)] assms(3) s o by auto
  have "[p. Some (p, False) \<leftarrow> rs] = xs" unfolding rs by (induction xs) auto
  then show ?thesis using rs b s(6) o by (simp add: EpochKey_def)
qed

text \<open>Gathering in the audit: when each member of the frozen party sends its encrypted total
  once, in any order, exactly the last submission reports completion, and the ciphertexts handed to
  the evaluator are one per member in party order; the same holds for the decryption shares.\<close>

theorem epoch_collection:
  assumes "a_epoch a = EpochAudit" "a_epochTotals a = []" "a_epochPartials a = []" "a_epochParty a \<noteq> []"
    and "distinct (map fst cs)" "set (map fst cs) = set (a_epochParty a)"
    and "distinct (map fst ds)" "set (map fst ds) = set (a_epochParty a)"
    and "submit_each SubmitEpochTotal cs a = (b, rs)" "submit_each SubmitEpochPartial ds b = (c, qs)"
  shows "rs = replicate (length cs - 1) False @ [True]
    \<and> EpochCiphertexts b = map (\<lambda>i. the (map_of cs i)) (a_epochParty a)
    \<and> qs = replicate (length ds - 1) False @ [True]
    \<and> EpochPartials c = map (\<lambda>i. the (map_of ds i)) (a_epochParty a)"
proof -
  have p: "a_epochPartials b = []" using submit_totals_partials [of cs a] assms(3,9) by simp
  note t = totals.collect_round [OF assms(1,2,4,5,6,9)]
  have "a_epochParty b \<noteq> []" "set (map fst ds) = set (a_epochParty b)" using assms(4,8) t(4) by simp_all
  note q = partials.collect_round [OF _ p this(1) assms(7) this(2) assms(10)]
  show ?thesis using t q by simp
qed

text \<open>A participant that leaves during the audit aborts it: the partial key, totals and shares
  are discarded with the reason shown, no total is accepted until an audit is started again, and
  the aborted party is empty, so no collection can complete. Anyone else may leave without the
  audit noticing.\<close>

theorem Leave_audit:
  assumes "auction_reachable a" "a_epoch a = EpochAudit" "b = Leave pid a"
  shows "if pid \<in> set (a_epochParty a)
         then a_epoch b = EpochReady \<and> a_epochParty b = [] \<and> a_epochTotals b = []
            \<and> a_epochPartials b = [] \<and> a_chainPos b = 0
            \<and> a_epochAbort b = ''a participant left mid-audit''
            \<and> (\<forall>q ct. SubmitEpochTotal q ct b = (b, False) \<and> \<not> snd (SubmitEpochPartial q ct b))
         else a_epoch b = EpochAudit \<and> a_epochParty b = a_epochParty a
            \<and> a_epochTotals b = a_epochTotals a \<and> a_epochPartials b = a_epochPartials a
            \<and> a_chainPos b = a_chainPos a
            \<and> set (a_epochParty b) \<subseteq> keys (a_peers b)"
proof (cases "pid \<in> set (a_epochParty a)")
  case True
  then show ?thesis unfolding assms(3) using assms(2)
    by (simp add: Leave_eq Let_def SubmitEpochTotal_def SubmitEpochPartial_def haveAllLocked_def)
next
  case False
  have "auction_inv b" unfolding assms(3) using assms(1) by (intro auction_inv_Leave auction_sys.reach_inv)
  moreover have "a_epoch b = EpochAudit" "a_epochParty b = a_epochParty a"
    "a_epochTotals b = a_epochTotals a" "a_epochPartials b = a_epochPartials a" "a_chainPos b = a_chainPos a"
    unfolding assms(3) using assms(2) False by (simp_all add: Leave_eq Let_def frame_simps)
  ultimately show ?thesis using False by (simp add: auction_inv_def epoch_inv_def)
qed

text \<open>As long as no peer leaves, the buyers sit on the seats 0, 1, 2, ... in joining order, so no
  two of them share a seat, and (with the seat guard of \<open>PeerAtSeat\<close>) every seat names one peer.\<close>

theorem seats_distinct_while_staying:
  assumes "reach staying_step NewAuction a"
  shows "map p_Seat (buyers (a_peers a)) = map int [0..<length (buyers (a_peers a))] \<and> seats_distinct a"
  using staying_sys.reach_inv [OF assms] seats_in_order_distinct by (auto simp: seats_in_order_def)

text \<open>Once a buyer has left, \<open>Join\<close> (which takes the number of buyers as the seat) can seat two
  buyers on the same seat. Such a round can never complete by bidding: there is a reachable state
  with two buyers in the bidding phase in which no sequence of bids ever ends bidding.\<close>

theorem seat_collision_blocks_round:
  "\<exists>a. auction_reachable a \<and> a_phase a = PhaseBidding \<and> buyerCount a = 2 \<and> \<not> seats_distinct a
     \<and> (\<forall>bids. a_phase (fold (\<lambda>(pid, k, ct) s. fst (SubmitBid pid k ct s)) bids a) = PhaseBidding)"
proof -
  show ?thesis
    using demo_collision_reachable demo_collision_state demo_collision_not_distinct
      collision_never_completes [OF auction_sys.reach_inv [OF demo_collision_reachable]]
    by blast
qed

text \<open>\<open>Settle\<close> without an offer changes nothing. With an offer it records exactly one trade (of
  the settled hour, at the offered price, with the number of sealed bids), moves to the next
  delivery hour, clears the round, and opens the audit exactly with the fifth trade.\<close>

theorem Settle_spec:
  assumes "auction_reachable a" "Settle now ok a = (b, seat)"
  shows "seat = (if a_winnerSeat a < 0 then - 1 else a_winnerSeat a)
    \<and> (if a_winnerSeat a < 0 then b = a
       else a_trades b = \<lparr>t_At = now, t_Slot = a_Hour a, t_PriceCt = a_priceCt a, t_Accepted = ok,
                          t_Bidders = int (card (sealed_seats (a_peers a))), t_seat = seat\<rparr> # a_trades a
          \<and> a_Hour b = (a_Hour a + 1) mod 24 \<and> a_phase b = PhaseSettled
          \<and> a_bids b = [] \<and> a_masks b = [] \<and> a_pubKey b = [] \<and> a_winnerSeat b = - 1
          \<and> (\<forall>p \<in> set (peer_list b). \<not> p_Sealed p)
          \<and> (a_epoch a = EpochOpen \<longrightarrow>
               (a_epoch b = EpochReady \<longleftrightarrow> length (a_trades b) = EpochSize)))"
proof -
  have inv: "auction_inv a" using assms(1) by (rule auction_sys.reach_inv)
  have h: "go_rem (a_Hour a + 1) 24 = (a_Hour a + 1) mod 24"
    using inv by (simp add: auction_inv_def go_rem_nonneg)
  have bids: "length (a_bids a) = card (sealed_seats (a_peers a))"
    using inv gomap_len [of "a_bids a"] by (simp add: auction_inv_def bids_inv_def)
  have lt: "length (a_trades a) < EpochSize" if "a_epoch a = EpochOpen"
    using inv that by (simp add: auction_inv_def epoch_inv_def)
  show ?thesis
  proof (cases "a_winnerSeat a < 0")
    case True
    then show ?thesis using assms(2) by (simp add: Settle_def)
  next
    case False
    then show ?thesis using assms(2) lt
      by (auto simp: Settle_def Let_def resetLocked_def h bids unseal_def split: if_splits)
  qed
qed

text \<open>What every tab is shown is well-defined in every reachable state: the price band of the
  current hour exists (no table is indexed out of range), all connected peers are listed, there are
  never more sealed bids than buyers or more buyers than seats, and whenever somebody buys an
  evaluator is named.\<close>

theorem Snapshot_consistent:
  assumes "auction_reachable a"
  shows "s_band (Snapshot msin a) \<noteq> None
    \<and> map p_ID (s_peers (Snapshot msin a)) = a_order a
    \<and> s_sealed (Snapshot msin a) \<le> s_buyers (Snapshot msin a)
    \<and> s_buyers (Snapshot msin a) \<le> s_max_buyers (Snapshot msin a)
    \<and> (0 < s_buyers (Snapshot msin a) \<longrightarrow>
         (\<exists>p \<in> set (s_peers (Snapshot msin a)). p_Role p = RoleBuyer \<and> p_ID p = s_evaluator (Snapshot msin a)))"
proof -
  have inv: "auction_inv a" using assms by (rule auction_sys.reach_inv)
  have "s_band (Snapshot msin a) \<noteq> None"
    using BandAt_wf [of "a_Hour a" msin] inv by (auto simp: Snapshot_def auction_inv_def)
  moreover have "buyerCount a \<le> MaxBuyers" using inv by (simp add: auction_inv_def peers_inv_def buyerCount_buyers)
  moreover have "\<exists>p \<in> set (s_peers (Snapshot msin a)). p_Role p = RoleBuyer \<and> p_ID p = s_evaluator (Snapshot msin a)"
    if "0 < buyerCount a"
    using evaluator_exists [OF inv that] by (auto simp: Snapshot_def)
  ultimately show ?thesis
    using snapshot_peers [OF inv] sealed_le_buyers [OF inv] by (simp add: Snapshot_def)
qed

section \<open>Concrete runs\<close>

definition demo_joined :: auction where
  "demo_joined = fst (Join ''p3'' (fst (Join ''p2'' (fst (Join ''p1'' NewAuction)))))"

definition demo_bidding :: auction where
  "demo_bidding = fst (SubmitBid ''p2'' 1 ''c2'' (PublishKeys ''pk'' ''ek'' demo_joined))"

lemma demo_joined_eq:
  "demo_joined = NewAuction\<lparr>a_peers :=
    [(''p1'', \<lparr>p_ID = ''p1'', p_Role = RoleSeller, p_Seat = - 1, p_Sealed = False\<rparr>),
     (''p2'', \<lparr>p_ID = ''p2'', p_Role = RoleBuyer, p_Seat = 0, p_Sealed = False\<rparr>),
     (''p3'', \<lparr>p_ID = ''p3'', p_Role = RoleBuyer, p_Seat = 1, p_Sealed = False\<rparr>)],
    a_order := [''p1'', ''p2'', ''p3'']\<rparr>"
  by (simp add: demo_joined_def join_eval)

lemma demo_joined_reachable: "auction_reachable demo_joined"
  unfolding demo_joined_def by (intro reachable_ops) (simp_all add: join_eval)

lemma demo_bidding_reachable: "auction_reachable demo_bidding"
  unfolding demo_bidding_def by (intro reachable_ops demo_joined_reachable)

lemma demo_joined_staying: "reach staying_step NewAuction demo_joined"
  unfolding demo_joined_def
  by (intro reach_step [where step = staying_step, OF _ staying_step.intros [OF st_Join]] reach_start)
    (auto simp: join_eval)

lemma demo_joined_distinct: "seats_distinct demo_joined"
  using staying_sys.reach_inv [OF demo_joined_staying] by (rule seats_in_order_distinct)

lemma demo_joined_buyers: "{i. buyer_seat (a_peers demo_joined) i \<noteq> None} = {''p3'', ''p2''}"
  by (auto simp: buyer_seat_def demo_joined_eq split: if_splits)

theorem auction_cohort_witness:
  "auction_reachable demo_bidding \<and> buyerCount demo_bidding = 2 \<and> buyerCount demo_bidding \<le> MaxBuyers
   \<and> set (a_order demo_bidding) = keys (a_peers demo_bidding)"
  using auction_cohort [OF demo_bidding_reachable] demo_bidding_reachable
  by (simp add: demo_bidding_def demo_joined_eq PublishKeys_def SubmitBid_def NewAuction_def unseal_def
      buyerCount_def)

theorem SubmitBid_spec_witness:
  "\<exists>b. SubmitBid ''p3'' 1 ''c3'' demo_bidding = (b, BidComplete)
     \<and> a_phase b = PhaseEvaluating \<and> all_sealed b \<and> seats_distinct b"
proof -
  obtain b r where br: "SubmitBid ''p3'' 1 ''c3'' demo_bidding = (b, r)" by fastforce
  have r: "r = BidComplete"
    using br by (auto simp: demo_bidding_def demo_joined_eq PublishKeys_def SubmitBid_def NewAuction_def
        unseal_def buyerCount_def)
  have "map_of (a_peers demo_bidding) ''p3'' = Some \<lparr>p_ID = ''p3'', p_Role = RoleBuyer, p_Seat = 1, p_Sealed = False\<rparr>"
    "a_phase demo_bidding = PhaseBidding" "a_keyID demo_bidding = 1"
    by (simp_all add: demo_bidding_def demo_joined_eq PublishKeys_def SubmitBid_def NewAuction_def
        unseal_def buyerCount_def)
  then show ?thesis using SubmitBid_spec [OF demo_bidding_reachable br] r br by auto
qed

theorem round_completes_witness:
  "a_phase (submit_all (\<lambda>i. i) [''p3'', ''p2''] (PublishKeys ''pk'' ''ek'' demo_joined)) = PhaseEvaluating"
proof -
  have "set [''p3'', ''p2''] = {i. buyer_seat (a_peers demo_joined) i \<noteq> None}"
    unfolding demo_joined_buyers by simp
  then show ?thesis
    using round_completes [OF demo_joined_reachable demo_joined_distinct _ _ _ refl,
        of "[''p3'', ''p2'']" "\<lambda>i. i" "''pk''" "''ek''"] by (simp del: submit_all.simps)
qed

theorem stale_bid_rejected_witness:
  "SubmitBid ''p2'' 1 ''c2'' (PublishKeys ''pk'' ''ek'' demo_bidding)
     = (PublishKeys ''pk'' ''ek'' demo_bidding, BidRejected)"
  by (rule stale_bid_rejected [OF reach_start])
    (simp add: demo_bidding_def demo_joined_eq PublishKeys_def SubmitBid_def NewAuction_def unseal_def
      buyerCount_def)

theorem epoch_chain_visits_all_witness:
  "\<exists>a0 b rs. StartEpochChain demo_joined = (a0, ''p1'') \<and> advance_all [''k1'', ''k2'', ''k3''] a0 = (b, rs)
     \<and> rs = [Some (''p2'', False), Some (''p3'', False), Some ([], True)] \<and> EpochKey b = ''k3''"
proof -
  obtain a0 first where s: "StartEpochChain demo_joined = (a0, first)" by fastforce
  obtain b rs where d: "advance_all [''k1'', ''k2'', ''k3''] a0 = (b, rs)" by fastforce
  have "a_order demo_joined = [''p1'', ''p2'', ''p3'']" "a_epoch demo_joined \<noteq> EpochAudit"
    by (simp_all add: demo_joined_eq NewAuction_def)
  then show ?thesis using epoch_chain_visits_all [OF _ _ _ s d] s d by simp
qed

definition demo_audit :: auction where
  "demo_audit = fst (StartEpochChain demo_joined)"

lemma demo_audit_reachable: "auction_reachable demo_audit"
  unfolding demo_audit_def by (intro reachable_ops demo_joined_reachable)

lemma demo_audit_state: "a_epoch demo_audit = EpochAudit" "a_epochTotals demo_audit = []"
  "a_epochPartials demo_audit = []" "a_epochParty demo_audit = [''p1'', ''p2'', ''p3'']"
  by (simp_all add: demo_audit_def StartEpochChain_def demo_joined_eq NewAuction_def Let_def)

theorem epoch_collection_witness:
  "\<exists>b c. submit_each SubmitEpochTotal [(''p3'', ''t3''), (''p1'', ''t1''), (''p2'', ''t2'')] demo_audit
            = (b, [False, False, True]) \<and> EpochCiphertexts b = [''t1'', ''t2'', ''t3'']
     \<and> submit_each SubmitEpochPartial [(''p2'', ''s2''), (''p1'', ''s1''), (''p3'', ''s3'')] b
            = (c, [False, False, True]) \<and> EpochPartials c = [''s1'', ''s2'', ''s3'']"
proof -
  let ?cs = "[(''p3'', ''t3''), (''p1'', ''t1''), (''p2'', ''t2'')]"
  let ?ds = "[(''p2'', ''s2''), (''p1'', ''s1''), (''p3'', ''s3'')]"
  obtain b rs where b: "submit_each SubmitEpochTotal ?cs demo_audit = (b, rs)" by (rule prod.exhaust)
  obtain c qs where c: "submit_each SubmitEpochPartial ?ds b = (c, qs)" by (rule prod.exhaust)
  have "set (map fst ?cs) = set (a_epochParty demo_audit)" "set (map fst ?ds) = set (a_epochParty demo_audit)"
    by (auto simp: demo_audit_state)
  then show ?thesis
    using epoch_collection [OF demo_audit_state(1-3) _ _ _ _ _ b c] b c
    by (simp add: demo_audit_state numeral_2_eq_2)
qed

theorem Leave_audit_witness:
  "a_epoch (Leave ''p2'' demo_audit) = EpochReady \<and> a_epochParty (Leave ''p2'' demo_audit) = []"
  using Leave_audit [OF demo_audit_reachable demo_audit_state(1) refl, of "''p2''"]
  by (simp add: demo_audit_state)

theorem seats_distinct_while_staying_witness:
  "reach staying_step NewAuction demo_joined \<and> seats_distinct demo_joined"
  using seats_distinct_while_staying [OF demo_joined_staying] demo_joined_staying by simp

theorem Settle_spec_witness:
  "auction_reachable (Offer 1 (Fin 7) demo_bidding)
   \<and> length (a_trades (fst (Settle ''12:00:00'' True (Offer 1 (Fin 7) demo_bidding)))) = 1
   \<and> snd (Settle ''12:00:00'' True (Offer 1 (Fin 7) demo_bidding)) = 1"
proof -
  let ?a = "Offer 1 (Fin 7) demo_bidding"
  have r: "auction_reachable ?a" by (intro reachable_ops demo_bidding_reachable)
  obtain b seat where s: "Settle ''12:00:00'' True ?a = (b, seat)" by (rule prod.exhaust)
  have "a_winnerSeat ?a = 1" "a_trades ?a = []"
    by (simp_all add: Offer_def demo_bidding_def demo_joined_eq PublishKeys_def SubmitBid_def NewAuction_def
        unseal_def buyerCount_def)
  then show ?thesis using Settle_spec [OF r s] r s by simp
qed

theorem Snapshot_consistent_witness:
  "s_band (Snapshot (\<lambda>x. x) demo_bidding) \<noteq> None
   \<and> map p_ID (s_peers (Snapshot (\<lambda>x. x) demo_bidding)) = a_order demo_bidding"
  using Snapshot_consistent [OF demo_bidding_reachable, of "\<lambda>x. x"] by simp

end
