(* ===== verification/Relay.thy ===== *)
theory Relay
  imports Auction_Rounds
begin

text \<open>
  The WebSocket relay of the energy auction (examples/energy\_auction/main.go): the struct \<open>hub\<close>,
  the wire message \<open>msg\<close>, \<open>send\<close>, \<open>broadcast\<close>, the connection life cycle of \<open>serveWS\<close>, and
  \<open>handle\<close>, one definition per message type.

  A websocket is represented by a number; a function that writes to sockets returns the list of
  (recipient, message) pairs in writing order. \<open>handle\<close> returns \<open>None\<close> where the Go code would
  panic. The relay is shown to treat keys and ciphertexts as opaque, to deliver each of them only
  to the role it is meant for, and to keep connections and seats in step.
\<close>

section \<open>Data\<close>

type_synonym sock = nat

record wire_msg =
  m_Type :: string
  m_Blob :: string
  m_Blobs :: "string list"
  m_Bids :: "string list"
  m_Seat :: int
  m_Price :: f64
  m_Hour :: int
  m_KeyID :: int
  m_Ok :: bool
  m_You :: string
  m_State :: "snapshot option"
  m_Note :: string

record hub =
  h_conns :: "(string, sock) gomap"
  h_order :: "string list"
  h_auction :: auction
  h_nextID :: int

type_synonym outbox = "(string \<times> wire_msg) list"

definition msg_of :: "string \<Rightarrow> wire_msg" where
  "msg_of t = \<lparr>m_Type = t, m_Blob = [], m_Blobs = [], m_Bids = [], m_Seat = 0, m_Price = Fin 0,
     m_Hour = 0, m_KeyID = 0, m_Ok = False, m_You = [], m_State = None, m_Note = []\<rparr>"

definition new_hub :: hub where
  "new_hub = \<lparr>h_conns = [], h_order = [], h_auction = NewAuction, h_nextID = 0\<rparr>"

section \<open>Sending\<close>

definition send :: "string \<Rightarrow> wire_msg \<Rightarrow> hub \<Rightarrow> outbox" where
  "send pid m h = (case map_of (h_conns h) pid of None \<Rightarrow> [] | Some c \<Rightarrow> [(pid, m)])"

definition peerIDs :: "hub \<Rightarrow> string list" where
  "peerIDs h = h_order h"

definition send_all :: "wire_msg \<Rightarrow> hub \<Rightarrow> outbox" where
  "send_all m h = concat (map (\<lambda>pid. send pid m h) (peerIDs h))"

definition broadcast :: "(f64 \<Rightarrow> f64) \<Rightarrow> hub \<Rightarrow> outbox" where
  "broadcast msin h =
     (let snap = Snapshot msin (h_auction h)
      in concat (map (\<lambda>pid. send pid ((msg_of ''state'')\<lparr>m_You := pid, m_State := Some snap\<rparr>) h)
           (h_order h)))"

text \<open>\<open>json.Marshal\<close> of a slice of ints; a slice that was never appended to is \<open>null\<close>.\<close>

fun json_sep :: "int list \<Rightarrow> string" where
  "json_sep [] = []"
| "json_sep [n] = itoa n"
| "json_sep (n # ns) = itoa n @ '','' @ json_sep ns"

definition json_ints :: "int list \<Rightarrow> string" where
  "json_ints ns = (if ns = [] then ''null'' else ''['' @ json_sep ns @ '']'')"

definition send_evaluator :: "wire_msg \<Rightarrow> hub \<Rightarrow> outbox" where
  "send_evaluator m h = (case Evaluator (h_auction h) of Some ev \<Rightarrow> send (p_ID ev) m h | None \<Rightarrow> [])"

section \<open>Connections\<close>

text \<open>The critical sections of \<open>serveWS\<close>, in order: registering the socket under the next id,
  joining the auction, and on exit unregistering and leaving.\<close>

definition accept_conn :: "sock \<Rightarrow> hub \<Rightarrow> hub \<times> string" where
  "accept_conn c h =
     (let n = h_nextID h + 1; pid = ''p'' @ itoa n
      in (h\<lparr>h_nextID := n, h_conns := AList.update pid c (h_conns h), h_order := h_order h @ [pid]\<rparr>, pid))"

definition join_conn :: "string \<Rightarrow> hub \<Rightarrow> hub" where
  "join_conn pid h = h\<lparr>h_auction := fst (Join pid (h_auction h))\<rparr>"

definition drop_conn :: "string \<Rightarrow> hub \<Rightarrow> hub" where
  "drop_conn pid h = h\<lparr>h_conns := AList.delete pid (h_conns h), h_order := slices_remove pid (h_order h)\<rparr>"

definition leave_conn :: "string \<Rightarrow> hub \<Rightarrow> hub" where
  "leave_conn pid h = h\<lparr>h_auction := Leave pid (h_auction h)\<rparr>"

definition serveWS_open :: "(f64 \<Rightarrow> f64) \<Rightarrow> sock \<Rightarrow> hub \<Rightarrow> hub \<times> outbox" where
  "serveWS_open msin c h =
     (let (h1, pid) = accept_conn c h; h2 = join_conn pid h1 in (h2, broadcast msin h2))"

definition serveWS_close :: "(f64 \<Rightarrow> f64) \<Rightarrow> string \<Rightarrow> hub \<Rightarrow> hub \<times> outbox" where
  "serveWS_close msin pid h =
     (let h1 = leave_conn pid (drop_conn pid h) in (h1, broadcast msin h1))"

section \<open>Messages\<close>

definition upd_auction :: "auction \<Rightarrow> hub \<Rightarrow> hub" where
  "upd_auction a h = h\<lparr>h_auction := a\<rparr>"

definition handle_keys :: "(f64 \<Rightarrow> f64) \<Rightarrow> wire_msg \<Rightarrow> hub \<Rightarrow> hub \<times> outbox" where
  "handle_keys msin m h =
     (let h1 = upd_auction (PublishKeys (m_Blob m) (m_Note m) (h_auction h)) h;
          kid = KeyID (h_auction h1)
      in (h1, broadcast msin h1
              @ send_all ((msg_of ''pubkey'')\<lparr>m_Blob := m_Blob m, m_KeyID := kid\<rparr>) h1
              @ send_evaluator ((msg_of ''evalkey'')\<lparr>m_Blob := m_Note m\<rparr>) h1))"

definition handle_bid :: "(f64 \<Rightarrow> f64) \<Rightarrow> string \<Rightarrow> wire_msg \<Rightarrow> hub \<Rightarrow> hub \<times> outbox" where
  "handle_bid msin pid m h =
     (let (a, r) = SubmitBid pid (m_KeyID m) (m_Blob m) (h_auction h);
          h1 = upd_auction a h
      in case r of
           BidRejected \<Rightarrow>
             (h1, send pid ((msg_of ''bidrejected'')\<lparr>m_KeyID := KeyID a\<rparr>) h1 @ broadcast msin h1)
         | BidStored \<Rightarrow> (h1, broadcast msin h1)
         | BidComplete \<Rightarrow>
             (let (cts, seats) = OrderedBids a
              in (h1, broadcast msin h1
                  @ send_evaluator ((msg_of ''evaluate'')\<lparr>m_Blobs := cts, m_Note := json_ints seats\<rparr>) h1)))"

definition handle_masks :: "(f64 \<Rightarrow> f64) \<Rightarrow> wire_msg \<Rightarrow> hub \<Rightarrow> hub \<times> outbox" where
  "handle_masks msin m h =
     (let a = SetMasks (m_Blobs m) (h_auction h); h1 = upd_auction a h; s = SellerID a;
          (cts, seats) = OrderedBids a
      in (h1, (if s \<noteq> [] then
                 send s ((msg_of ''masks'')\<lparr>m_Blobs := m_Blobs m, m_Bids := cts,
                           m_Note := json_ints seats\<rparr>) h1
               else [])
              @ broadcast msin h1))"

definition handle_offer :: "(f64 \<Rightarrow> f64) \<Rightarrow> wire_msg \<Rightarrow> hub \<Rightarrow> hub \<times> outbox" where
  "handle_offer msin m h =
     (let h1 = upd_auction (Offer (m_Seat m) (m_Price m) (h_auction h)) h in (h1, broadcast msin h1))"

definition handle_settle :: "(f64 \<Rightarrow> f64) \<Rightarrow> string \<Rightarrow> wire_msg \<Rightarrow> hub \<Rightarrow> hub \<times> outbox" where
  "handle_settle msin now m h =
     (let (a, seat) = Settle now (m_Ok m) (h_auction h); h1 = upd_auction a h; w = PeerAtSeat seat a
      in (h1, (if 0 \<le> seat \<and> m_Ok m \<and> w \<noteq> [] then
                 send w ((msg_of ''won'')\<lparr>m_Seat := seat, m_Price := m_Price m\<rparr>) h1
               else [])
              @ broadcast msin h1))"

definition handle_epochstart :: "(f64 \<Rightarrow> f64) \<Rightarrow> hub \<Rightarrow> hub \<times> outbox" where
  "handle_epochstart msin h =
     (let (a, first) = StartEpochChain (h_auction h); h1 = upd_auction a h
      in (h1, (if first \<noteq> [] then send first (msg_of ''epochchain'') h1 else []) @ broadcast msin h1))"

definition handle_epochchained :: "(f64 \<Rightarrow> f64) \<Rightarrow> wire_msg \<Rightarrow> hub \<Rightarrow> (hub \<times> outbox) option" where
  "handle_epochchained msin m h =
     (let (a, r) = AdvanceEpochChain (m_Blob m) (h_auction h); h1 = upd_auction a h
      in case r of
           None \<Rightarrow> None
         | Some (next_id, fin) \<Rightarrow>
             Some (h1, if \<not> fin
                       then send next_id ((msg_of ''epochchain'')\<lparr>m_Blob := m_Blob m\<rparr>) h1 @ broadcast msin h1
                       else broadcast msin h1 @ send_all ((msg_of ''epochkey'')\<lparr>m_Blob := m_Blob m\<rparr>) h1))"

definition handle_epochtotal :: "(f64 \<Rightarrow> f64) \<Rightarrow> string \<Rightarrow> wire_msg \<Rightarrow> hub \<Rightarrow> hub \<times> outbox" where
  "handle_epochtotal msin pid m h =
     (let (a, complete) = SubmitEpochTotal pid (m_Blob m) (h_auction h); h1 = upd_auction a h
      in if \<not> complete then (h1, broadcast msin h1)
         else (h1, send_evaluator ((msg_of ''epochsum'')\<lparr>m_Blobs := EpochCiphertexts a\<rparr>) h1
                   @ broadcast msin h1))"

definition handle_epochsummed :: "wire_msg \<Rightarrow> hub \<Rightarrow> hub \<times> outbox" where
  "handle_epochsummed m h = (h, send_all ((msg_of ''epochdecrypt'')\<lparr>m_Blob := m_Blob m\<rparr>) h)"

definition handle_epochpartial :: "(f64 \<Rightarrow> f64) \<Rightarrow> string \<Rightarrow> wire_msg \<Rightarrow> hub \<Rightarrow> hub \<times> outbox" where
  "handle_epochpartial msin pid m h =
     (let (a, complete) = SubmitEpochPartial pid (m_Blob m) (h_auction h); h1 = upd_auction a h
      in if \<not> complete then (h1, broadcast msin h1)
         else (h1, send_all ((msg_of ''epochfuse'')\<lparr>m_Blobs := EpochPartials a\<rparr>) h1
                   @ broadcast msin h1))"

definition handle_epochresult :: "(f64 \<Rightarrow> f64) \<Rightarrow> wire_msg \<Rightarrow> hub \<Rightarrow> hub \<times> outbox" where
  "handle_epochresult msin m h =
     (let h1 = upd_auction (CloseEpoch (m_Price m) (m_Ok m) (h_auction h)) h in (h1, broadcast msin h1))"

definition handle_newepoch :: "(f64 \<Rightarrow> f64) \<Rightarrow> hub \<Rightarrow> hub \<times> outbox" where
  "handle_newepoch msin h =
     (let h1 = upd_auction (NewEpoch (h_auction h)) h
      in (h1, send_all (msg_of ''epochreset'') h1 @ broadcast msin h1))"

definition handle_reset :: "(f64 \<Rightarrow> f64) \<Rightarrow> hub \<Rightarrow> hub \<times> outbox" where
  "handle_reset msin h = (let h1 = upd_auction (Reset (h_auction h)) h in (h1, broadcast msin h1))"

definition handle_hour :: "(f64 \<Rightarrow> f64) \<Rightarrow> wire_msg \<Rightarrow> hub \<Rightarrow> hub \<times> outbox" where
  "handle_hour msin m h =
     (let h1 = upd_auction (SetHour (m_Hour m) (h_auction h)) h in (h1, broadcast msin h1))"

text \<open>The switch. A type it does not name is ignored; \<open>now\<close> is the clock read by \<open>Settle\<close>.\<close>

definition handle ::
  "(f64 \<Rightarrow> f64) \<Rightarrow> string \<Rightarrow> string \<Rightarrow> wire_msg \<Rightarrow> hub \<Rightarrow> (hub \<times> outbox) option" where
  "handle msin now pid m h =
     (if m_Type m = ''keys'' then Some (handle_keys msin m h)
      else if m_Type m = ''bid'' then Some (handle_bid msin pid m h)
      else if m_Type m = ''masks'' then Some (handle_masks msin m h)
      else if m_Type m = ''offer'' then Some (handle_offer msin m h)
      else if m_Type m = ''settle'' then Some (handle_settle msin now m h)
      else if m_Type m = ''epochstart'' then Some (handle_epochstart msin h)
      else if m_Type m = ''epochchained'' then handle_epochchained msin m h
      else if m_Type m = ''epochtotal'' then Some (handle_epochtotal msin pid m h)
      else if m_Type m = ''epochsummed'' then Some (handle_epochsummed m h)
      else if m_Type m = ''epochpartial'' then Some (handle_epochpartial msin pid m h)
      else if m_Type m = ''epochresult'' then Some (handle_epochresult msin m h)
      else if m_Type m = ''newepoch'' then Some (handle_newepoch msin h)
      else if m_Type m = ''reset'' then Some (handle_reset msin h)
      else if m_Type m = ''hour'' then Some (handle_hour msin m h)
      else Some (h, []))"

lemmas handle_defs = handle_keys_def handle_bid_def handle_masks_def handle_offer_def
  handle_settle_def handle_epochstart_def handle_epochchained_def handle_epochtotal_def
  handle_epochsummed_def handle_epochpartial_def handle_epochresult_def handle_newepoch_def
  handle_reset_def handle_hour_def

end
