(* ===== verification/Relay_Props.thy ===== *)
theory Relay_Props
  imports Relay
begin

text \<open>
  What the relay promises: it is blind (relabelling every key and ciphertext relabels its outputs
  and changes nothing else), it delivers key material and bids only to the role they are meant
  for, each message is at most one call on the auction, it never panics, and the ids it hands out
  keep connections, seats and the auction's peers in step under every interleaving.
\<close>

section \<open>One message is at most one call on the auction\<close>

lemma hub_parts [simp]:
  "h_auction (upd_auction a h) = a" "h_conns (upd_auction a h) = h_conns h"
  "h_order (upd_auction a h) = h_order h" "h_nextID (upd_auction a h) = h_nextID h"
  by (simp_all add: upd_auction_def)

lemma handle_cases:
  assumes "handle msin now pid m h = Some (h', out)"
  obtains "(h', out) = handle_keys msin m h" | "(h', out) = handle_bid msin pid m h"
    | "(h', out) = handle_masks msin m h" | "(h', out) = handle_offer msin m h"
    | "(h', out) = handle_settle msin now m h" | "(h', out) = handle_epochstart msin h"
    | "Some (h', out) = handle_epochchained msin m h" | "(h', out) = handle_epochtotal msin pid m h"
    | "(h', out) = handle_epochsummed m h" | "(h', out) = handle_epochpartial msin pid m h"
    | "(h', out) = handle_epochresult msin m h" | "(h', out) = handle_newepoch msin h"
    | "(h', out) = handle_reset msin h" | "(h', out) = handle_hour msin m h"
    | "(h', out) = (h, [])"
proof -
  have "handle msin now pid m h \<in> {Some (handle_keys msin m h), Some (handle_bid msin pid m h),
      Some (handle_masks msin m h), Some (handle_offer msin m h), Some (handle_settle msin now m h),
      Some (handle_epochstart msin h), handle_epochchained msin m h, Some (handle_epochtotal msin pid m h),
      Some (handle_epochsummed m h), Some (handle_epochpartial msin pid m h),
      Some (handle_epochresult msin m h), Some (handle_newepoch msin h), Some (handle_reset msin h),
      Some (handle_hour msin m h), Some (h, [])}"
    unfolding handle_def by simp
  then show thesis unfolding assms
    by (elim insertE emptyE) (simp_all only: option.inject that)
qed

lemma op_keys [simp]:
  "keys (a_peers (PublishKeys pk ek a)) = keys (a_peers a)"
  "keys (a_peers (fst (SubmitBid pid k ct a))) = keys (a_peers a)"
  "keys (a_peers (SetMasks ms a)) = keys (a_peers a)"
  "keys (a_peers (Offer seat price a)) = keys (a_peers a)"
  "keys (a_peers (fst (Settle now ok a))) = keys (a_peers a)"
  "keys (a_peers (fst (StartEpochChain a))) = keys (a_peers a)"
  "keys (a_peers (fst (AdvanceEpochChain pk a))) = keys (a_peers a)"
  "keys (a_peers (fst (SubmitEpochTotal pid ct a))) = keys (a_peers a)"
  "keys (a_peers (fst (SubmitEpochPartial pid ct a))) = keys (a_peers a)"
  "keys (a_peers (CloseEpoch net ok a)) = keys (a_peers a)"
  "keys (a_peers (NewEpoch a)) = keys (a_peers a)" "keys (a_peers (Reset a)) = keys (a_peers a)"
  "keys (a_peers (SetHour hr a)) = keys (a_peers a)"
proof -
  show "keys (a_peers (fst (SubmitBid pid k ct a))) = keys (a_peers a)"
    by (auto simp: SubmitBid_def Let_def gomap_simps split: option.split dest!: map_of_in_keys)
qed (simp_all add: resetLocked_def Reset_def SetHour_def PublishKeys_def SetMasks_def Offer_def
      Settle_def StartEpochChain_def AdvanceEpochChain_def SubmitEpochPartial_def
      SubmitEpochTotal_def CloseEpoch_def NewEpoch_def Let_def)

definition single_call :: "hub \<Rightarrow> hub \<Rightarrow> bool" where
  "single_call h h' \<longleftrightarrow> h' = upd_auction (h_auction h') h
     \<and> keys (a_peers (h_auction h')) = keys (a_peers (h_auction h))
     \<and> (h_auction h' = h_auction h \<or> auction_step (h_auction h) (h_auction h'))"

lemma single_callI:
  "auction_step (h_auction h) a \<Longrightarrow> keys (a_peers a) = keys (a_peers (h_auction h)) \<Longrightarrow>
   h' = upd_auction a h \<Longrightarrow> single_call h h'"
  by (simp add: single_call_def)

lemma handle_one_step:
  assumes "handle msin now pid m h = Some (h', out)"
  shows "single_call h h'"
  using assms
proof (cases rule: handle_cases)
  case 1
  then show ?thesis by (intro single_callI [OF st_PublishKeys op_keys(1)]) (simp add: handle_keys_def Let_def)
next
  case 2
  then show ?thesis
    by (intro single_callI [OF st_SubmitBid op_keys(2)])
      (simp add: handle_bid_def Let_def case_prod_beta split: bid_result.splits)
next
  case 3
  then show ?thesis by (intro single_callI [OF st_SetMasks op_keys(3)]) (simp add: handle_masks_def Let_def case_prod_beta)
next
  case 4
  then show ?thesis by (intro single_callI [OF st_Offer op_keys(4)]) (simp add: handle_offer_def Let_def)
next
  case 5
  then show ?thesis by (intro single_callI [OF st_Settle op_keys(5)]) (simp add: handle_settle_def Let_def case_prod_beta)
next
  case 6
  then show ?thesis
    by (intro single_callI [OF st_StartEpochChain op_keys(6)]) (simp add: handle_epochstart_def Let_def case_prod_beta)
next
  case 7
  then show ?thesis
    by (intro single_callI [OF st_AdvanceEpochChain op_keys(7)])
      (simp add: handle_epochchained_def Let_def case_prod_beta split: option.splits)
next
  case 8
  then show ?thesis
    by (intro single_callI [OF st_SubmitEpochTotal op_keys(8)])
      (simp add: handle_epochtotal_def Let_def case_prod_beta split: if_splits)
next
  case 9
  then show ?thesis by (simp add: handle_epochsummed_def single_call_def upd_auction_def)
next
  case 10
  then show ?thesis
    by (intro single_callI [OF st_SubmitEpochPartial op_keys(9)])
      (simp add: handle_epochpartial_def Let_def case_prod_beta split: if_splits)
next
  case 11
  then show ?thesis by (intro single_callI [OF st_CloseEpoch op_keys(10)]) (simp add: handle_epochresult_def Let_def)
next
  case 12
  then show ?thesis by (intro single_callI [OF st_NewEpoch op_keys(11)]) (simp add: handle_newepoch_def Let_def)
next
  case 13
  then show ?thesis by (intro single_callI [OF st_Reset op_keys(12)]) (simp add: handle_reset_def Let_def)
next
  case 14
  then show ?thesis by (intro single_callI [OF st_SetHour op_keys(13)]) (simp add: handle_hour_def Let_def)
next
  case 15
  then show ?thesis by (simp add: single_call_def upd_auction_def)
qed

section \<open>The relay never panics\<close>

lemma AdvanceEpochChain_defined:
  assumes "auction_inv a"
  shows "snd (AdvanceEpochChain pk a) \<noteq> None"
proof -
  have "0 \<le> a_chainPos a" using assms by (simp add: auction_inv_def epoch_inv_def)
  then show ?thesis by (auto simp: AdvanceEpochChain_def Let_def nth_opt_def split: option.splits)
qed

lemma handle_total: "auction_inv (h_auction h) \<Longrightarrow> handle msin now pid m h \<noteq> None"
  using AdvanceEpochChain_defined [of "h_auction h" "m_Blob m"]
  by (auto simp: handle_def handle_epochchained_def Let_def split: option.splits prod.splits)

section \<open>Blindness\<close>

definition map_vals :: "('b \<Rightarrow> 'c) \<Rightarrow> ('a, 'b) gomap \<Rightarrow> ('a, 'c) gomap" where
  "map_vals f m = map (\<lambda>(k, v). (k, f v)) m"

lemma map_vals_simps [simp]:
  "map_vals f [] = []"
  "length (map_vals f m) = length m"
  "AList.update k (f v) (map_vals f m) = map_vals f (AList.update k v m)"
  by (auto simp: map_vals_def) (induction m, auto)

lemma map_of_map_vals [simp]: "map_of (map_vals f m) k = map_option f (map_of m k)"
  by (induction m) (auto simp: map_vals_def)

text \<open>Relabelling every key, ciphertext, mask and share the auction stores.\<close>

definition map_auction :: "(bytes \<Rightarrow> bytes) \<Rightarrow> auction \<Rightarrow> auction" where
  "map_auction f a = a\<lparr>a_pubKey := f (a_pubKey a), a_evalKey := f (a_evalKey a),
     a_bids := map_vals f (a_bids a), a_masks := map f (a_masks a), a_epochKey := f (a_epochKey a),
     a_epochTotals := map_vals f (a_epochTotals a), a_epochPartials := map_vals f (a_epochPartials a)\<rparr>"

definition map_hub :: "(bytes \<Rightarrow> bytes) \<Rightarrow> hub \<Rightarrow> hub" where
  "map_hub f h = h\<lparr>h_auction := map_auction f (h_auction h)\<rparr>"

text \<open>The same in what a client sends (the evaluation key travels in the note of a \<open>keys\<close> message)
  and in what the relay writes.\<close>

definition in_msg :: "(bytes \<Rightarrow> bytes) \<Rightarrow> wire_msg \<Rightarrow> wire_msg" where
  "in_msg f m = m\<lparr>m_Blob := f (m_Blob m), m_Blobs := map f (m_Blobs m),
     m_Note := (if m_Type m = ''keys'' then f (m_Note m) else m_Note m)\<rparr>"

definition out_msg :: "(bytes \<Rightarrow> bytes) \<Rightarrow> wire_msg \<Rightarrow> wire_msg" where
  "out_msg f m = m\<lparr>m_Blob := f (m_Blob m), m_Blobs := map f (m_Blobs m), m_Bids := map f (m_Bids m)\<rparr>"

definition out_box :: "(bytes \<Rightarrow> bytes) \<Rightarrow> outbox \<Rightarrow> outbox" where
  "out_box f out = map (\<lambda>(pid, m). (pid, out_msg f m)) out"

locale relabelling =
  fixes f :: "bytes \<Rightarrow> bytes"
  assumes empty_iff: "f x = [] \<longleftrightarrow> x = []"
begin

lemma f_Nil [simp]: "f [] = []"
  by (simp add: empty_iff)

lemma map_auction_parts [simp]:
  "a_peers (map_auction f a) = a_peers a" "a_order (map_auction f a) = a_order a"
  "a_Hour (map_auction f a) = a_Hour a" "a_phase (map_auction f a) = a_phase a"
  "a_keyID (map_auction f a) = a_keyID a" "a_winnerSeat (map_auction f a) = a_winnerSeat a"
  "a_priceCt (map_auction f a) = a_priceCt a" "a_trades (map_auction f a) = a_trades a"
  "a_epoch (map_auction f a) = a_epoch a" "a_epochNet (map_auction f a) = a_epochNet a"
  "a_epochOK (map_auction f a) = a_epochOK a" "a_epochOpened (map_auction f a) = a_epochOpened a"
  "a_chainPos (map_auction f a) = a_chainPos a" "a_epochParty (map_auction f a) = a_epochParty a"
  "a_epochAbort (map_auction f a) = a_epochAbort a"
  "a_pubKey (map_auction f a) = f (a_pubKey a)"
  "a_bids (map_auction f a) = map_vals f (a_bids a)"
  "a_epochTotals (map_auction f a) = map_vals f (a_epochTotals a)"
  "a_epochPartials (map_auction f a) = map_vals f (a_epochPartials a)"
  by (simp_all add: map_auction_def)

lemma map_reads [simp]:
  "seller (map_auction f a) = seller a" "buyerCount (map_auction f a) = buyerCount a"
  "Evaluator (map_auction f a) = Evaluator a" "evaluatorLocked (map_auction f a) = evaluatorLocked a"
  "SellerID (map_auction f a) = SellerID a" "PeerAtSeat seat (map_auction f a) = PeerAtSeat seat a"
  "KeyID (map_auction f a) = KeyID a" "Snapshot msin (map_auction f a) = Snapshot msin a"
  by (simp_all add: seller_def buyerCount_def Evaluator_def evaluatorLocked_def SellerID_def
      PeerAtSeat_def KeyID_def Snapshot_def empty_iff)

lemma collect_bids_map:
  "collect_bids (map_vals f bids) l = (map f (fst (collect_bids bids l)), snd (collect_bids bids l))"
  by (induction l) (auto simp: Let_def split: option.splits prod.splits)

lemma map_gathers [simp]:
  "OrderedBids (map_auction f a) = (map f (fst (OrderedBids a)), snd (OrderedBids a))"
  "EpochCiphertexts (map_auction f a) = map f (EpochCiphertexts a)"
  "EpochPartials (map_auction f a) = map f (EpochPartials a)"
proof -
  have g: "List.map_filter (map_of (map_vals f m)) xs = map f (List.map_filter (map_of m) xs)" for m :: "(string, bytes) gomap" and xs
    by (induction xs) (auto simp: List.map_filter_simps split: option.split)
  show "EpochCiphertexts (map_auction f a) = map f (EpochCiphertexts a)"
    "EpochPartials (map_auction f a) = map f (EpochPartials a)"
    by (simp_all add: EpochCiphertexts_def EpochPartials_def g)
  show "OrderedBids (map_auction f a) = (map f (fst (OrderedBids a)), snd (OrderedBids a))"
    by (simp add: OrderedBids_def collect_bids_map)
qed

lemma map_resets:
  "resetLocked (map_auction f a) = map_auction f (resetLocked a)"
  "Join pid (map_auction f a) = (map_auction f (fst (Join pid a)), snd (Join pid a))"
  "SetHour hr (map_auction f a) = map_auction f (SetHour hr a)"
  "NewEpoch (map_auction f a) = map_auction f (NewEpoch a)"
  "PublishKeys (f pk) (f ek) (map_auction f a) = map_auction f (PublishKeys pk ek a)"
  by (simp_all add: resetLocked_def Join_def SetHour_def NewEpoch_def PublishKeys_def Let_def
      seller_def buyerCount_def map_auction_def)

lemma map_Leave: "Leave pid (map_auction f a) = map_auction f (Leave pid a)"
proof -
  have "leave_round pid (map_auction f a) = map_auction f (leave_round pid a)"
    by (cases "map_of (a_peers a) pid") (auto simp: leave_round_def Let_def map_auction_def resetLocked_def)
  then show ?thesis by (auto simp: Leave_eq Let_def map_auction_def)
qed

lemma map_SubmitBid:
  "SubmitBid pid k (f ct) (map_auction f a) = (map_auction f (fst (SubmitBid pid k ct a)), snd (SubmitBid pid k ct a))"
proof (cases "\<exists>p. map_of (a_peers a) pid = Some p \<and> p_Role p = RoleBuyer
    \<and> a_phase a = PhaseBidding \<and> k = a_keyID a")
  case False
  then show ?thesis using SubmitBid_rejected [of a pid k ct] SubmitBid_rejected [of "map_auction f a" pid k "f ct"]
    by simp
next
  case True
  then obtain p where p: "map_of (a_peers a) pid = Some p" "p_Role p = RoleBuyer"
    "a_phase a = PhaseBidding" "k = a_keyID a" by blast
  show ?thesis
    using SubmitBid_accepted [OF p, of ct] SubmitBid_accepted [of "map_auction f a" pid p k "f ct"] p
    by (simp add: Let_def buyerCount_def) (simp add: map_auction_def)
qed

lemma map_Settle:
  "Settle now ok (map_auction f a) = (map_auction f (fst (Settle now ok a)), snd (Settle now ok a))"
proof (cases "a_winnerSeat a < 0")
  case True
  then show ?thesis by (simp add: Settle_def)
next
  case False
  then show ?thesis by (simp add: Settle_def Let_def) (simp add: map_auction_def resetLocked_def)
qed

lemma map_offers:
  "SetMasks (map f ms) (map_auction f a) = map_auction f (SetMasks ms a)"
  "Offer seat price (map_auction f a) = map_auction f (Offer seat price a)"
  "CloseEpoch net ok (map_auction f a) = map_auction f (CloseEpoch net ok a)"
  by (simp_all add: SetMasks_def Offer_def CloseEpoch_def map_auction_def)

lemma map_chain:
  "StartEpochChain (map_auction f a) = (map_auction f (fst (StartEpochChain a)), snd (StartEpochChain a))"
  "AdvanceEpochChain (f pk) (map_auction f a) = (map_auction f (fst (AdvanceEpochChain pk a)), snd (AdvanceEpochChain pk a))"
  by (simp_all add: StartEpochChain_def AdvanceEpochChain_def Let_def) (simp_all add: map_auction_def)

lemma map_haveAll: "haveAllLocked a (map_vals f m) = haveAllLocked a m"
  by (simp add: haveAllLocked_def)

lemma map_contributions:
  "SubmitEpochTotal pid (f ct) (map_auction f a) = (map_auction f (fst (SubmitEpochTotal pid ct a)), snd (SubmitEpochTotal pid ct a))"
  "SubmitEpochPartial pid (f ct) (map_auction f a) = (map_auction f (fst (SubmitEpochPartial pid ct a)), snd (SubmitEpochPartial pid ct a))"
  by (simp_all add: SubmitEpochTotal_def SubmitEpochPartial_def Let_def)
    (simp_all add: map_auction_def haveAllLocked_def)

lemmas map_ops = map_resets map_Leave map_SubmitBid map_Settle map_offers map_chain map_contributions

lemma map_hub_parts [simp]:
  "h_auction (map_hub f h) = map_auction f (h_auction h)" "h_conns (map_hub f h) = h_conns h"
  "h_order (map_hub f h) = h_order h" "h_nextID (map_hub f h) = h_nextID h"
  "upd_auction (map_auction f a) (map_hub f h) = map_hub f (upd_auction a h)"
  by (simp_all add: map_hub_def upd_auction_def)

lemma out_box_append [simp]: "out_box f (xs @ ys) = out_box f xs @ out_box f ys" "out_box f [] = []"
  by (simp_all add: out_box_def)

lemma map_send: "send pid (out_msg f m) (map_hub f h) = out_box f (send pid m h)"
  by (simp add: send_def out_box_def split: option.split)

lemma out_box_concat: "out_box f (concat (map g xs)) = concat (map (\<lambda>x. out_box f (g x)) xs)"
  by (induction xs) simp_all

lemma map_send_all: "send_all (out_msg f m) (map_hub f h) = out_box f (send_all m h)"
  by (simp add: send_all_def peerIDs_def map_send out_box_concat)

lemma map_send_evaluator: "send_evaluator (out_msg f m) (map_hub f h) = out_box f (send_evaluator m h)"
  by (simp add: send_evaluator_def map_send split: option.split)

lemma out_msg_of [simp]:
  "out_msg f (msg_of t) = msg_of t"
  "out_msg f ((msg_of t)\<lparr>m_You := y, m_State := s\<rparr>) = (msg_of t)\<lparr>m_You := y, m_State := s\<rparr>"
  by (simp_all add: out_msg_def msg_of_def)

lemma map_broadcast: "broadcast msin (map_hub f h) = out_box f (broadcast msin h)"
proof -
  have "send pid ((msg_of t)\<lparr>m_You := y, m_State := s\<rparr>) (map_hub f h)
      = out_box f (send pid ((msg_of t)\<lparr>m_You := y, m_State := s\<rparr>) h)" for pid t y s
    using map_send [of pid "(msg_of t)\<lparr>m_You := y, m_State := s\<rparr>" h] by simp
  then show ?thesis by (simp add: broadcast_def Let_def out_box_concat)
qed

lemma out_msg_shapes:
  "out_msg f ((msg_of t)\<lparr>m_Blob := b\<rparr>) = (msg_of t)\<lparr>m_Blob := f b\<rparr>"
  "out_msg f ((msg_of t)\<lparr>m_Blob := b, m_KeyID := k\<rparr>) = (msg_of t)\<lparr>m_Blob := f b, m_KeyID := k\<rparr>"
  "out_msg f ((msg_of t)\<lparr>m_KeyID := k\<rparr>) = (msg_of t)\<lparr>m_KeyID := k\<rparr>"
  "out_msg f ((msg_of t)\<lparr>m_Blobs := bs, m_Note := n\<rparr>) = (msg_of t)\<lparr>m_Blobs := map f bs, m_Note := n\<rparr>"
  "out_msg f ((msg_of t)\<lparr>m_Blobs := bs, m_Bids := cs, m_Note := n\<rparr>)
     = (msg_of t)\<lparr>m_Blobs := map f bs, m_Bids := map f cs, m_Note := n\<rparr>"
  "out_msg f ((msg_of t)\<lparr>m_Blobs := bs\<rparr>) = (msg_of t)\<lparr>m_Blobs := map f bs\<rparr>"
  "out_msg f ((msg_of t)\<lparr>m_Seat := st, m_Price := p\<rparr>) = (msg_of t)\<lparr>m_Seat := st, m_Price := p\<rparr>"
  by (simp_all add: out_msg_def msg_of_def)

lemmas map_sends = map_send [where m = "(msg_of t)\<lparr>m_KeyID := k\<rparr>" for t k, unfolded out_msg_shapes]
  map_send [where m = "(msg_of t)\<lparr>m_Blob := b\<rparr>" for t b, unfolded out_msg_shapes]
  map_send [where m = "(msg_of t)\<lparr>m_Blobs := bs, m_Bids := cs, m_Note := n\<rparr>" for t bs cs n, unfolded out_msg_shapes]
  map_send [where m = "(msg_of t)\<lparr>m_Seat := st, m_Price := p\<rparr>" for t st p, unfolded out_msg_shapes]
  map_send [where m = "msg_of t" for t, unfolded out_msg_of]
  map_send_all [where m = "(msg_of t)\<lparr>m_Blob := b, m_KeyID := k\<rparr>" for t b k, unfolded out_msg_shapes]
  map_send_all [where m = "(msg_of t)\<lparr>m_Blob := b\<rparr>" for t b, unfolded out_msg_shapes]
  map_send_all [where m = "(msg_of t)\<lparr>m_Blobs := bs\<rparr>" for t bs, unfolded out_msg_shapes]
  map_send_all [where m = "msg_of t" for t, unfolded out_msg_of]
  map_send_evaluator [where m = "(msg_of t)\<lparr>m_Blob := b\<rparr>" for t b, unfolded out_msg_shapes]
  map_send_evaluator [where m = "(msg_of t)\<lparr>m_Blobs := bs, m_Note := n\<rparr>" for t bs n, unfolded out_msg_shapes]
  map_send_evaluator [where m = "(msg_of t)\<lparr>m_Blobs := bs\<rparr>" for t bs, unfolded out_msg_shapes]

lemma in_msg_parts [simp]:
  "m_Type (in_msg f m) = m_Type m" "m_Blob (in_msg f m) = f (m_Blob m)"
  "m_Blobs (in_msg f m) = map f (m_Blobs m)" "m_KeyID (in_msg f m) = m_KeyID m"
  "m_Seat (in_msg f m) = m_Seat m" "m_Price (in_msg f m) = m_Price m" "m_Ok (in_msg f m) = m_Ok m"
  "m_Hour (in_msg f m) = m_Hour m"
  "m_Type m = ''keys'' \<Longrightarrow> m_Note (in_msg f m) = f (m_Note m)"
  by (simp_all add: in_msg_def)

lemma map_handle_round:
  "m_Type m = ''keys'' \<Longrightarrow> handle_keys msin (in_msg f m) (map_hub f h) = map_prod (map_hub f) (out_box f) (handle_keys msin m h)"
  "handle_bid msin pid (in_msg f m) (map_hub f h) = map_prod (map_hub f) (out_box f) (handle_bid msin pid m h)"
  "handle_masks msin (in_msg f m) (map_hub f h) = map_prod (map_hub f) (out_box f) (handle_masks msin m h)"
  "handle_offer msin (in_msg f m) (map_hub f h) = map_prod (map_hub f) (out_box f) (handle_offer msin m h)"
  by (simp_all add: handle_keys_def handle_bid_def handle_masks_def handle_offer_def
      Let_def map_ops map_broadcast map_sends case_prod_beta split: bid_result.split)

lemma map_handle_settle:
  "handle_settle msin now (in_msg f m) (map_hub f h) = map_prod (map_hub f) (out_box f) (handle_settle msin now m h)"
  by (cases "Settle now (m_Ok m) (h_auction h)")
    (auto simp: handle_settle_def Let_def map_ops map_broadcast map_sends)

lemma map_handle_epoch:
  "handle_epochstart msin (map_hub f h) = map_prod (map_hub f) (out_box f) (handle_epochstart msin h)"
  "handle_epochchained msin (in_msg f m) (map_hub f h) = map_option (map_prod (map_hub f) (out_box f)) (handle_epochchained msin m h)"
  "handle_epochtotal msin pid (in_msg f m) (map_hub f h) = map_prod (map_hub f) (out_box f) (handle_epochtotal msin pid m h)"
  "handle_epochsummed (in_msg f m) (map_hub f h) = map_prod (map_hub f) (out_box f) (handle_epochsummed m h)"
  "handle_epochpartial msin pid (in_msg f m) (map_hub f h) = map_prod (map_hub f) (out_box f) (handle_epochpartial msin pid m h)"
  "handle_epochresult msin (in_msg f m) (map_hub f h) = map_prod (map_hub f) (out_box f) (handle_epochresult msin m h)"
  "handle_newepoch msin (map_hub f h) = map_prod (map_hub f) (out_box f) (handle_newepoch msin h)"
  "handle_reset msin (map_hub f h) = map_prod (map_hub f) (out_box f) (handle_reset msin h)"
  "handle_hour msin (in_msg f m) (map_hub f h) = map_prod (map_hub f) (out_box f) (handle_hour msin m h)"
  by (simp_all add: handle_epochstart_def handle_epochchained_def handle_epochtotal_def
      handle_epochsummed_def handle_epochpartial_def handle_epochresult_def handle_newepoch_def
      handle_reset_def handle_hour_def Reset_def Let_def map_ops map_broadcast map_sends case_prod_beta
      split: option.split)

lemma map_handle:
  "handle msin now pid (in_msg f m) (map_hub f h) = map_option (map_prod (map_hub f) (out_box f)) (handle msin now pid m h)"
  unfolding handle_def by (simp add: map_handle_round map_handle_settle map_handle_epoch)

lemma map_serveWS:
  "serveWS_open msin c (map_hub f h) = map_prod (map_hub f) (out_box f) (serveWS_open msin c h)"
  "serveWS_close msin pid (map_hub f h) = map_prod (map_hub f) (out_box f) (serveWS_close msin pid h)"
proof -
  have a: "accept_conn c (map_hub f h) = map_prod (map_hub f) (\<lambda>x. x) (accept_conn c h)"
    by (simp add: accept_conn_def Let_def map_hub_def)
  have j: "join_conn q (map_hub f k) = map_hub f (join_conn q k)"
    "drop_conn q (map_hub f k) = map_hub f (drop_conn q k)"
    "leave_conn q (map_hub f k) = map_hub f (leave_conn q k)" for q k
    by (simp_all add: join_conn_def drop_conn_def leave_conn_def map_ops map_hub_def)
  show "serveWS_open msin c (map_hub f h) = map_prod (map_hub f) (out_box f) (serveWS_open msin c h)"
    by (simp add: serveWS_open_def a j Let_def map_broadcast case_prod_beta)
  show "serveWS_close msin pid (map_hub f h) = map_prod (map_hub f) (out_box f) (serveWS_close msin pid h)"
    by (simp add: serveWS_close_def j Let_def map_broadcast)
qed

end

section \<open>Runs\<close>

text \<open>What happens at the listening socket: connections open, messages arrive, connections close.\<close>

datatype relay_event = Opened sock | Received string string wire_msg | Closed string

fun relay_event_step :: "(f64 \<Rightarrow> f64) \<Rightarrow> relay_event \<Rightarrow> hub \<Rightarrow> (hub \<times> outbox) option" where
  "relay_event_step msin (Opened c) h = Some (serveWS_open msin c h)"
| "relay_event_step msin (Received now pid m) h = handle msin now pid m h"
| "relay_event_step msin (Closed pid) h = Some (serveWS_close msin pid h)"

fun relay_run :: "(f64 \<Rightarrow> f64) \<Rightarrow> relay_event list \<Rightarrow> hub \<Rightarrow> (hub \<times> outbox) option" where
  "relay_run msin [] h = Some (h, [])"
| "relay_run msin (e # es) h =
     (case relay_event_step msin e h of
        None \<Rightarrow> None
      | Some (h1, out1) \<Rightarrow>
          (case relay_run msin es h1 of None \<Rightarrow> None | Some (h2, out2) \<Rightarrow> Some (h2, out1 @ out2)))"

definition in_event :: "(bytes \<Rightarrow> bytes) \<Rightarrow> relay_event \<Rightarrow> relay_event" where
  "in_event f e = (case e of Received now pid m \<Rightarrow> Received now pid (in_msg f m) | _ \<Rightarrow> e)"

context relabelling
begin

lemma map_event_step:
  "relay_event_step msin (in_event f e) (map_hub f h)
     = map_option (map_prod (map_hub f) (out_box f)) (relay_event_step msin e h)"
  by (cases e) (simp_all add: in_event_def map_handle map_serveWS)

lemma map_run:
  "relay_run msin (map (in_event f) es) (map_hub f h)
     = map_option (map_prod (map_hub f) (out_box f)) (relay_run msin es h)"
  by (induction es arbitrary: h) (simp_all add: map_event_step split: option.split prod.split)

lemma map_new_hub: "map_hub f new_hub = new_hub"
  by (simp add: map_hub_def new_hub_def map_auction_def NewAuction_def)

end

text \<open>The public view: every payload erased to a marker. Relabelling by erasure shows that what the
  relay does depends on the events only up to their payloads.\<close>

definition erase_payload :: "bytes \<Rightarrow> bytes" where
  "erase_payload x = (if x = [] then [] else ''*'')"

interpretation erase: relabelling erase_payload
  by unfold_locales (simp add: erase_payload_def)

lemma relay_public_view:
  assumes "map (in_event erase_payload) es = map (in_event erase_payload) es'"
  shows "map_option (out_box erase_payload \<circ> snd) (relay_run msin es new_hub)
       = map_option (out_box erase_payload \<circ> snd) (relay_run msin es' new_hub)"
proof -
  have e: "map_option (out_box erase_payload \<circ> snd) (relay_run msin xs new_hub)
      = map_option snd (relay_run msin (map (in_event erase_payload) xs) new_hub)" for xs
    using erase.map_run [of msin xs new_hub]
    by (simp add: erase.map_new_hub option.map_comp comp_def)
  show ?thesis unfolding e assms ..
qed

section \<open>Who receives what\<close>

lemma in_send: "(q, o') \<in> set (send pid m h) \<longleftrightarrow> q = pid \<and> o' = m \<and> pid \<in> keys (h_conns h)"
  using map_of_isSome [of "h_conns h" pid] by (cases "map_of (h_conns h) pid") (auto simp: send_def)

lemma in_send_all:
  "(q, o') \<in> set (send_all m h) \<longleftrightarrow> q \<in> set (h_order h) \<and> o' = m \<and> q \<in> keys (h_conns h)"
  by (auto simp: send_all_def peerIDs_def in_send)

lemma in_send_evaluator:
  "(q, o') \<in> set (send_evaluator m h) \<longleftrightarrow>
     (\<exists>ev. Evaluator (h_auction h) = Some ev \<and> q = p_ID ev) \<and> o' = m \<and> q \<in> keys (h_conns h)"
  by (cases "Evaluator (h_auction h)") (auto simp: send_evaluator_def in_send)

lemma in_broadcast:
  "(q, o') \<in> set (broadcast msin h) \<longleftrightarrow> q \<in> set (h_order h) \<and> q \<in> keys (h_conns h)
     \<and> o' = (msg_of ''state'')\<lparr>m_You := q, m_State := Some (Snapshot msin (h_auction h))\<rparr>"
  by (auto simp: broadcast_def Let_def in_send)

lemmas in_sends = in_send in_send_all in_send_evaluator in_broadcast

text \<open>Where a message may go, by its type, and what its type lets it carry.\<close>

definition addressed :: "(f64 \<Rightarrow> f64) \<Rightarrow> hub \<Rightarrow> string \<Rightarrow> wire_msg \<Rightarrow> bool" where
  "addressed msin h q o' \<longleftrightarrow> q \<in> keys (h_conns h)
     \<and> (m_Type o' \<in> {''evalkey'', ''evaluate'', ''epochsum''} \<longrightarrow>
          (\<exists>ev. Evaluator (h_auction h) = Some ev \<and> q = p_ID ev))
     \<and> (m_Type o' = ''masks'' \<longrightarrow> q = SellerID (h_auction h))
     \<and> (m_Type o' = ''won'' \<longrightarrow> q = PeerAtSeat (m_Seat o') (h_auction h))
     \<and> (m_State o' \<noteq> None \<longrightarrow> m_State o' = Some (Snapshot msin (h_auction h)))
     \<and> (m_Bids o' \<noteq> [] \<longrightarrow> m_Type o' = ''masks'')
     \<and> (m_Blobs o' \<noteq> [] \<longrightarrow> m_Type o' \<in> {''evaluate'', ''masks'', ''epochsum'', ''epochfuse''})
     \<and> (m_Blob o' \<noteq> [] \<longrightarrow> m_Type o' \<in> {''pubkey'', ''evalkey'', ''epochchain'', ''epochkey'', ''epochdecrypt''})"

lemma handle_addressed:
  assumes "handle msin now pid m h = Some (h', out)" "(q, o') \<in> set out"
  shows "addressed msin h' q o'"
  using assms(1)
proof (cases rule: handle_cases)
  case 1
  with assms(2) show ?thesis by (auto simp: handle_keys_def Let_def in_sends addressed_def msg_of_def)
next
  case 2
  with assms(2) show ?thesis
    by (auto simp: handle_bid_def Let_def in_sends addressed_def msg_of_def case_prod_beta split: bid_result.splits)
next
  case 3
  with assms(2) show ?thesis
    by (auto simp: handle_masks_def Let_def in_sends addressed_def msg_of_def case_prod_beta split: if_splits)
next
  case 4
  with assms(2) show ?thesis by (auto simp: handle_offer_def Let_def in_sends addressed_def msg_of_def)
next
  case 5
  with assms(2) show ?thesis
    by (auto simp: handle_settle_def Let_def in_sends addressed_def msg_of_def case_prod_beta split: if_splits)
next
  case 6
  with assms(2) show ?thesis
    by (auto simp: handle_epochstart_def Let_def in_sends addressed_def msg_of_def case_prod_beta split: if_splits)
next
  case 7
  with assms(2) show ?thesis
    by (auto simp: handle_epochchained_def Let_def in_sends addressed_def msg_of_def case_prod_beta
        split: option.splits if_splits)
next
  case 8
  with assms(2) show ?thesis
    by (auto simp: handle_epochtotal_def Let_def in_sends addressed_def msg_of_def case_prod_beta split: if_splits)
next
  case 9
  with assms(2) show ?thesis by (auto simp: handle_epochsummed_def in_sends addressed_def msg_of_def)
next
  case 10
  with assms(2) show ?thesis
    by (auto simp: handle_epochpartial_def Let_def in_sends addressed_def msg_of_def case_prod_beta split: if_splits)
next
  case 15
  with assms(2) show ?thesis by simp
qed (use assms(2) in \<open>auto simp: handle_epochresult_def handle_newepoch_def handle_reset_def
    handle_hour_def Let_def in_sends addressed_def msg_of_def\<close>)

section \<open>Interleavings of connections\<close>

text \<open>Each connection is served by its own goroutine, so the critical sections of opening, handling
  and closing interleave. \<open>r_pending\<close> holds the ids registered in the hub but not yet seated,
  \<open>r_leaving\<close> those unregistered but still seated.\<close>

record relay =
  r_hub :: hub
  r_pending :: "string set"
  r_leaving :: "string set"

definition new_relay :: relay where
  "new_relay = \<lparr>r_hub = new_hub, r_pending = {}, r_leaving = {}\<rparr>"

inductive relay_step :: "relay \<Rightarrow> relay \<Rightarrow> bool" where
  rs_accept: "accept_conn c (r_hub r) = (h, pid) \<Longrightarrow>
    relay_step r (r\<lparr>r_hub := h, r_pending := insert pid (r_pending r)\<rparr>)"
| rs_join: "pid \<in> r_pending r \<Longrightarrow>
    relay_step r (r\<lparr>r_hub := join_conn pid (r_hub r), r_pending := r_pending r - {pid}\<rparr>)"
| rs_handle: "pid \<in> keys (h_conns (r_hub r)) \<Longrightarrow> pid \<notin> r_pending r \<Longrightarrow>
    handle msin now pid m (r_hub r) = Some (h, out) \<Longrightarrow> relay_step r (r\<lparr>r_hub := h\<rparr>)"
| rs_drop: "pid \<in> keys (h_conns (r_hub r)) \<Longrightarrow> pid \<notin> r_pending r \<Longrightarrow>
    relay_step r (r\<lparr>r_hub := drop_conn pid (r_hub r), r_leaving := insert pid (r_leaving r)\<rparr>)"
| rs_leave: "pid \<in> r_leaving r \<Longrightarrow>
    relay_step r (r\<lparr>r_hub := leave_conn pid (r_hub r), r_leaving := r_leaving r - {pid}\<rparr>)"

definition issued :: "hub \<Rightarrow> string set" where
  "issued h = {''p'' @ itoa n |n. 1 \<le> n \<and> n \<le> h_nextID h}"

definition relay_inv :: "relay \<Rightarrow> bool" where
  "relay_inv r \<longleftrightarrow> auction_reachable (h_auction (r_hub r)) \<and> 0 \<le> h_nextID (r_hub r)
     \<and> gomap_wf (h_conns (r_hub r)) \<and> distinct (h_order (r_hub r))
     \<and> set (h_order (r_hub r)) = keys (h_conns (r_hub r))
     \<and> keys (h_conns (r_hub r)) \<subseteq> issued (r_hub r) \<and> r_leaving r \<subseteq> issued (r_hub r)
     \<and> r_pending r \<subseteq> keys (h_conns (r_hub r)) \<and> r_leaving r \<inter> keys (h_conns (r_hub r)) = {}
     \<and> keys (a_peers (h_auction (r_hub r))) = (keys (h_conns (r_hub r)) - r_pending r) \<union> r_leaving r"

lemma fresh_id:
  assumes "0 \<le> h_nextID h"
  shows "''p'' @ itoa (h_nextID h + 1) \<notin> issued h"
    and "issued h \<subseteq> issued (h\<lparr>h_nextID := h_nextID h + 1, h_conns := c, h_order := ord\<rparr>)"
    and "''p'' @ itoa (h_nextID h + 1) \<in> issued (h\<lparr>h_nextID := h_nextID h + 1, h_conns := c, h_order := ord\<rparr>)"
proof -
  show "''p'' @ itoa (h_nextID h + 1) \<notin> issued h"
    using assms itoa_nonneg_inj by (fastforce simp: issued_def)
qed (use assms in \<open>fastforce simp: issued_def\<close>)+

lemma relay_inv_accept:
  assumes "relay_inv r" "accept_conn c (r_hub r) = (h, pid)"
  shows "relay_inv (r\<lparr>r_hub := h, r_pending := insert pid (r_pending r)\<rparr>)"
proof -
  let ?h = "r_hub r"
  have n: "0 \<le> h_nextID ?h" using assms(1) by (simp add: relay_inv_def)
  have h: "h = ?h\<lparr>h_nextID := h_nextID ?h + 1, h_conns := AList.update pid c (h_conns ?h), h_order := h_order ?h @ [pid]\<rparr>"
    "pid = ''p'' @ itoa (h_nextID ?h + 1)"
    using assms(2) by (auto simp: accept_conn_def Let_def)
  have "pid \<notin> issued ?h" "issued ?h \<subseteq> issued h" "pid \<in> issued h"
    unfolding h(1) using fresh_id [OF n] by (simp_all add: h(2))
  then show ?thesis using assms(1) unfolding relay_inv_def
    by (auto simp: h(1) gomap_simps)
qed

lemma relay_inv_join:
  assumes "relay_inv r" "pid \<in> r_pending r"
  shows "relay_inv (r\<lparr>r_hub := join_conn pid (r_hub r), r_pending := r_pending r - {pid}\<rparr>)"
proof -
  have i: "auction_reachable (h_auction (r_hub r))" "pid \<in> keys (h_conns (r_hub r))"
    and p: "pid \<notin> keys (a_peers (h_auction (r_hub r)))"
    using assms by (auto simp: relay_inv_def)
  have "auction_reachable (fst (Join pid (h_auction (r_hub r))))" using i(1) p by (rule reachable_ops)
  moreover have "keys (a_peers (fst (Join pid a))) = insert pid (keys (a_peers a))" for a
    by (simp add: Join_def Let_def gomap_simps)
  ultimately show ?thesis using assms i(2) unfolding relay_inv_def
    by (auto simp: join_conn_def issued_def)
qed

lemma relay_inv_drop:
  assumes "relay_inv r" "pid \<in> keys (h_conns (r_hub r))" "pid \<notin> r_pending r"
  shows "relay_inv (r\<lparr>r_hub := drop_conn pid (r_hub r), r_leaving := insert pid (r_leaving r)\<rparr>)"
  using assms unfolding relay_inv_def by (auto simp: drop_conn_def gomap_simps issued_def)

lemma relay_inv_leave:
  assumes "relay_inv r" "pid \<in> r_leaving r"
  shows "relay_inv (r\<lparr>r_hub := leave_conn pid (r_hub r), r_leaving := r_leaving r - {pid}\<rparr>)"
proof -
  have "auction_reachable (Leave pid (h_auction (r_hub r)))"
    using assms(1) by (intro reachable_ops) (simp add: relay_inv_def)
  moreover have "keys (a_peers (Leave pid a)) = keys (a_peers a) - {pid}" for a
    by (simp add: Leave_eq Let_def frame_simps)
  ultimately show ?thesis using assms unfolding relay_inv_def
    by (auto simp: leave_conn_def issued_def)
qed

lemma relay_inv_handle:
  assumes "relay_inv r" "handle msin now pid m (r_hub r) = Some (h, out)"
  shows "relay_inv (r\<lparr>r_hub := h\<rparr>)"
proof -
  have s: "single_call (r_hub r) h" using assms(2) by (rule handle_one_step)
  have "auction_reachable (h_auction h)"
    using s assms(1) by (auto simp: single_call_def relay_inv_def intro: reach_step)
  moreover have "h_conns h = h_conns (r_hub r)" "h_order h = h_order (r_hub r)" "h_nextID h = h_nextID (r_hub r)"
    using s unfolding single_call_def by (metis hub_parts)+
  moreover have "keys (a_peers (h_auction h)) = keys (a_peers (h_auction (r_hub r)))"
    using s by (simp add: single_call_def)
  ultimately show ?thesis using assms(1) unfolding relay_inv_def by (simp add: issued_def)
qed

lemma relay_inv_step: "relay_inv r \<Longrightarrow> relay_step r s \<Longrightarrow> relay_inv s"
  by (erule relay_step.cases)
    (simp_all add: relay_inv_accept relay_inv_join relay_inv_drop relay_inv_leave relay_inv_handle)

lemma relay_inv_init: "relay_inv new_relay"
  using reach_start [of auction_step NewAuction]
  by (simp add: relay_inv_def new_relay_def new_hub_def) (simp add: NewAuction_def)

interpretation relay_sys: invariant_system relay_step new_relay relay_inv
  by unfold_locales (fact relay_inv_init, fact relay_inv_step)

lemma handle_states:
  assumes "handle msin now pid m h = Some (h', out)" "(q, o') \<in> set out" "m_State o' = Some s"
  shows "s = Snapshot msin (h_auction h')"
  using handle_addressed [OF assms(1,2)] assms(3) by (auto simp: addressed_def)


section \<open>Properties\<close>

text \<open>C1. The relay is blind. Replace every key, ciphertext, mask and decryption share a client sends
  by any other one (empty ones by empty ones): for every sequence of connections, messages and
  disconnections the relay keeps the same state and writes the same messages to the same peers in
  the same order, up to that same replacement; the snapshots it broadcasts do not change at all.\<close>

theorem relay_blind:
  assumes "\<And>x. f x = [] \<longleftrightarrow> x = []"
  shows "relay_run msin (map (in_event f) es) new_hub
    = map_option (map_prod (map_hub f) (out_box f)) (relay_run msin es new_hub)"
proof -
  have r: "relabelling f" using assms by (rule relabelling.intro)
  show ?thesis using relabelling.map_run [OF r, of msin es new_hub] relabelling.map_new_hub [OF r] by simp
qed

text \<open>C2. Who receives what, for every message the relay writes while handling one: it goes to a
  connected peer; the evaluation key, the sealed bids for evaluation and the totals to be summed go
  to the evaluator only, masks with the bids to the seller only, the notice of having won to the
  buyer on the winning seat only; and only those types (with the public keys and shares meant for
  everyone) carry key material or ciphertexts at all, so a broadcast snapshot carries none.\<close>

theorem handle_delivery:
  assumes "handle msin now pid m h = Some (h', out)" "(q, o') \<in> set out"
  shows "q \<in> keys (h_conns h')
     \<and> (m_Type o' \<in> {''evalkey'', ''evaluate'', ''epochsum''} \<longrightarrow>
          (\<exists>ev. Evaluator (h_auction h') = Some ev \<and> q = p_ID ev))
     \<and> (m_Type o' = ''masks'' \<longrightarrow> q = SellerID (h_auction h'))
     \<and> (m_Type o' = ''won'' \<longrightarrow> q = PeerAtSeat (m_Seat o') (h_auction h'))
     \<and> (m_Bids o' \<noteq> [] \<longrightarrow> m_Type o' = ''masks'')
     \<and> (m_Blobs o' \<noteq> [] \<longrightarrow> m_Type o' \<in> {''evaluate'', ''masks'', ''epochsum'', ''epochfuse''})
     \<and> (m_Blob o' \<noteq> [] \<longrightarrow> m_Type o' \<in> {''pubkey'', ''evalkey'', ''epochchain'', ''epochkey'', ''epochdecrypt''})"
  using handle_addressed [OF assms] unfolding addressed_def by blast


text \<open>No message from any client can crash the relay: in every reachable state each message is
  handled (the audit's key chain never indexes past its party), and every snapshot it triggers has
  a price band.\<close>

theorem relay_never_panics:
  assumes "reach relay_step new_relay r"
  shows "\<exists>h out. handle msin now pid m (r_hub r) = Some (h, out)
    \<and> (\<forall>q o' s. (q, o') \<in> set out \<and> m_State o' = Some s \<longrightarrow> s_band s \<noteq> None)"
proof -
  have inv: "relay_inv r" using assms by (rule relay_sys.reach_inv)
  then have a: "auction_inv (h_auction (r_hub r))" by (auto simp: relay_inv_def intro: auction_sys.reach_inv)
  obtain h out where h: "handle msin now pid m (r_hub r) = Some (h, out)"
    using handle_total [OF a, of msin now pid m] by fastforce
  have "relay_inv (r\<lparr>r_hub := h\<rparr>)" using inv h by (rule relay_inv_handle)
  then have "auction_inv (h_auction h)" by (auto simp: relay_inv_def intro: auction_sys.reach_inv)
  then have "s_band (Snapshot msin (h_auction h)) \<noteq> None"
    using BandAt_wf [of "a_Hour (h_auction h)" msin] by (auto simp: Snapshot_def auction_inv_def)
  then show ?thesis using h handle_states [OF h] by blast
qed

text \<open>Apart from bids, totals and decryption shares, the relay does not look at who sent a
  message: keys, masks, offers, settlements and every audit command have the same effect from any
  connected tab, whatever its role.\<close>

theorem handle_sender_unchecked:
  assumes "m_Type m \<notin> {''bid'', ''epochtotal'', ''epochpartial''}"
  shows "handle msin now pid m h = handle msin now pid' m h"
  using assms by (simp add: handle_def)

text \<open>When an offer is made, every connected tab is sent the winning seat together with the list
  of peers and their seats, so every tab can name the winner before anything is settled.\<close>

theorem offer_reveals_winner:
  assumes "auction_reachable (h_auction h)" "m_Type m = ''offer''"
    and "q \<in> set (h_order h)" "q \<in> keys (h_conns h)"
    and "p \<in> set (peer_list (h_auction h))" "p_Role p = RoleBuyer" "p_Seat p = m_Seat m"
  shows "\<exists>h' out o' s. handle msin now pid m h = Some (h', out) \<and> (q, o') \<in> set out
    \<and> m_State o' = Some s \<and> s_winner_seat s = m_Seat m
    \<and> (\<exists>w \<in> set (s_peers s). w = p \<and> p_Seat w = s_winner_seat s)"
proof -
  let ?h = "upd_auction (Offer (m_Seat m) (m_Price m) (h_auction h)) h"
  let ?s = "Snapshot msin (h_auction ?h)"
  have inv: "peers_inv (a_peers (h_auction h)) (a_order (h_auction h))"
    using auction_sys.reach_inv [OF assms(1)] by (simp add: auction_inv_def)
  from assms(5) obtain k where k: "(k, p) \<in> set (a_peers (h_auction h))" by auto
  with inv have "map_of (a_peers (h_auction h)) k = Some p" "k \<in> set (a_order (h_auction h))"
    by (auto simp: peers_inv_def rev_image_eqI)
  then have "p \<in> set (s_peers ?s)"
    by (force simp: Snapshot_def Offer_def List.map_filter_def image_iff)
  moreover have "s_winner_seat ?s = m_Seat m" by (simp add: Snapshot_def Offer_def)
  moreover have "(q, (msg_of ''state'')\<lparr>m_You := q, m_State := Some ?s\<rparr>) \<in> set (broadcast msin ?h)"
    using assms(3,4) by (simp add: in_broadcast)
  moreover have "handle msin now pid m h = Some (?h, broadcast msin ?h)"
    using assms(2) by (simp add: handle_def handle_offer_def Let_def)
  ultimately show ?thesis using assms(7) by (intro exI [of _ ?h] exI conjI bexI [of _ p]) auto
qed

section \<open>Concrete runs of the relay\<close>

definition demo_hub :: hub where
  "demo_hub = \<lparr>h_conns = [(''p1'', 0), (''p2'', 1), (''p3'', 2)], h_order = [''p1'', ''p2'', ''p3''],
     h_auction = demo_joined, h_nextID = 3\<rparr>"

theorem relay_blind_witness:
  "relay_run (\<lambda>x. x) (map (in_event erase_payload)
       [Opened 0, Received ''now'' ''p1'' ((msg_of ''keys'')\<lparr>m_Blob := ''pk'', m_Note := ''ek''\<rparr>)]) new_hub
   = map_option (map_prod (map_hub erase_payload) (out_box erase_payload))
       (relay_run (\<lambda>x. x) [Opened 0, Received ''now'' ''p1'' ((msg_of ''keys'')\<lparr>m_Blob := ''pk'', m_Note := ''ek''\<rparr>)] new_hub)"
  by (rule relay_blind) (simp add: erase_payload_def)

theorem handle_delivery_witness:
  "\<exists>h' out. handle (\<lambda>x. x) ''now'' ''p1'' ((msg_of ''keys'')\<lparr>m_Blob := ''pk'', m_Note := ''ek''\<rparr>) demo_hub = Some (h', out)
     \<and> (''p2'', (msg_of ''evalkey'')\<lparr>m_Blob := ''ek''\<rparr>) \<in> set out
     \<and> (\<exists>ev. Evaluator (h_auction h') = Some ev \<and> ''p2'' = p_ID ev)"
proof -
  let ?m = "(msg_of ''keys'')\<lparr>m_Blob := ''pk'', m_Note := ''ek''\<rparr>"
  let ?o = "(msg_of ''evalkey'')\<lparr>m_Blob := ''ek''\<rparr>"
  obtain h' out where h: "handle_keys (\<lambda>x. x) ?m demo_hub = (h', out)" by (rule prod.exhaust)
  have s: "handle (\<lambda>x. x) ''now'' ''p1'' ?m demo_hub = Some (h', out)"
    using h by (simp add: handle_def msg_of_def)
  have "(''p2'', ?o) \<in> set out"
    using h by (auto simp: handle_keys_def Let_def in_sends demo_hub_def demo_joined_eq PublishKeys_def
        NewAuction_def unseal_def Evaluator_def msg_of_def)
  then show ?thesis using handle_delivery [OF s] s by (auto simp: msg_of_def)
qed

definition demo_relay :: relay where
  "demo_relay = new_relay\<lparr>r_hub := join_conn ''p1'' (fst (accept_conn 7 new_hub))\<rparr>"

lemma demo_relay_reachable: "reach relay_step new_relay demo_relay"
proof -
  let ?r = "new_relay\<lparr>r_hub := fst (accept_conn 7 new_hub), r_pending := {''p1''}\<rparr>"
  have itoa1: "itoa 1 = ''1''" by code_simp
  have id: "accept_conn 7 (r_hub new_relay) = (fst (accept_conn 7 new_hub), ''p1'')"
    using itoa1 by (simp add: accept_conn_def Let_def new_hub_def new_relay_def)
  have "relay_step new_relay ?r"
    using rs_accept [OF id] by (simp add: new_relay_def)
  moreover have "relay_step ?r (?r\<lparr>r_hub := join_conn ''p1'' (r_hub ?r), r_pending := r_pending ?r - {''p1''}\<rparr>)"
    by (rule rs_join) simp
  then have "relay_step ?r demo_relay" by (simp add: demo_relay_def new_relay_def)
  ultimately show ?thesis by (blast intro: reach.intros)
qed


theorem relay_never_panics_witness:
  "\<exists>h out. handle (\<lambda>x. x) ''now'' ''p1'' (msg_of ''epochchained'') (r_hub demo_relay) = Some (h, out)"
  using relay_never_panics [OF demo_relay_reachable] by blast

theorem handle_sender_unchecked_witness:
  "handle (\<lambda>x. x) ''now'' ''p3'' (msg_of ''settle'') demo_hub = handle (\<lambda>x. x) ''now'' ''p1'' (msg_of ''settle'') demo_hub"
  by (rule handle_sender_unchecked) (simp add: msg_of_def)

theorem offer_reveals_winner_witness:
  "\<exists>h' out o' s. handle (\<lambda>x. x) ''now'' ''p1'' ((msg_of ''offer'')\<lparr>m_Seat := 1\<rparr>) demo_hub = Some (h', out)
     \<and> (''p2'', o') \<in> set out \<and> m_State o' = Some s \<and> s_winner_seat s = 1"
proof -
  let ?p = "\<lparr>p_ID = ''p3'', p_Role = RoleBuyer, p_Seat = 1, p_Sealed = False\<rparr>"
  have "auction_reachable (h_auction demo_hub)" by (simp add: demo_hub_def demo_joined_reachable)
  moreover have "?p \<in> set (peer_list (h_auction demo_hub))" by (simp add: demo_hub_def demo_joined_eq)
  ultimately show ?thesis
    using offer_reveals_winner [of demo_hub "(msg_of ''offer'')\<lparr>m_Seat := 1\<rparr>" "''p2''" ?p "\<lambda>x. x" "''now''" "''p1''"]
    by (fastforce simp: demo_hub_def msg_of_def)
qed

end
