(* ===== verification/Sha256.thy ===== *)
theory Sha256
  imports Ares_Prelude
begin

text \<open>
  SHA-256 (FIPS 180-4), the hash function of Go's \<^verbatim>\<open>crypto/sha256\<close> on which the lineage DAG, the
  artifact store and the request authentication rest. Words are \<open>32 word\<close>, so addition wraps; a
  message is padded to 64-byte blocks which are folded into the eight-word state.
\<close>

unbundle bit_operations_syntax

type_synonym w32 = "32 word"

definition rotr :: "nat \<Rightarrow> w32 \<Rightarrow> w32" where
  "rotr n w = drop_bit n w OR push_bit (32 - n) w"

text \<open>The constants are the first 32 bits of the fractional parts of the roots of the first primes:
  the cube roots for the rounds, the square roots for the initial state. \<open>iroot\<close> finds the integer
  root bit by bit, and the conversion to a word drops the integer part.\<close>

definition small_primes :: "nat \<Rightarrow> int list" where
  "small_primes n = filter (\<lambda>p. list_all (\<lambda>d. p mod d \<noteq> 0) [2..p - 1]) [2..int n]"

fun iroot :: "nat \<Rightarrow> int \<Rightarrow> nat \<Rightarrow> int \<Rightarrow> int" where
  "iroot k n 0 acc = acc"
| "iroot k n (Suc i) acc = iroot k n i (if (acc + 2 ^ i) ^ k \<le> n then acc + 2 ^ i else acc)"

definition root_bits :: "nat \<Rightarrow> int \<Rightarrow> w32" where
  "root_bits k p = word_of_int (iroot k (p * 2 ^ (32 * k)) 40 0)"

definition sha_k :: "w32 list" where
  "sha_k = map (root_bits 3) (small_primes 311)"

record sha_state =
  hA :: w32
  hB :: w32
  hC :: w32
  hD :: w32
  hE :: w32
  hF :: w32
  hG :: w32
  hH :: w32

definition sha_init :: sha_state where
  "sha_init = \<lparr>hA = root_bits 2 2, hB = root_bits 2 3, hC = root_bits 2 5, hD = root_bits 2 7,
     hE = root_bits 2 11, hF = root_bits 2 13, hG = root_bits 2 17, hH = root_bits 2 19\<rparr>"

definition sha_round :: "sha_state \<Rightarrow> w32 \<times> w32 \<Rightarrow> sha_state" where
  "sha_round s kw =
     (let e = hE s; a = hA s;
          s1 = rotr 6 e XOR rotr 11 e XOR rotr 25 e;
          ch = (e AND hF s) XOR (NOT e AND hG s);
          t1 = hH s + s1 + ch + fst kw + snd kw;
          s0 = rotr 2 a XOR rotr 13 a XOR rotr 22 a;
          maj = (a AND hB s) XOR (a AND hC s) XOR (hB s AND hC s)
      in \<lparr>hA = t1 + (s0 + maj), hB = a, hC = hB s, hD = hC s,
          hE = hD s + t1, hF = e, hG = hF s, hH = hG s\<rparr>)"

text \<open>The message schedule: a window of the last sixteen words, newest last.\<close>

fun sha_schedule :: "nat \<Rightarrow> w32 list \<Rightarrow> w32 list" where
  "sha_schedule 0 win = []"
| "sha_schedule (Suc n) win =
     (let w0 = win ! 0; w1 = win ! 1; w9 = win ! 9; w14 = win ! 14;
          s0 = rotr 7 w1 XOR rotr 18 w1 XOR drop_bit 3 w1;
          s1 = rotr 17 w14 XOR rotr 19 w14 XOR drop_bit 10 w14;
          w = w0 + s0 + w9 + s1
      in w # sha_schedule n (tl win @ [w]))"

definition sha_add :: "sha_state \<Rightarrow> sha_state \<Rightarrow> sha_state" where
  "sha_add s t = \<lparr>hA = hA s + hA t, hB = hB s + hB t, hC = hC s + hC t, hD = hD s + hD t,
     hE = hE s + hE t, hF = hF s + hF t, hG = hG s + hG t, hH = hH s + hH t\<rparr>"

definition sha_block :: "sha_state \<Rightarrow> w32 list \<Rightarrow> sha_state" where
  "sha_block s ws = sha_add s (foldl sha_round s (zip sha_k (ws @ sha_schedule 48 ws)))"

section \<open>Bytes and words\<close>

text \<open>\<open>binary.BigEndian.PutUint32\<close> and its inverse; a Go \<open>int\<close> length converted to
  \<open>uint32\<close> wraps modulo \<open>2 ^ 32\<close>, which \<open>word_of_nat\<close> does here.\<close>

definition be32 :: "w32 \<Rightarrow> bytes" where
  "be32 w = [char_of (uint (drop_bit 24 w)), char_of (uint (drop_bit 16 w)),
             char_of (uint (drop_bit 8 w)), char_of (uint w)]"

definition be64 :: "64 word \<Rightarrow> bytes" where
  "be64 w = be32 (ucast (drop_bit 32 w)) @ be32 (ucast w)"

fun words_of :: "bytes \<Rightarrow> w32 list" where
  "words_of (a # b # c # d # rest) =
     word_of_int (of_char a * 16777216 + of_char b * 65536 + of_char c * 256 + of_char d) # words_of rest"
| "words_of _ = []"

definition sha_pad :: "bytes \<Rightarrow> bytes" where
  "sha_pad m = m @ [CHR 0x80] @ replicate ((119 - length m mod 64) mod 64) (CHR 0x00)
     @ be64 (word_of_int (8 * int (length m)))"

fun sha_blocks :: "sha_state \<Rightarrow> w32 list \<Rightarrow> nat \<Rightarrow> sha_state" where
  "sha_blocks s ws 0 = s"
| "sha_blocks s ws (Suc n) = sha_blocks (sha_block s (take 16 ws)) (drop 16 ws) n"

definition sha_bytes :: "sha_state \<Rightarrow> bytes" where
  "sha_bytes s = concat (map (\<lambda>w. be32 w) [hA s, hB s, hC s, hD s, hE s, hF s, hG s, hH s])"

definition sha256 :: "bytes \<Rightarrow> bytes" where
  "sha256 m = (let p = sha_pad m in sha_bytes (sha_blocks sha_init (words_of p) (length p div 64)))"

lemma length_be32 [simp]: "length (be32 w) = 4"
  by (simp add: be32_def)

lemma length_sha256 [simp]: "length (sha256 m) = 32"
  by (simp add: sha256_def sha_bytes_def Let_def)

lemma of_char_char_of_uint: "of_char (char_of (n :: int)) = n mod 256"
  by (simp add: of_char_of)

text \<open>The length field determines the length, below the wrap-around.\<close>

lemma split_byte: "\<exists>q r. n div 256 = q \<and> n mod 256 = r \<and> n = 256 * q + r \<and> 0 \<le> r \<and> r < 256" for n :: int
  by simp

lemma bytes_sum:
  fixes n :: int
  assumes "0 \<le> n" "n < 4294967296"
  shows "(n div 16777216 mod 256) * 16777216 + (n div 65536 mod 256) * 65536
    + (n div 256 mod 256) * 256 + n mod 256 = n"
proof -
  obtain a r where a: "n div 256 = a" "n mod 256 = r" "n = 256 * a + r" "0 \<le> r" "r < 256"
    using split_byte by blast
  obtain b s where b: "a div 256 = b" "a mod 256 = s" "a = 256 * b + s" "0 \<le> s" "s < 256"
    using split_byte by blast
  obtain c t where c: "b div 256 = c" "b mod 256 = t" "b = 256 * c + t" "0 \<le> t" "t < 256"
    using split_byte by blast
  have "n div 65536 = n div 256 div 256" "n div 16777216 = n div 256 div 256 div 256"
    by (simp_all flip: zdiv_zmult2_eq)
  then have d: "n div 65536 = b" "n div 16777216 = c" by (simp_all only: a(1) b(1) c(1))
  have "0 \<le> c" "c < 256" using assms a(3-5) b(3-5) c(3-5) by linarith+
  then have "c mod 256 = c" by (rule mod_pos_pos_trivial)
  then show ?thesis unfolding d a(1,2) b(2) c(2) using a(3) b(3) c(3) by linarith
qed

lemma be32_bytes: "words_of (be32 w) = [w]"
proof -
  let ?n = "uint w"
  have n: "0 \<le> ?n" "?n < 4294967296" using uint_lt2p [of w] by simp_all
  have d: "uint (drop_bit k w) = ?n div 2 ^ k" for k
    using n by (simp add: unsigned_drop_bit_eq take_bit_int_eq_self flip: drop_bit_eq_div)
  have "words_of (be32 w) = [word_of_int ((?n div 16777216 mod 256) * 16777216
      + (?n div 65536 mod 256) * 65536 + (?n div 256 mod 256) * 256 + ?n mod 256)]"
    by (simp add: be32_def d of_char_char_of_uint)
  then show ?thesis unfolding bytes_sum [OF n] by simp
qed

lemma be32_inj: "be32 v = be32 w \<longleftrightarrow> v = w"
  using be32_bytes by (metis list.inject)

end
