(* ===== verification/Codec.thy ===== *)
theory Codec
  imports Sha256
begin

text \<open>
  The byte-level encodings the components share: Go's \<^verbatim>\<open>encoding/hex\<close> and the length-prefixed
  framing of \<^verbatim>\<open>writeLenPrefixed\<close>, with round trips and unique readability.
\<close>

section \<open>Hexadecimal strings\<close>

definition hex_digit :: "nat \<Rightarrow> char" where
  "hex_digit n = (if n < 10 then char_of (48 + n) else char_of (87 + n))"

definition hex_encode :: "bytes \<Rightarrow> string" where
  "hex_encode b = concat (map (\<lambda>c. [hex_digit (of_char c div 16), hex_digit (of_char c mod 16)]) b)"

definition hex_val :: "char \<Rightarrow> nat option" where
  "hex_val c = (let n = of_char c :: nat in
     if 48 \<le> n \<and> n \<le> 57 then Some (n - 48)
     else if 97 \<le> n \<and> n \<le> 102 then Some (n - 87)
     else if 65 \<le> n \<and> n \<le> 70 then Some (n - 55) else None)"

text \<open>\<open>hex.DecodeString\<close>: \<open>None\<close> on an odd length or a character that is no digit.\<close>

fun hex_decode :: "string \<Rightarrow> bytes option" where
  "hex_decode [] = Some []"
| "hex_decode [c] = None"
| "hex_decode (a # b # rest) =
     (case (hex_val a, hex_val b, hex_decode rest) of
        (Some x, Some y, Some r) \<Rightarrow> Some (char_of (16 * x + y) # r)
      | _ \<Rightarrow> None)"

lemma hex_val_digit: "n < 16 \<Longrightarrow> hex_val (hex_digit n) = Some n"
  by (simp add: hex_digit_def hex_val_def Let_def of_char_of)

lemma of_char_less_256: "of_char c < (256 :: nat)"
  by (metis nat_of_char_less_256)

lemma hex_roundtrip: "hex_decode (hex_encode b) = Some b"
proof (induction b)
  case (Cons c b)
  have "of_char c div 16 < (16 :: nat)" using of_char_less_256 [of c] by (simp add: less_mult_imp_div_less)
  then show ?case using Cons by (simp add: hex_encode_def hex_val_digit)
qed (simp add: hex_encode_def)

lemma length_hex_encode [simp]: "length (hex_encode b) = 2 * length b"
  by (induction b) (simp_all add: hex_encode_def)

section \<open>Length-prefixed framing\<close>

definition writeLenPrefixed :: "bytes \<Rightarrow> bytes" where
  "writeLenPrefixed b = be32 (word_of_nat (length b)) @ b"

text \<open>Below the wrap-around of the 32-bit length field, a frame can be read back from the front of
  any byte sequence.\<close>

definition u32_len :: "'a list \<Rightarrow> bool" where
  "u32_len xs \<longleftrightarrow> length xs < 2 ^ 32"

lemma word_of_length_inj:
  "u32_len xs \<Longrightarrow> u32_len ys \<Longrightarrow> (word_of_nat (length xs) :: w32) = word_of_nat (length ys) \<longleftrightarrow> length xs = length ys"
  by (simp add: u32_len_def word_of_nat_eq_iff take_bit_nat_eq_self)

lemma writeLenPrefixed_readable:
  assumes "writeLenPrefixed a @ x = writeLenPrefixed b @ y" "u32_len a" "u32_len b"
  shows "a = b \<and> x = y"
proof -
  have e: "be32 (word_of_nat (length a)) @ a @ x = be32 (word_of_nat (length b)) @ b @ y"
    using assms(1) by (simp add: writeLenPrefixed_def)
  then have "be32 (word_of_nat (length a)) = be32 (word_of_nat (length b))" and r: "a @ x = b @ y"
    using append_eq_append_conv [of "be32 (word_of_nat (length a))" "be32 (word_of_nat (length b))"] by auto
  then have "length a = length b" using assms(2,3) by (simp add: be32_inj word_of_length_inj)
  with r show ?thesis by simp
qed

lemma concat_blocks_inj:
  assumes "concat xs = concat ys" "length xs = length ys"
    and "\<And>x. x \<in> set xs \<Longrightarrow> length x = n" "\<And>y. y \<in> set ys \<Longrightarrow> length y = n"
  shows "xs = ys"
  using assms(2,1,3,4) by (induction xs ys rule: list_induct2) (auto simp: append_eq_append_conv)

section \<open>Splitting strings\<close>

text \<open>\<open>strings.Split\<close> at a one-byte separator and \<open>strings.TrimRight\<close> of one byte.\<close>

fun split_on :: "char \<Rightarrow> string \<Rightarrow> string list" where
  "split_on sep [] = [[]]"
| "split_on sep (c # cs) =
     (if c = sep then [] # split_on sep cs
      else (case split_on sep cs of [] \<Rightarrow> [[c]] | p # ps \<Rightarrow> (c # p) # ps))"

definition trim_right :: "char \<Rightarrow> string \<Rightarrow> string" where
  "trim_right c s = rev (dropWhile (\<lambda>x. x = c) (rev s))"

lemma split_on_cons: "\<exists>p ps. split_on sep s = p # ps"
  by (cases s) (auto split: list.split)

lemma split_on_parts: "p \<in> set (split_on sep s) \<Longrightarrow> sep \<notin> set p \<and> set p \<subseteq> set s"
proof (induction s arbitrary: p)
  case (Cons c cs)
  obtain q qs where q: "split_on sep cs = q # qs" using split_on_cons by blast
  have ih: "sep \<notin> set x \<and> set x \<subseteq> set cs" if "x \<in> set (q # qs)" for x
    using Cons.IH [of x] that unfolding q .
  show ?case
  proof (cases "c = sep")
    case True
    then show ?thesis using Cons.prems ih [of p] q by auto
  next
    case False
    then have "p = c # q \<or> p \<in> set qs" using Cons.prems q by simp
    then show ?thesis using False ih [of q] ih [of p] by auto
  qed
qed simp

lemma trim_right_id: "c \<notin> set s \<Longrightarrow> trim_right c s = s"
proof -
  assume "c \<notin> set s"
  then have "dropWhile (\<lambda>x. x = c) (rev s) = rev s" by (cases "rev s") (auto simp: rev_swap)
  then show ?thesis by (simp add: trim_right_def)
qed

end
