(* ===== verification/Lineage.thy ===== *)
theory Lineage
  imports Codec "HOL-Library.Multiset"
begin

text \<open>
  The lineage DAG (pkg/ares/lineage) and the signer interface it rests on (pkg/ares/sign): nodes and
  their content hash, signing, verification, the JSON form of a node, and the in-memory store.

  \<open>time.Now\<close> is the argument \<open>now\<close> of the constructors. A \<open>Signer\<close> is a record of its four
  methods: what the code relies on of it appears as a hypothesis where it is used. Byte values of
  errors are kept structured (which check failed, on what) instead of rendered as text.
\<close>

section \<open>Signers\<close>

record signer =
  sg_Sign :: "bytes \<Rightarrow> string + bytes"
  sg_Verify :: "bytes \<Rightarrow> bytes \<Rightarrow> bytes \<Rightarrow> string option"
  sg_PublicKey :: bytes
  sg_Algorithm :: string

definition Ed25519Algorithm :: string where
  "Ed25519Algorithm = ''ed25519''"

text \<open>The default signer wraps the primitive of \<^verbatim>\<open>crypto/ed25519\<close>, given here by its signing
  function for the wrapped private key, its verification predicate and the public key.\<close>

definition Ed25519_Verify :: "(bytes \<Rightarrow> bytes \<Rightarrow> bytes \<Rightarrow> bool) \<Rightarrow> bytes \<Rightarrow> bytes \<Rightarrow> bytes \<Rightarrow> string option" where
  "Ed25519_Verify ed_verify pubkey msg sig =
     (if length pubkey \<noteq> 32 then Some ''sign: invalid ed25519 pubkey size''
      else if length sig \<noteq> 64 then Some ''sign: invalid ed25519 signature size''
      else if \<not> ed_verify pubkey msg sig then Some ''sign: ed25519 signature verification failed''
      else None)"

definition Ed25519Signer :: "(bytes \<Rightarrow> bytes) \<Rightarrow> (bytes \<Rightarrow> bytes \<Rightarrow> bytes \<Rightarrow> bool) \<Rightarrow> bytes \<Rightarrow> signer" where
  "Ed25519Signer ed_sign ed_verify pub =
     \<lparr>sg_Sign = (\<lambda>m. Inr (ed_sign m)), sg_Verify = Ed25519_Verify ed_verify, sg_PublicKey = pub,
      sg_Algorithm = Ed25519Algorithm\<rparr>"

section \<open>Nodes\<close>

type_synonym node_ref = bytes

record dag_node =
  d_Hash :: node_ref
  d_SessionID :: string
  d_PhaseID :: string
  d_Role :: string
  d_Parents :: "node_ref list"
  d_ParentRoles :: "string list"
  d_PayloadHash :: node_ref
  d_CreatedAt :: int
  d_Producer :: bytes
  d_Signature :: bytes
  d_Algorithm :: string

definition HashPayload :: "bytes \<Rightarrow> node_ref" where
  "HashPayload payload = sha256 payload"

text \<open>The bytes written into the hash by \<open>DeriveNodeHash\<close>.\<close>

definition node_preimage ::
  "string \<Rightarrow> string \<Rightarrow> string \<Rightarrow> node_ref \<Rightarrow> node_ref list \<Rightarrow> bytes" where
  "node_preimage sessionID phaseID role payloadHash sortedParents =
     writeLenPrefixed sessionID @ writeLenPrefixed phaseID @ writeLenPrefixed role
     @ writeLenPrefixed payloadHash @ be32 (word_of_nat (length sortedParents)) @ concat sortedParents"

definition DeriveNodeHash ::
  "string \<Rightarrow> string \<Rightarrow> string \<Rightarrow> bytes \<Rightarrow> node_ref list \<Rightarrow> node_ref" where
  "DeriveNodeHash sessionID phaseID role payload sortedParents =
     sha256 (node_preimage sessionID phaseID role (HashPayload payload) sortedParents)"

definition SigningMessage :: "node_ref \<Rightarrow> string \<Rightarrow> string \<Rightarrow> string \<Rightarrow> bytes" where
  "SigningMessage hash sessionID phaseID role =
     hash @ writeLenPrefixed sessionID @ writeLenPrefixed phaseID @ writeLenPrefixed role"

text \<open>\<open>sort.SliceStable\<close> by \<open>bytes.Compare\<close> on the reference is the stable \<open>sort_key\<close> on it.\<close>

definition with_roles :: "node_ref list \<Rightarrow> string list \<Rightarrow> (node_ref \<times> string) list" where
  "with_roles parents roles =
     zip parents (map (\<lambda>i. if i < length roles then roles ! i else []) [0..<length parents])"

definition sortParents :: "node_ref list \<Rightarrow> string list \<Rightarrow> node_ref list \<times> string list" where
  "sortParents parents roles =
     (let s = sort_key fst (with_roles parents roles) in (map fst s, map snd s))"

definition NewDAGNode ::
  "int \<Rightarrow> string \<Rightarrow> string \<Rightarrow> string \<Rightarrow> bytes \<Rightarrow> node_ref list \<Rightarrow> string list \<Rightarrow> bytes \<Rightarrow> bytes \<Rightarrow> string \<Rightarrow> dag_node" where
  "NewDAGNode now sessionID phaseID role payload parents parentRoles producer sig alg =
     (let (sortedParents, sortedRoles) = sortParents parents parentRoles
      in \<lparr>d_Hash = DeriveNodeHash sessionID phaseID role payload sortedParents,
          d_SessionID = sessionID, d_PhaseID = phaseID, d_Role = role,
          d_Parents = sortedParents, d_ParentRoles = sortedRoles,
          d_PayloadHash = HashPayload payload, d_CreatedAt = now,
          d_Producer = producer, d_Signature = sig, d_Algorithm = alg\<rparr>)"

section \<open>Commit and Verify\<close>

definition Commit ::
  "int \<Rightarrow> string \<Rightarrow> string \<Rightarrow> string \<Rightarrow> bytes \<Rightarrow> dag_node list \<Rightarrow> signer option \<Rightarrow> string + dag_node" where
  "Commit now sessionID phaseID role payload parents signer =
     (case signer of
        None \<Rightarrow> Inl ''lineage: Commit requires non-nil signer''
      | Some sg \<Rightarrow>
          (let (sortedRefs, sortedRoles) = sortParents (map d_Hash parents) (map d_Role parents);
               hash = DeriveNodeHash sessionID phaseID role payload sortedRefs;
               sigMsg = SigningMessage hash sessionID phaseID role
           in case sg_Sign sg sigMsg of
                Inl err \<Rightarrow> Inl err
              | Inr signature \<Rightarrow>
                  Inr (NewDAGNode now sessionID phaseID role payload sortedRefs sortedRoles
                         (sg_PublicKey sg) signature (sg_Algorithm sg))))"

datatype mismatch_info = VerifierFor string | Bytes bytes | NonEmptyProducer | NotInStore nat | Nothing

record mismatch_error =
  me_Field :: string
  me_Expected :: mismatch_info
  me_Got :: mismatch_info
  me_NodeHash :: node_ref

definition Verify :: "dag_node \<Rightarrow> bytes \<Rightarrow> (string, signer) gomap \<Rightarrow> mismatch_error option" where
  "Verify node payload verifiers =
     (case map_of verifiers (d_Algorithm node) of
        None \<Rightarrow> Some \<lparr>me_Field = ''Algorithm'', me_Expected = VerifierFor (d_Algorithm node),
                      me_Got = Nothing, me_NodeHash = d_Hash node\<rparr>
      | Some v \<Rightarrow>
          (let payloadHash = HashPayload payload;
               derived = DeriveNodeHash (d_SessionID node) (d_PhaseID node) (d_Role node) payload (d_Parents node);
               sigMsg = SigningMessage (d_Hash node) (d_SessionID node) (d_PhaseID node) (d_Role node)
           in if payloadHash \<noteq> d_PayloadHash node then
                Some \<lparr>me_Field = ''PayloadHash'', me_Expected = Bytes (d_PayloadHash node),
                      me_Got = Bytes payloadHash, me_NodeHash = d_Hash node\<rparr>
              else if derived \<noteq> d_Hash node then
                Some \<lparr>me_Field = ''PayloadHash'', me_Expected = Bytes (d_Hash node),
                      me_Got = Bytes derived, me_NodeHash = d_Hash node\<rparr>
              else if length (d_Producer node) = 0 then
                Some \<lparr>me_Field = ''Signature'', me_Expected = NonEmptyProducer,
                      me_Got = Nothing, me_NodeHash = d_Hash node\<rparr>
              else if sg_Verify v (d_Producer node) sigMsg (d_Signature node) \<noteq> None then
                Some \<lparr>me_Field = ''Signature'', me_Expected = Bytes (d_Signature node),
                      me_Got = Nothing, me_NodeHash = d_Hash node\<rparr>
              else None))"

section \<open>The JSON form\<close>

text \<open>The data transfer object \<open>dagNodeJSON\<close> as the JSON value that is marshalled: every binary field
  is a hex string. The text encoding of that value is \<^verbatim>\<open>encoding/json\<close>'s.\<close>

record dag_node_json =
  j_hash :: string
  j_session_id :: string
  j_phase_id :: string
  j_role :: string
  j_parents :: "string list"
  j_parent_roles :: "string list"
  j_payload_hash :: string
  j_created_at :: int
  j_producer :: string
  j_signature :: string
  j_algorithm :: string

definition MarshalRef :: "node_ref \<Rightarrow> string" where
  "MarshalRef r = hex_encode r"

definition UnmarshalRef :: "string \<Rightarrow> node_ref option" where
  "UnmarshalRef s = (if length s \<noteq> 64 then None else hex_decode s)"

definition MarshalNode :: "dag_node \<Rightarrow> dag_node_json" where
  "MarshalNode n = \<lparr>j_hash = MarshalRef (d_Hash n), j_session_id = d_SessionID n,
     j_phase_id = d_PhaseID n, j_role = d_Role n, j_parents = map MarshalRef (d_Parents n),
     j_parent_roles = d_ParentRoles n, j_payload_hash = MarshalRef (d_PayloadHash n),
     j_created_at = d_CreatedAt n, j_producer = hex_encode (d_Producer n),
     j_signature = hex_encode (d_Signature n), j_algorithm = d_Algorithm n\<rparr>"

fun sequence_opt :: "'a option list \<Rightarrow> 'a list option" where
  "sequence_opt [] = Some []"
| "sequence_opt (x # xs) =
     (case (x, sequence_opt xs) of (Some y, Some ys) \<Rightarrow> Some (y # ys) | _ \<Rightarrow> None)"

definition UnmarshalNode :: "dag_node_json \<Rightarrow> dag_node option" where
  "UnmarshalNode d =
     (case (UnmarshalRef (j_hash d), sequence_opt (map UnmarshalRef (j_parents d)),
            UnmarshalRef (j_payload_hash d), hex_decode (j_producer d), hex_decode (j_signature d)) of
        (Some h, Some ps, Some ph, Some prodr, Some sig) \<Rightarrow>
          Some \<lparr>d_Hash = h, d_SessionID = j_session_id d, d_PhaseID = j_phase_id d, d_Role = j_role d,
            d_Parents = ps, d_ParentRoles = j_parent_roles d, d_PayloadHash = ph,
            d_CreatedAt = j_created_at d, d_Producer = prodr, d_Signature = sig, d_Algorithm = j_algorithm d\<rparr>
      | _ \<Rightarrow> None)"

section \<open>The store\<close>

record mem_store =
  ms_byHash :: "(node_ref, dag_node) gomap"
  ms_bySession :: "(string, node_ref list) gomap"

text \<open>The sentinels; a store other than the in-memory one may also report a failure of its own.\<close>

datatype store_error = ErrNodeExists | ErrNodeNotFound | StoreFailure string

definition NewInMemoryStore :: mem_store where
  "NewInMemoryStore = \<lparr>ms_byHash = [], ms_bySession = []\<rparr>"

definition session_refs :: "mem_store \<Rightarrow> string \<Rightarrow> node_ref list" where
  "session_refs s sessionID = (case map_of (ms_bySession s) sessionID of Some rs \<Rightarrow> rs | None \<Rightarrow> [])"

definition Append :: "mem_store \<Rightarrow> dag_node \<Rightarrow> mem_store \<times> store_error option" where
  "Append s node =
     (if map_of (ms_byHash s) (d_Hash node) \<noteq> None then (s, Some ErrNodeExists)
      else (s\<lparr>ms_byHash := AList.update (d_Hash node) node (ms_byHash s),
              ms_bySession := AList.update (d_SessionID node)
                 (session_refs s (d_SessionID node) @ [d_Hash node]) (ms_bySession s)\<rparr>, None))"

definition Get :: "mem_store \<Rightarrow> node_ref \<Rightarrow> store_error + dag_node" where
  "Get s hash = (case map_of (ms_byHash s) hash of Some n \<Rightarrow> Inr n | None \<Rightarrow> Inl ErrNodeNotFound)"

definition WalkSession :: "mem_store \<Rightarrow> string \<Rightarrow> dag_node list" where
  "WalkSession s sessionID = List.map_filter (map_of (ms_byHash s)) (session_refs s sessionID)"

definition Clear :: "mem_store \<Rightarrow> string \<Rightarrow> mem_store" where
  "Clear s sessionID = s\<lparr>ms_byHash := fold AList.delete (session_refs s sessionID) (ms_byHash s),
     ms_bySession := AList.delete sessionID (ms_bySession s)\<rparr>"

end
