(* ===== verification/Lineage_Props.thy ===== *)
theory Lineage_Props
  imports Lineage
begin

text \<open>
  What the lineage DAG promises: the hashed encoding is unambiguous, a committed node verifies,
  a verified node pins its payload and every identifying field up to an exhibited SHA-256 collision,
  the hash does not depend on the order of parents, nodes survive the JSON form, and the in-memory
  store implements the contract of \<open>Store\<close>.
\<close>

section \<open>Sorting parents\<close>

lemma length_with_roles [simp]: "length (with_roles ps rs) = length ps"
  by (simp add: with_roles_def)

lemma fst_with_roles [simp]: "map fst (with_roles ps rs) = ps"
  by (simp add: with_roles_def)

lemma snd_with_roles: "length rs = length ps \<Longrightarrow> map snd (with_roles ps rs) = rs"
  by (rule nth_equalityI) (simp_all add: with_roles_def)

lemma with_roles_zip: "length rs = length ps \<Longrightarrow> with_roles ps rs = zip ps rs"
  using fst_with_roles [of ps rs] snd_with_roles [of rs ps] by (metis zip_map_fst_snd)

lemma sortParents_fst: "fst (sortParents ps rs) = sort ps"
proof -
  have "mset (map fst (sort_key fst (with_roles ps rs))) = mset ps"
    by (metis fst_with_roles mset_map mset_sort)
  moreover have "sorted (map fst (sort_key fst (with_roles ps rs)))" by (rule sorted_sort_key)
  ultimately have "map fst (sort_key fst (with_roles ps rs)) = sort ps" by (metis properties_for_sort)
  then show ?thesis by (simp add: sortParents_def Let_def)
qed

lemma sortParents_mset: "mset (zip (fst (sortParents ps rs)) (snd (sortParents ps rs))) = mset (with_roles ps rs)"
  by (simp add: sortParents_def Let_def zip_map_fst_snd)

lemma sortParents_lengths:
  "length (fst (sortParents ps rs)) = length ps" "length (snd (sortParents ps rs)) = length ps"
  by (simp_all add: sortParents_def Let_def)

text \<open>Sorting again changes nothing, roles included: \<open>Commit\<close> sorts before \<open>NewDAGNode\<close> does.\<close>

lemma sort_key_sorted: "sorted (map f xs) \<Longrightarrow> sort_key f xs = xs"
proof (induction xs)
  case (Cons x xs)
  then have "insort_key f x xs = x # xs" by (cases xs) (auto simp: insort_is_Cons)
  with Cons show ?case by simp
qed simp

lemma sortParents_idem: "sortParents (fst (sortParents ps rs)) (snd (sortParents ps rs)) = sortParents ps rs"
proof -
  let ?s = "sort_key fst (with_roles ps rs)"
  have "with_roles (map fst ?s) (map snd ?s) = ?s" by (simp add: with_roles_zip zip_map_fst_snd)
  moreover have "sort_key fst ?s = ?s" by (rule sort_key_sorted) (rule sorted_sort_key)
  ultimately show ?thesis by (simp add: sortParents_def Let_def)
qed

section \<open>The hashed encoding\<close>

lemma node_preimage_inj:
  assumes eq: "node_preimage s p r h ps = node_preimage s' p' r' h' ps'"
    and "u32_len s" "u32_len p" "u32_len r" "u32_len s'" "u32_len p'" "u32_len r'"
    and "length h = 32" "length h' = 32"
    and "u32_len ps" "u32_len ps'" "\<And>x. x \<in> set ps \<union> set ps' \<Longrightarrow> length x = 32"
  shows "s = s' \<and> p = p' \<and> r = r' \<and> h = h' \<and> ps = ps'"
proof -
  have "s = s'" "p = p'" "r = r'" "h = h'"
    and t: "be32 (word_of_nat (length ps)) @ concat ps = be32 (word_of_nat (length ps')) @ concat ps'"
    using eq assms(2-9) unfolding node_preimage_def
    by (auto dest!: writeLenPrefixed_readable simp: u32_len_def)
  moreover from t have "be32 (word_of_nat (length ps)) = be32 (word_of_nat (length ps'))"
    and c: "concat ps = concat ps'" by (auto simp: append_eq_append_conv)
  then have "length ps = length ps'" using assms(10,11) by (simp add: be32_inj word_of_length_inj)
  with c have "ps = ps'" using assms(12) by (intro concat_blocks_inj [where n = 32]) auto
  ultimately show ?thesis by blast
qed

lemma SigningMessage_inj:
  assumes "SigningMessage h s p r = SigningMessage h' s' p' r'" "length h = 32" "length h' = 32"
    and "u32_len s" "u32_len p" "u32_len r" "u32_len s'" "u32_len p'" "u32_len r'"
  shows "h = h' \<and> s = s' \<and> p = p' \<and> r = r'"
proof -
  have "h = h'" and t: "writeLenPrefixed s @ writeLenPrefixed p @ writeLenPrefixed r
      = writeLenPrefixed s' @ writeLenPrefixed p' @ writeLenPrefixed r'"
    using assms(1-3) by (auto simp: SigningMessage_def append_eq_append_conv)
  from t have "s = s'" "p = p'" and u: "writeLenPrefixed r @ [] = writeLenPrefixed r' @ []"
    using assms(4-9) by (auto dest!: writeLenPrefixed_readable)
  from writeLenPrefixed_readable [OF u] assms(6,9) have "r = r'" by simp
  with \<open>h = h'\<close> \<open>s = s'\<close> \<open>p = p'\<close> show ?thesis by blast
qed

section \<open>Verification\<close>

text \<open>What \<open>Verify\<close> accepts.\<close>

lemma Verify_None:
  "Verify n payload vs = None \<longleftrightarrow>
     (\<exists>v. map_of vs (d_Algorithm n) = Some v \<and> HashPayload payload = d_PayloadHash n
        \<and> DeriveNodeHash (d_SessionID n) (d_PhaseID n) (d_Role n) payload (d_Parents n) = d_Hash n
        \<and> d_Producer n \<noteq> []
        \<and> sg_Verify v (d_Producer n) (SigningMessage (d_Hash n) (d_SessionID n) (d_PhaseID n) (d_Role n)) (d_Signature n) = None)"
  by (auto simp: Verify_def Let_def split: option.splits)

text \<open>A node whose identifying strings fit the 32-bit length fields and whose references are hashes.\<close>

definition node_sized :: "dag_node \<Rightarrow> bool" where
  "node_sized n \<longleftrightarrow> u32_len (d_SessionID n) \<and> u32_len (d_PhaseID n) \<and> u32_len (d_Role n)
     \<and> u32_len (d_Parents n) \<and> list_all (\<lambda>r. length r = 32) (d_Parents n)"

definition node_bytes :: "dag_node \<Rightarrow> bytes \<Rightarrow> bytes" where
  "node_bytes n payload = node_preimage (d_SessionID n) (d_PhaseID n) (d_Role n) (HashPayload payload) (d_Parents n)"

lemma verified_same_hash:
  assumes "Verify n x vs = None" "Verify n' x' vs' = None" "d_Hash n = d_Hash n'"
    and "node_sized n" "node_sized n'"
  shows "(d_SessionID n = d_SessionID n' \<and> d_PhaseID n = d_PhaseID n' \<and> d_Role n = d_Role n'
      \<and> d_Parents n = d_Parents n' \<and> d_PayloadHash n = d_PayloadHash n' \<and> x = x')
    \<or> (node_bytes n x \<noteq> node_bytes n' x' \<and> sha256 (node_bytes n x) = sha256 (node_bytes n' x'))
    \<or> (x \<noteq> x' \<and> sha256 x = sha256 x')"
proof (cases "node_bytes n x = node_bytes n' x'")
  case False
  then show ?thesis using assms(1-3) by (auto simp: Verify_None DeriveNodeHash_def node_bytes_def)
next
  case True
  then have "d_SessionID n = d_SessionID n' \<and> d_PhaseID n = d_PhaseID n' \<and> d_Role n = d_Role n'
      \<and> HashPayload x = HashPayload x' \<and> d_Parents n = d_Parents n'"
    using assms(4,5) unfolding node_bytes_def node_sized_def list_all_iff
    by (intro node_preimage_inj) (auto simp: HashPayload_def)
  then show ?thesis using assms(1,2) by (auto simp: Verify_None HashPayload_def)
qed

section \<open>Committing\<close>

lemma Commit_Inr:
  assumes "Commit now sid pid role payload parents (Some sg) = Inr n"
  shows "\<exists>sig. sg_Sign sg (SigningMessage (d_Hash n) sid pid role) = Inr sig
    \<and> n = \<lparr>d_Hash = DeriveNodeHash sid pid role payload (sort (map d_Hash parents)), d_SessionID = sid,
        d_PhaseID = pid, d_Role = role, d_Parents = sort (map d_Hash parents),
        d_ParentRoles = snd (sortParents (map d_Hash parents) (map d_Role parents)),
        d_PayloadHash = HashPayload payload, d_CreatedAt = now, d_Producer = sg_PublicKey sg,
        d_Signature = sig, d_Algorithm = sg_Algorithm sg\<rparr>"
proof -
  let ?s = "sortParents (map d_Hash parents) (map d_Role parents)"
  obtain sig where s: "sg_Sign sg (SigningMessage (DeriveNodeHash sid pid role payload (fst ?s)) sid pid role) = Inr sig"
    and n: "n = NewDAGNode now sid pid role payload (fst ?s) (snd ?s) (sg_PublicKey sg) sig (sg_Algorithm sg)"
    using assms by (auto simp: Commit_def Let_def case_prod_beta split: sum.splits)
  show ?thesis using s unfolding n
    unfolding NewDAGNode_def case_prod_beta Let_def sortParents_idem by (simp add: sortParents_fst)
qed

lemma Commit_fields:
  assumes "Commit now sid pid role payload parents (Some sg) = Inr n"
  shows "d_Hash n = DeriveNodeHash sid pid role payload (d_Parents n)" "d_SessionID n = sid"
    "d_PhaseID n = pid" "d_Role n = role" "d_Parents n = sort (map d_Hash parents)"
    "d_PayloadHash n = HashPayload payload" "d_Producer n = sg_PublicKey sg" "d_Algorithm n = sg_Algorithm sg"
  using Commit_Inr [OF assms] by auto

text \<open>What a signer must provide for its own commits to verify: a public key, and a verifier that
  accepts what it signs.\<close>

definition signer_correct :: "signer \<Rightarrow> signer \<Rightarrow> bool" where
  "signer_correct sg v \<longleftrightarrow> sg_PublicKey sg \<noteq> []
     \<and> (\<forall>m sig. sg_Sign sg m = Inr sig \<longrightarrow> sg_Verify v (sg_PublicKey sg) m sig = None)"

lemma Commit_verifies:
  assumes "Commit now sid pid role payload parents (Some sg) = Inr n"
    and "map_of vs (sg_Algorithm sg) = Some v" "signer_correct sg v"
  shows "Verify n payload vs = None"
proof -
  obtain sig where "sg_Sign sg (SigningMessage (d_Hash n) sid pid role) = Inr sig"
    and "d_Hash n = DeriveNodeHash sid pid role payload (d_Parents n)" "d_SessionID n = sid"
      "d_PhaseID n = pid" "d_Role n = role" "d_PayloadHash n = HashPayload payload"
      "d_Producer n = sg_PublicKey sg" "d_Signature n = sig" "d_Algorithm n = sg_Algorithm sg"
    using Commit_Inr [OF assms(1)] by auto
  then show ?thesis using assms(2,3) by (simp add: Verify_None signer_correct_def)
qed

section \<open>JSON\<close>

definition node_refs_ok :: "dag_node \<Rightarrow> bool" where
  "node_refs_ok n \<longleftrightarrow> length (d_Hash n) = 32 \<and> length (d_PayloadHash n) = 32
     \<and> list_all (\<lambda>r. length r = 32) (d_Parents n)"

lemma UnmarshalRef_roundtrip: "length r = 32 \<Longrightarrow> UnmarshalRef (MarshalRef r) = Some r"
  by (simp add: UnmarshalRef_def MarshalRef_def hex_roundtrip)

lemma sequence_refs:
  "list_all (\<lambda>r. length r = 32) rs \<Longrightarrow> sequence_opt (map (UnmarshalRef \<circ> MarshalRef) rs) = Some rs"
  by (induction rs) (simp_all add: UnmarshalRef_roundtrip)

section \<open>The store contract\<close>

text \<open>What the interface \<open>Store\<close> promises its clients (the session runner, in particular): appending
  is refused exactly for a hash that is present, otherwise the node can be read back and is walked
  last in its session; nothing else changes. A session is walked without repeating a node, and
  every node walked belongs to the session and can be read back.\<close>

locale node_store =
  fixes inv :: "'s \<Rightarrow> bool"
    and append :: "'s \<Rightarrow> dag_node \<Rightarrow> 's \<times> store_error option"
    and get :: "'s \<Rightarrow> node_ref \<Rightarrow> store_error + dag_node"
    and walk :: "'s \<Rightarrow> string \<Rightarrow> dag_node list"
  assumes append_inv: "inv s \<Longrightarrow> inv (fst (append s n))"
    and append_dup: "inv s \<Longrightarrow> get s (d_Hash n) = Inr m \<Longrightarrow> append s n = (s, Some ErrNodeExists)"
    and append_ok: "inv s \<Longrightarrow> get s (d_Hash n) = Inl e \<Longrightarrow> snd (append s n) = None"
    and get_append: "inv s \<Longrightarrow> get s (d_Hash n) = Inl e \<Longrightarrow>
      get (fst (append s n)) h = (if h = d_Hash n then Inr n else get s h)"
    and walk_append: "inv s \<Longrightarrow> get s (d_Hash n) = Inl e \<Longrightarrow>
      walk (fst (append s n)) sid = walk s sid @ (if d_SessionID n = sid then [n] else [])"
    and get_hash: "inv s \<Longrightarrow> get s h = Inr n \<Longrightarrow> d_Hash n = h"
    and walk_iff: "inv s \<Longrightarrow> n \<in> set (walk s sid) \<longleftrightarrow> get s (d_Hash n) = Inr n \<and> d_SessionID n = sid"
    and walk_distinct: "inv s \<Longrightarrow> distinct (map d_Hash (walk s sid))"
begin

lemma append_cases:
  assumes "inv s"
  obtains (exists) m where "get s (d_Hash n) = Inr m" "append s n = (s, Some ErrNodeExists)"
    | (fresh) e where "get s (d_Hash n) = Inl e" "snd (append s n) = None"
  using assms append_dup append_ok by (cases "get s (d_Hash n)") auto

text \<open>Nothing that has been stored is ever lost or altered by appending.\<close>

lemma get_append_mono:
  assumes "inv s" "get s h = Inr m"
  shows "get (fst (append s n)) h = Inr m"
  using assms(1)
proof (cases rule: append_cases [where n = n])
  case (fresh e)
  then show ?thesis using assms get_append [OF assms(1) fresh(1), of h] by (auto split: if_splits)
qed (simp add: assms(2))

lemma get_after_append: "inv s \<Longrightarrow> \<exists>m. get (fst (append s n)) (d_Hash n) = Inr m \<and> d_Hash m = d_Hash n"
proof -
  assume i: "inv s"
  then show ?thesis
  proof (cases rule: append_cases [where n = n])
    case (exists m)
    then show ?thesis using get_hash [OF i exists(1)] by simp
  next
    case (fresh e)
    then show ?thesis using get_append [OF i fresh(1)] by simp
  qed
qed

end

section \<open>The in-memory store implements the contract\<close>

definition mem_inv :: "mem_store \<Rightarrow> bool" where
  "mem_inv s \<longleftrightarrow> gomap_wf (ms_byHash s) \<and> gomap_wf (ms_bySession s)
     \<and> (\<forall>h n. map_of (ms_byHash s) h = Some n \<longrightarrow> d_Hash n = h \<and> h \<in> set (session_refs s (d_SessionID n)))
     \<and> (\<forall>sid. distinct (session_refs s sid))
     \<and> (\<forall>sid h. h \<in> set (session_refs s sid) \<longrightarrow> (\<exists>n. map_of (ms_byHash s) h = Some n \<and> d_SessionID n = sid))"

lemma Get_Inr: "Get s h = Inr n \<longleftrightarrow> map_of (ms_byHash s) h = Some n"
  by (simp add: Get_def split: option.split)

lemma Get_Inl: "Get s h = Inl e \<longleftrightarrow> map_of (ms_byHash s) h = None \<and> e = ErrNodeNotFound"
  by (auto simp: Get_def split: option.split)

lemma session_refs_Append:
  assumes "map_of (ms_byHash s) (d_Hash n) = None"
  shows "session_refs (fst (Append s n)) sid
    = session_refs s sid @ (if d_SessionID n = sid then [d_Hash n] else [])"
  using assms by (auto simp: Append_def session_refs_def gomap_simps)

lemma map_filter_defined:
  "(\<And>x. x \<in> set xs \<Longrightarrow> f x \<noteq> None) \<Longrightarrow> List.map_filter f xs = map (the \<circ> f) xs"
  by (induction xs) (auto simp: List.map_filter_simps split: option.splits)

lemma WalkSession_map: "mem_inv s \<Longrightarrow> WalkSession s sid = map (\<lambda>h. the (map_of (ms_byHash s) h)) (session_refs s sid)"
  unfolding WalkSession_def by (subst map_filter_defined) (fastforce simp: mem_inv_def comp_def)+

lemma byHash_Append:
  "map_of (ms_byHash s) (d_Hash n) = None \<Longrightarrow>
   map_of (ms_byHash (fst (Append s n))) = (map_of (ms_byHash s))(d_Hash n \<mapsto> n)"
  by (auto simp: Append_def gomap_simps)

lemma mem_inv_Append: "mem_inv s \<Longrightarrow> mem_inv (fst (Append s n))"
proof (cases "map_of (ms_byHash s) (d_Hash n)")
  case (Some m)
  assume "mem_inv s"
  with Some show ?thesis by (simp add: Append_def)
next
  case None
  assume inv: "mem_inv s"
  have fresh: "d_Hash n \<notin> set (session_refs s sid)" for sid
    using inv None unfolding mem_inv_def by fastforce
  have "gomap_wf (ms_byHash (fst (Append s n)))" "gomap_wf (ms_bySession (fst (Append s n)))"
    using inv by (simp_all add: Append_def mem_inv_def)
  then show ?thesis unfolding mem_inv_def byHash_Append [OF None] session_refs_Append [OF None]
    using inv fresh unfolding mem_inv_def by (auto split: if_splits)
qed

lemma WalkSession_Append:
  assumes "mem_inv s" "map_of (ms_byHash s) (d_Hash n) = None"
  shows "WalkSession (fst (Append s n)) sid = WalkSession s sid @ (if d_SessionID n = sid then [n] else [])"
proof -
  have "d_Hash n \<notin> set (session_refs s sid)"
    using assms unfolding mem_inv_def by fastforce
  then show ?thesis
    by (auto simp: WalkSession_map assms mem_inv_Append session_refs_Append byHash_Append)
qed

lemma WalkSession_iff:
  assumes "mem_inv s"
  shows "n \<in> set (WalkSession s sid) \<longleftrightarrow> map_of (ms_byHash s) (d_Hash n) = Some n \<and> d_SessionID n = sid"
proof
  assume "n \<in> set (WalkSession s sid)"
  then obtain h where "h \<in> set (session_refs s sid)" "n = the (map_of (ms_byHash s) h)"
    by (auto simp: WalkSession_map [OF assms])
  then show "map_of (ms_byHash s) (d_Hash n) = Some n \<and> d_SessionID n = sid"
    using assms unfolding mem_inv_def by fastforce
next
  assume "map_of (ms_byHash s) (d_Hash n) = Some n \<and> d_SessionID n = sid"
  moreover from this have "d_Hash n \<in> set (session_refs s sid)" using assms unfolding mem_inv_def by blast
  ultimately show "n \<in> set (WalkSession s sid)" by (force simp: WalkSession_map [OF assms] image_iff)
qed

lemma WalkSession_distinct:
  assumes "mem_inv s"
  shows "map d_Hash (WalkSession s sid) = session_refs s sid"
proof -
  have "d_Hash (the (map_of (ms_byHash s) h)) = h" if "h \<in> set (session_refs s sid)" for h
    using assms that unfolding mem_inv_def by fastforce
  then show ?thesis by (simp add: WalkSession_map [OF assms] map_idI)
qed

interpretation mem: node_store mem_inv Append Get WalkSession
proof unfold_locales
  fix s n m e h sid
  assume inv: "mem_inv s"
  show "mem_inv (fst (Append s n))" using inv by (rule mem_inv_Append)
  show "Get s (d_Hash n) = Inr m \<Longrightarrow> Append s n = (s, Some ErrNodeExists)" by (simp add: Get_Inr Append_def)
  show "Get s (d_Hash n) = Inl e \<Longrightarrow> snd (Append s n) = None" by (simp add: Get_Inl Append_def)
  show "Get s (d_Hash n) = Inl e \<Longrightarrow> Get (fst (Append s n)) h = (if h = d_Hash n then Inr n else Get s h)"
    unfolding Get_Inl by (simp add: Get_def byHash_Append)
  show "Get s (d_Hash n) = Inl e \<Longrightarrow>
      WalkSession (fst (Append s n)) sid = WalkSession s sid @ (if d_SessionID n = sid then [n] else [])"
    using inv by (simp add: Get_Inl WalkSession_Append)
  show "Get s h = Inr n \<Longrightarrow> d_Hash n = h" using inv by (auto simp: Get_Inr mem_inv_def)
  show "n \<in> set (WalkSession s sid) \<longleftrightarrow> Get s (d_Hash n) = Inr n \<and> d_SessionID n = sid"
    using inv by (simp add: Get_Inr WalkSession_iff)
  show "distinct (map d_Hash (WalkSession s sid))" using inv by (simp add: WalkSession_distinct) (simp add: mem_inv_def)
qed

lemma session_refs_Clear: "session_refs (Clear s sid) x = (if x = sid then [] else session_refs s x)"
  by (simp add: session_refs_def Clear_def gomap_simps)

lemma map_of_fold_delete: "map_of (fold AList.delete hs m) h = (if h \<in> set hs then None else map_of m h)"
  by (induction hs arbitrary: m) (auto simp: gomap_simps)

lemma gomap_wf_fold_delete: "gomap_wf m \<Longrightarrow> gomap_wf (fold AList.delete hs m)"
  by (induction hs arbitrary: m) auto

lemma mem_inv_Clear:
  assumes "mem_inv s"
  shows "mem_inv (Clear s sid)"
proof -
  have other: "h \<notin> set (session_refs s sid)" if "h \<in> set (session_refs s x)" "x \<noteq> sid" for h x
    using assms that unfolding mem_inv_def by (metis option.inject)
  have b: "map_of (ms_byHash (Clear s sid)) h = (if h \<in> set (session_refs s sid) then None else map_of (ms_byHash s) h)" for h
    by (simp add: Clear_def map_of_fold_delete)
  have "gomap_wf (ms_byHash (Clear s sid))" "gomap_wf (ms_bySession (Clear s sid))"
    using assms by (simp_all add: Clear_def mem_inv_def gomap_wf_fold_delete)
  then show ?thesis unfolding mem_inv_def b session_refs_Clear
    using assms other unfolding mem_inv_def by (auto split: if_splits)
qed

lemma Clear_other_session:
  assumes "mem_inv s" "x \<noteq> sid"
  shows "WalkSession (Clear s sid) x = WalkSession s x"
proof -
  have "h \<notin> set (session_refs s sid)" if "h \<in> set (session_refs s x)" for h
    using assms that unfolding mem_inv_def by (metis option.inject)
  then show ?thesis using assms
    by (simp add: WalkSession_map mem_inv_Clear session_refs_Clear)
      (simp add: Clear_def map_of_fold_delete)
qed

text \<open>The store as a list: appending keeps the first node of each hash.\<close>

fun first_by_hash :: "dag_node list \<Rightarrow> dag_node list" where
  "first_by_hash [] = []"
| "first_by_hash (n # ns) = n # filter (\<lambda>m. d_Hash m \<noteq> d_Hash n) (first_by_hash ns)"

definition append_all :: "dag_node list \<Rightarrow> mem_store \<Rightarrow> mem_store" where
  "append_all ns s = fold (\<lambda>n s. fst (Append s n)) ns s"

lemma first_by_hash_snoc:
  "first_by_hash (ns @ [n]) = first_by_hash ns @ (if d_Hash n \<in> d_Hash ` set ns then [] else [n])"
proof (induction ns)
  case (Cons m ns)
  then show ?case by auto
qed simp

lemma append_all_refines:
  "mem_inv (append_all ns NewInMemoryStore)
   \<and> (\<forall>sid. WalkSession (append_all ns NewInMemoryStore) sid = filter (\<lambda>n. d_SessionID n = sid) (first_by_hash ns))
   \<and> (\<forall>h. map_of (ms_byHash (append_all ns NewInMemoryStore)) h = List.find (\<lambda>n. d_Hash n = h) ns)"
proof (induction ns rule: rev_induct)
  case Nil
  then show ?case
    by (simp add: append_all_def NewInMemoryStore_def mem_inv_def session_refs_def WalkSession_def
        List.map_filter_simps)
next
  case (snoc n ns)
  let ?s = "append_all ns NewInMemoryStore"
  have inv: "mem_inv ?s" and w: "\<And>sid. WalkSession ?s sid = filter (\<lambda>n. d_SessionID n = sid) (first_by_hash ns)"
    and g: "\<And>h. map_of (ms_byHash ?s) h = List.find (\<lambda>n. d_Hash n = h) ns"
    using snoc.IH by blast+
  have s: "append_all (ns @ [n]) NewInMemoryStore = fst (Append ?s n)" by (simp add: append_all_def)
  have fnd: "List.find (\<lambda>n. d_Hash n = h) (ns @ [n])
      = (case List.find (\<lambda>n. d_Hash n = h) ns of Some m \<Rightarrow> Some m | None \<Rightarrow> if d_Hash n = h then Some n else None)" for h
    by (induction ns) auto
  show ?case
  proof (cases "d_Hash n \<in> d_Hash ` set ns")
    case True
    then obtain m where m: "List.find (\<lambda>m. d_Hash m = d_Hash n) ns = Some m"
      using find_None_iff [of "\<lambda>m. d_Hash m = d_Hash n" ns] by fastforce
    then have "fst (Append ?s n) = ?s" using g [of "d_Hash n"] by (simp add: Append_def)
    then show ?thesis unfolding s fnd using inv w g True m
      by (auto simp: first_by_hash_snoc split: option.split)
  next
    case False
    then have none: "List.find (\<lambda>m. d_Hash m = d_Hash n) ns = None"
      unfolding find_None_iff by (metis image_eqI)
    then have fr: "map_of (ms_byHash ?s) (d_Hash n) = None" using g by simp
    show ?thesis unfolding s fnd using inv False none w g
      by (auto simp: mem_inv_Append WalkSession_Append [OF inv fr] first_by_hash_snoc byHash_Append [OF fr] split: option.split)
  qed
qed

section \<open>Properties\<close>

text \<open>C5. A node that \<open>Commit\<close> produces verifies against its payload, for every signer whose public
  key is not empty and every verifier registered under its algorithm that accepts what it signs.\<close>

theorem Commit_Verify:
  assumes "Commit now sid pid role payload parents (Some sg) = Inr n"
    and "map_of vs (sg_Algorithm sg) = Some v"
    and "sg_PublicKey sg \<noteq> []"
    and "\<And>m sig. sg_Sign sg m = Inr sig \<Longrightarrow> sg_Verify v (sg_PublicKey sg) m sig = None"
  shows "Verify n payload vs = None"
  using assms by (intro Commit_verifies) (auto simp: signer_correct_def)

text \<open>C4. Tamper evidence: two verified (node, payload) pairs with the same node hash agree on
  session, phase, role, parents, payload hash and payload, unless they exhibit a concrete SHA-256
  collision, either of the two hashed encodings or of the two payloads. (Lengths must fit the
  32-bit prefixes and parent references be 32 bytes.)\<close>

theorem verified_node_binding:
  assumes "Verify n x vs = None" "Verify n' x' vs' = None" "d_Hash n = d_Hash n'"
    and "node_sized n" "node_sized n'"
  shows "(d_SessionID n = d_SessionID n' \<and> d_PhaseID n = d_PhaseID n' \<and> d_Role n = d_Role n'
      \<and> d_Parents n = d_Parents n' \<and> d_PayloadHash n = d_PayloadHash n' \<and> x = x')
    \<or> (node_bytes n x \<noteq> node_bytes n' x' \<and> sha256 (node_bytes n x) = sha256 (node_bytes n' x'))
    \<or> (x \<noteq> x' \<and> sha256 x = sha256 x')"
  using assms by (rule verified_same_hash)

text \<open>The content hash is canonical: it does not depend on the order in which parents are
  listed, on their roles or on the clock, and the stored parents are sorted with each role kept
  beside its parent.\<close>

theorem NewDAGNode_canonical:
  assumes "mset ps = mset ps'"
  shows "d_Hash (NewDAGNode now sid pid role x ps rs prodr sig alg)
       = d_Hash (NewDAGNode now' sid pid role x ps' rs' prodr' sig' alg')
    \<and> sorted (d_Parents (NewDAGNode now sid pid role x ps rs prodr sig alg))
    \<and> mset (zip (d_Parents (NewDAGNode now sid pid role x ps rs prodr sig alg))
                (d_ParentRoles (NewDAGNode now sid pid role x ps rs prodr sig alg)))
      = mset (with_roles ps rs)"
proof -
  have "sort ps = sort ps'" using assms by (metis properties_for_sort sorted_sort mset_sort)
  then show ?thesis
    using sortParents_mset [of ps rs] by (simp add: NewDAGNode_def case_prod_beta sortParents_fst)
qed

text \<open>A node survives its JSON form: decoding what \<open>MarshalJSON\<close> writes gives the node back.\<close>

theorem node_json_roundtrip:
  assumes "node_refs_ok n"
  shows "UnmarshalNode (MarshalNode n) = Some n"
  using assms
  by (simp add: UnmarshalNode_def MarshalNode_def node_refs_ok_def UnmarshalRef_roundtrip sequence_refs
      hex_roundtrip)

text \<open>C39. The in-memory store refines a list of nodes: after appending any sequence, walking a session
  yields its nodes in append order, the first of each hash, and a lookup finds the first node
  appended under that hash.\<close>

theorem mem_store_refines_list:
  "WalkSession (append_all ns NewInMemoryStore) sid = filter (\<lambda>n. d_SessionID n = sid) (first_by_hash ns)
   \<and> Get (append_all ns NewInMemoryStore) h
     = (case List.find (\<lambda>n. d_Hash n = h) ns of Some n \<Rightarrow> Inr n | None \<Rightarrow> Inl ErrNodeNotFound)"
  using append_all_refines [of ns] by (simp add: Get_def)

text \<open>Clearing a session removes exactly its nodes: the session walks empty, its nodes are no
  longer found, and every other session and node is untouched.\<close>

theorem Clear_spec:
  assumes "mem_inv s"
  shows "mem_inv (Clear s sid) \<and> WalkSession (Clear s sid) sid = []
    \<and> (\<forall>x. x \<noteq> sid \<longrightarrow> WalkSession (Clear s sid) x = WalkSession s x)
    \<and> (\<forall>h. Get (Clear s sid) h = (case Get s h of
         Inr n \<Rightarrow> if d_SessionID n = sid then Inl ErrNodeNotFound else Inr n | Inl e \<Rightarrow> Inl e))"
proof -
  have "Get (Clear s sid) h = (case Get s h of
      Inr n \<Rightarrow> if d_SessionID n = sid then Inl ErrNodeNotFound else Inr n | Inl e \<Rightarrow> Inl e)" for h
  proof (cases "map_of (ms_byHash s) h")
    case None
    then show ?thesis by (simp add: Get_def Clear_def map_of_fold_delete)
  next
    case (Some n)
    then have "h \<in> set (session_refs s sid) \<longleftrightarrow> d_SessionID n = sid"
      using assms unfolding mem_inv_def by (metis option.inject)
    with Some show ?thesis by (simp add: Get_def Clear_def map_of_fold_delete)
  qed
  moreover have "WalkSession (Clear s sid) sid = []"
    by (simp add: WalkSession_def session_refs_Clear List.map_filter_simps)
  ultimately show ?thesis using assms by (simp add: mem_inv_Clear Clear_other_session)
qed

section \<open>Concrete nodes\<close>

text \<open>A signer that signs a message by repeating it under its key shows that the hypotheses on
  signers can hold.\<close>

definition demo_signer :: signer where
  "demo_signer = \<lparr>sg_Sign = (\<lambda>m. Inr (''k'' @ m)),
     sg_Verify = (\<lambda>pk m sig. if sig = pk @ m then None else Some ''bad signature''),
     sg_PublicKey = ''k'', sg_Algorithm = ''demo''\<rparr>"

definition demo_node :: dag_node where
  "demo_node = (case Commit 0 ''session'' ''phase'' ''role'' ''payload'' [] (Some demo_signer) of
     Inr n \<Rightarrow> n | Inl e \<Rightarrow> undefined)"

lemma demo_node_commit: "Commit 0 ''session'' ''phase'' ''role'' ''payload'' [] (Some demo_signer) = Inr demo_node"
  by (simp add: demo_node_def Commit_def demo_signer_def case_prod_beta Let_def)

lemma demo_node_verifies: "Verify demo_node ''payload'' [(''demo'', demo_signer)] = None"
  using demo_node_commit by (rule Commit_verifies) (auto simp: demo_signer_def signer_correct_def)

lemma demo_node_fields:
  "d_SessionID demo_node = ''session''" "d_PhaseID demo_node = ''phase''" "d_Role demo_node = ''role''"
  "d_Parents demo_node = []" "d_PayloadHash demo_node = HashPayload ''payload''" "length (d_Hash demo_node) = 32"
  using Commit_fields [OF demo_node_commit] by (simp_all add: DeriveNodeHash_def)

lemma demo_node_sized: "node_sized demo_node"
  by (simp add: node_sized_def demo_node_fields u32_len_def)

theorem Commit_Verify_witness:
  "Verify demo_node ''payload'' [(''demo'', demo_signer)] = None"
  by (rule Commit_Verify [OF demo_node_commit, of _ demo_signer]) (auto simp: demo_signer_def)

theorem verified_node_binding_witness:
  "Verify demo_node ''payload'' [(''demo'', demo_signer)] = None
   \<and> Verify (demo_node\<lparr>d_CreatedAt := 9\<rparr>) ''payload'' [(''demo'', demo_signer)] = None
   \<and> d_Role demo_node = d_Role (demo_node\<lparr>d_CreatedAt := 9\<rparr>)"
proof -
  have v: "Verify (demo_node\<lparr>d_CreatedAt := 9\<rparr>) ''payload'' [(''demo'', demo_signer)] = None"
    using demo_node_verifies by (simp add: Verify_None)
  have "node_sized (demo_node\<lparr>d_CreatedAt := 9\<rparr>)" using demo_node_sized by (simp add: node_sized_def)
  then show ?thesis
    using verified_node_binding [OF demo_node_verifies v _ demo_node_sized] demo_node_verifies v
    by (simp add: node_bytes_def)
qed

theorem NewDAGNode_canonical_witness:
  "d_Hash (NewDAGNode 0 ''s'' ''p'' ''r'' ''x'' [''b'', ''a''] [''rb'', ''ra''] [] [] [])
   = d_Hash (NewDAGNode 1 ''s'' ''p'' ''r'' ''x'' [''a'', ''b''] [] [] [] [])"
  using NewDAGNode_canonical [of "[''b'', ''a'']" "[''a'', ''b'']"] by simp

theorem node_json_roundtrip_witness: "UnmarshalNode (MarshalNode demo_node) = Some demo_node"
  by (rule node_json_roundtrip) (simp add: node_refs_ok_def demo_node_fields HashPayload_def)

theorem Clear_spec_witness:
  "WalkSession (Clear (append_all [demo_node] NewInMemoryStore) ''session'') ''session'' = []
   \<and> Get (Clear (append_all [demo_node] NewInMemoryStore) ''session'') (d_Hash demo_node) = Inl ErrNodeNotFound"
  using Clear_spec [of "append_all [demo_node] NewInMemoryStore" "''session''"] append_all_refines [of "[demo_node]"]
  by (simp add: Get_def demo_node_fields)

end
