(* ===== verification/Session.thy ===== *)
theory Session
  imports Lineage_Props Float64
begin

text \<open>
  The session abstractions of pkg/ares/phase: the session context (context.go), the message
  accumulator (accumulator.go), the schema types (types.go), the error sentinels (errors.go), the
  failure events (hooks.go) and the \<open>Phase\<close> interface (phase.go).

  A Go value of type \<open>any\<close> is a value of the datatype \<open>anyv\<close>: \<open>VBucket\<close> is a \<open>map[string][]byte\<close>,
  \<open>VMap\<close> a \<open>map[string]any\<close>, \<open>VStruct\<close> a value of a named struct type and \<open>VMapOf\<close> a map from strings to
  values of a named type. A phase is a record: its declarations
  are data, its hooks are functions from the session context to the changed context and a possible
  error (a hook keeps what it wrote before failing). The lineage store behind the context is any
  type \<open>'s\<close> with the operations of the interface \<open>Store\<close>.
\<close>

section \<open>Dynamic values\<close>

datatype int_kind = KInt | KInt32 | KInt64 | KUint | KUint32 | KUint64

datatype anyv =
    VNil
  | VBool bool
  | VInt int_kind int
  | VFloat f64
  | VString string
  | VBytes bytes
  | VBucket "(string, bytes) gomap"
  | VMap "(string \<times> anyv) list"
  | VStrings "string list"
  | VStruct string "(string \<times> anyv) list"
  | VMapOf string "(string \<times> anyv) list"
  | VOther string

definition as_bytes :: "anyv \<Rightarrow> bytes option" where
  "as_bytes v = (case v of VBytes b \<Rightarrow> Some b | _ \<Rightarrow> None)"

definition as_bucket :: "anyv \<Rightarrow> (string, bytes) gomap option" where
  "as_bucket v = (case v of VBucket m \<Rightarrow> Some m | _ \<Rightarrow> None)"

definition as_string :: "anyv \<Rightarrow> string option" where
  "as_string v = (case v of VString s \<Rightarrow> Some s | _ \<Rightarrow> None)"

definition as_strings :: "anyv \<Rightarrow> string list option" where
  "as_strings v = (case v of VStrings xs \<Rightarrow> Some xs | _ \<Rightarrow> None)"

definition as_struct :: "string \<Rightarrow> anyv \<Rightarrow> (string \<times> anyv) list option" where
  "as_struct T v = (case v of VStruct T' fs \<Rightarrow> if T' = T then Some fs else None | _ \<Rightarrow> None)"

definition as_map_of :: "string \<Rightarrow> anyv \<Rightarrow> (string \<times> anyv) list option" where
  "as_map_of T v = (case v of VMapOf T' m \<Rightarrow> if T' = T then Some m else None | _ \<Rightarrow> None)"

section \<open>Declarations\<close>

datatype lifetime = LifetimePerSession | LifetimePerCohort | LifetimePersistent

datatype runs_at = RunsAtRegistration | RunsAtSessionStart | RunsAtInline

type_synonym session_state = string

definition StateNone :: session_state where
  "StateNone = []"

record context_key_type =
  ck_TypeName :: string
  ck_Required :: bool
  ck_Constraints :: "(string, anyv) gomap"
  ck_NoLineage :: bool

type_synonym context_schema = "(string, context_key_type) gomap"

section \<open>Errors\<close>

datatype sentinel = ErrTransient | ErrPermanent | ErrAppAttributable | ErrFrameworkBug

text \<open>An error is a sentinel with what the message says, or a phase's own error passed through with
  the name of the phase and of the hook.\<close>

datatype reason =
    NoPhases
  | EmptyName nat
  | DuplicateName string
  | MissingProvider string string
  | TypeMismatch string string string string
  | MissingMinimum string string string
  | NonNumeric string string string
  | BelowMinimum string string string
  | MissingConstraint string string string
  | ConstraintDiffers string string string
  | NoEntryState string
  | EntryStateTaken session_state string string
  | InternalStateNone string
  | InternalIsEntry string session_state
  | InternalTaken string session_state string
  | NotConnected string session_state string session_state
  | NonInlineStates string
  | EmptySessionID
  | SessionActive string
  | NoInitialPhase session_state
  | SessionNotActive string
  | NotConsumed string string session_state
  | NoPhaseForState session_state
  | HopLimit nat
  | NoCurrentPhase string session_state
  | TargetUnreached string string session_state
  | NoLineageNode
  | LineageMismatch string string string mismatch_error
  | StoreError string string store_error
  | CommitFailed string string string
  | LineageDisabled
  | SignerRequired
  | VerifiersRequired

datatype rerror = Wrapped sentinel reason | PhaseError string string string | RawError string

section \<open>The lineage store behind a context\<close>

record 's store_ops =
  so_Append :: "'s \<Rightarrow> dag_node \<Rightarrow> 's \<times> store_error option"
  so_Get :: "'s \<Rightarrow> node_ref \<Rightarrow> store_error + dag_node"
  so_Walk :: "'s \<Rightarrow> string \<Rightarrow> (dag_node \<times> string option) list"

definition mem_ops :: "mem_store store_ops" where
  "mem_ops = \<lparr>so_Append = Append, so_Get = Get, so_Walk = (\<lambda>s sid. map (\<lambda>n. (n, None)) (WalkSession s sid))\<rparr>"

section \<open>The session context\<close>

record 's sctx =
  c_SessionID :: string
  c_CohortID :: string
  c_values :: "(string, anyv) gomap"
  c_store :: "'s option"
  c_signer :: "signer option"

definition NewSessionContext :: "string \<Rightarrow> 's sctx" where
  "NewSessionContext sid = \<lparr>c_SessionID = sid, c_CohortID = [], c_values = [], c_store = None, c_signer = None\<rparr>"

definition ctx_Get :: "'s sctx \<Rightarrow> string \<Rightarrow> anyv option" where
  "ctx_Get c key = map_of (c_values c) key"

definition ctx_Set :: "string \<Rightarrow> anyv \<Rightarrow> 's sctx \<Rightarrow> 's sctx" where
  "ctx_Set key v c = c\<lparr>c_values := AList.update key v (c_values c)\<rparr>"

definition ctx_Update :: "string \<Rightarrow> (anyv \<Rightarrow> anyv) \<Rightarrow> 's sctx \<Rightarrow> 's sctx" where
  "ctx_Update key fn c =
     (let cur = (case map_of (c_values c) key of Some v \<Rightarrow> v | None \<Rightarrow> VNil)
      in c\<lparr>c_values := AList.update key (fn cur) (c_values c)\<rparr>)"

definition ctx_Has :: "'s sctx \<Rightarrow> string \<Rightarrow> bool" where
  "ctx_Has c key \<longleftrightarrow> map_of (c_values c) key \<noteq> None"

definition ctx_Keys :: "'s sctx \<Rightarrow> string list" where
  "ctx_Keys c = map fst (c_values c)"

text \<open>The generic accessors, for the type the assertion \<open>as_T\<close> recognises; \<open>MustGet\<close> is \<open>None\<close>
  where the code panics.\<close>

definition MustGet :: "(anyv \<Rightarrow> 't option) \<Rightarrow> 's sctx \<Rightarrow> string \<Rightarrow> 't option" where
  "MustGet as_T c key = (case ctx_Get c key of None \<Rightarrow> None | Some v \<Rightarrow> as_T v)"

definition TryGet :: "(anyv \<Rightarrow> 't option) \<Rightarrow> 's sctx \<Rightarrow> string \<Rightarrow> 't option" where
  "TryGet as_T c key = (case ctx_Get c key of None \<Rightarrow> None | Some v \<Rightarrow> as_T v)"

text \<open>The walk stops at the first error the store reports.\<close>

fun until_error :: "(dag_node \<times> string option) list \<Rightarrow> dag_node list" where
  "until_error [] = []"
| "until_error ((n, err) # rest) = (if err \<noteq> None then [] else n # until_error rest)"

definition LineageDAG :: "'s store_ops \<Rightarrow> 's sctx \<Rightarrow> dag_node list" where
  "LineageDAG ops c = (case c_store c of None \<Rightarrow> [] | Some s \<Rightarrow> until_error (so_Walk ops s (c_SessionID c)))"

definition CommitArtifact ::
  "'s store_ops \<Rightarrow> int \<Rightarrow> string \<Rightarrow> string \<Rightarrow> bytes \<Rightarrow> dag_node list \<Rightarrow> 's sctx \<Rightarrow> 's sctx \<times> (rerror + dag_node)" where
  "CommitArtifact ops now phaseID role payload parents c =
     (case (c_store c, c_signer c) of
        (Some s, Some sg) \<Rightarrow>
          (case Commit now (c_SessionID c) phaseID role payload parents (Some sg) of
             Inl err \<Rightarrow> (c, Inl (Wrapped ErrFrameworkBug (CommitFailed phaseID role err)))
           | Inr node \<Rightarrow>
               (let (s', err) = so_Append ops s node; c' = c\<lparr>c_store := Some s'\<rparr>
                in case err of
                     None \<Rightarrow> (c', Inr node)
                   | Some ErrNodeExists \<Rightarrow> (c', Inr node)
                   | Some e \<Rightarrow> (c', Inl (Wrapped ErrFrameworkBug (StoreError phaseID role e)))))
      | _ \<Rightarrow> (c, Inl (Wrapped ErrPermanent LineageDisabled)))"

section \<open>Accumulating messages\<close>

definition AccumulateMessage :: "string \<Rightarrow> string \<Rightarrow> bytes \<Rightarrow> 's sctx \<Rightarrow> 's sctx" where
  "AccumulateMessage bucketKey from payload c =
     ctx_Update bucketKey (\<lambda>cur. VBucket (AList.update from payload
        (case as_bucket cur of Some m \<Rightarrow> m | None \<Rightarrow> []))) c"

definition MessageCount :: "'s sctx \<Rightarrow> string \<Rightarrow> int" where
  "MessageCount c bucketKey =
     (case ctx_Get c bucketKey of
        None \<Rightarrow> 0
      | Some v \<Rightarrow> int (length (case as_bucket v of Some m \<Rightarrow> m | None \<Rightarrow> [])))"

definition AccumulatedMessages :: "'s sctx \<Rightarrow> string \<Rightarrow> (string, bytes) gomap" where
  "AccumulatedMessages c bucketKey =
     (case ctx_Get c bucketKey of
        None \<Rightarrow> []
      | Some v \<Rightarrow> (case as_bucket v of Some m \<Rightarrow> m | None \<Rightarrow> []))"

definition QuorumReached :: "'s sctx \<Rightarrow> string \<Rightarrow> int \<Rightarrow> bool" where
  "QuorumReached c bucketKey n \<longleftrightarrow> n \<le> MessageCount c bucketKey"

section \<open>Phases\<close>

type_synonym 's hook = "'s sctx \<Rightarrow> 's sctx \<times> string option"

record 's phase =
  ph_Name :: string
  ph_Lifetime :: lifetime
  ph_RunsAt :: runs_at
  ph_EntryState :: session_state
  ph_ExitState :: session_state
  ph_InternalStates :: "session_state list"
  ph_ConsumedMessageTypes :: "string list"
  ph_Requires :: context_schema
  ph_Provides :: context_schema
  ph_Enter :: "'s hook"
  ph_OnMessage :: "string \<Rightarrow> string \<Rightarrow> bytes \<Rightarrow> 's hook"
  ph_CheckComplete :: "'s sctx \<Rightarrow> bool"
  ph_Exit :: "'s hook"

record failure_event =
  fe_Kind :: string
  fe_SessionID :: string
  fe_PhaseID :: string
  fe_Role :: string
  fe_Attributee :: string
  fe_DAGNodes :: "dag_node list"

section \<open>Facts about contexts\<close>

lemma ctx_Get_Set: "ctx_Get (ctx_Set k v c) key = (if key = k then Some v else ctx_Get c key)"
  by (simp add: ctx_Get_def ctx_Set_def gomap_simps)

lemma AccumulatedMessages_Accumulate:
  "map_of (AccumulatedMessages (AccumulateMessage b from payload c) b)
     = (map_of (AccumulatedMessages c b))(from \<mapsto> payload)"
  by (auto simp: AccumulatedMessages_def AccumulateMessage_def ctx_Update_def ctx_Get_def gomap_simps
      as_bucket_def fun_eq_iff split: option.splits anyv.splits)

end
