(* ===== verification/Runner.thy ===== *)
theory Runner
  imports Session
begin

text \<open>
  The session runner (pkg/ares/phase/runner.go, runner\_lineage.go, compose\_with.go, options.go).

  \<open>Compose\<close> validates a list of phases and derives the state machine; \<open>BeginSession\<close>,
  \<open>HandleMessage\<close>, \<open>HandleLineageMessage\<close>, \<open>AdvanceToState\<close> and \<open>EndSession\<close> drive sessions
  through it. The loops of \<open>advance\<close> and \<open>AdvanceToState\<close> are bounded by the code's own hop
  limit, which is the argument of the recursion here. A result \<open>None\<close> is a Go panic.

  All contexts of a runner share its lineage store by pointer: a hook is run on the context with
  the runner's current store, and the store it leaves is the runner's. The text \<open>fmt.Sprintf\<close>
  gives a floating-point number is the parameter \<open>ff\<close>.
\<close>

section \<open>Constraints\<close>

definition asFloat :: "anyv \<Rightarrow> f64 option" where
  "asFloat v = (case v of VInt k i \<Rightarrow> Some (f64_int i) | VFloat x \<Rightarrow> Some x | _ \<Rightarrow> None)"

definition atLeast :: "anyv \<Rightarrow> anyv \<Rightarrow> bool option" where
  "atLeast a b = (case (asFloat a, asFloat b) of (Some x, Some y) \<Rightarrow> Some (fle y x) | _ \<Rightarrow> None)"

fun join_sp :: "string list \<Rightarrow> string" where
  "join_sp [] = []"
| "join_sp [x] = x"
| "join_sp (x # xs) = x @ '' '' @ join_sp xs"

definition sprint_bytes :: "bytes \<Rightarrow> string" where
  "sprint_bytes b = ''['' @ join_sp (map (\<lambda>c. itoa (of_char c)) b) @ '']''"

text \<open>\<open>fmt.Sprintf("%v", v)\<close>: maps print their keys in order.\<close>

fun sprint_v :: "(f64 \<Rightarrow> string) \<Rightarrow> anyv \<Rightarrow> string" where
  "sprint_v ff VNil = ''<nil>''"
| "sprint_v ff (VBool b) = (if b then ''true'' else ''false'')"
| "sprint_v ff (VInt k i) = itoa i"
| "sprint_v ff (VFloat x) = ff x"
| "sprint_v ff (VString s) = s"
| "sprint_v ff (VBytes b) = sprint_bytes b"
| "sprint_v ff (VBucket m) =
     ''map['' @ join_sp (map (\<lambda>(k, b). k @ '':'' @ sprint_bytes b) (sort_key fst m)) @ '']''"
| "sprint_v ff (VMap m) =
     ''map['' @ join_sp (map (\<lambda>(k, t). k @ '':'' @ t) (sort_key fst (map (\<lambda>(k, v). (k, sprint_v ff v)) m))) @ '']''"
| "sprint_v ff (VStrings xs) = ''['' @ join_sp xs @ '']''"
| "sprint_v ff (VStruct T fs) = ''{'' @ join_sp (map (\<lambda>(k, v). sprint_v ff v) fs) @ ''}''"
| "sprint_v ff (VMapOf T m) =
     ''map['' @ join_sp (map (\<lambda>(k, t). k @ '':'' @ t) (sort_key fst (map (\<lambda>(k, v). (k, sprint_v ff v)) m))) @ '']''"
| "sprint_v ff (VOther t) = t"

definition equalConstraint :: "(f64 \<Rightarrow> string) \<Rightarrow> anyv \<Rightarrow> anyv \<Rightarrow> bool" where
  "equalConstraint ff a b \<longleftrightarrow> sprint_v ff a = sprint_v ff b"

definition is_min_name :: "string \<Rightarrow> bool" where
  "is_min_name n \<longleftrightarrow> length n > 4 \<and> drop (length n - 4) n = ''_min''"

fun checkConstraints ::
  "(f64 \<Rightarrow> string) \<Rightarrow> string \<Rightarrow> string \<Rightarrow> (string \<times> anyv) list \<Rightarrow> (string, anyv) gomap \<Rightarrow> reason option" where
  "checkConstraints ff ph key [] got = None"
| "checkConstraints ff ph key ((cname, cval) # want) got =
     (if cname = [] then checkConstraints ff ph key want got
      else if is_min_name cname then
        (case map_of got (take (length cname - 4) cname) of
           None \<Rightarrow> Some (MissingMinimum ph key cname)
         | Some gv \<Rightarrow>
             (case atLeast gv cval of
                None \<Rightarrow> Some (NonNumeric ph key cname)
              | Some ok \<Rightarrow> if \<not> ok then Some (BelowMinimum ph key cname)
                           else checkConstraints ff ph key want got))
      else
        (case map_of got cname of
           None \<Rightarrow> Some (MissingConstraint ph key cname)
         | Some gv \<Rightarrow> if \<not> equalConstraint ff gv cval then Some (ConstraintDiffers ph key cname)
                      else checkConstraints ff ph key want got))"

fun validateRequires ::
  "(f64 \<Rightarrow> string) \<Rightarrow> string \<Rightarrow> (string \<times> context_key_type) list \<Rightarrow> context_schema \<Rightarrow> reason option" where
  "validateRequires ff ph [] provided = None"
| "validateRequires ff ph ((key, want) # reqs) provided =
     (case map_of provided key of
        None \<Rightarrow> if ck_Required want then Some (MissingProvider ph key)
                else validateRequires ff ph reqs provided
      | Some got \<Rightarrow>
          if ck_TypeName want \<noteq> [] \<and> ck_TypeName got \<noteq> [] \<and> ck_TypeName want \<noteq> ck_TypeName got
          then Some (TypeMismatch ph key (ck_TypeName got) (ck_TypeName want))
          else (case checkConstraints ff ph key (ck_Constraints want) (ck_Constraints got) of
                  Some e \<Rightarrow> Some e
                | None \<Rightarrow> validateRequires ff ph reqs provided))"

section \<open>The runner\<close>

record 's tracker =
  t_ctx :: "'s sctx"
  t_state :: session_state
  t_current :: "'s phase option"
  t_entered :: bool

record 's runner =
  r_phases :: "'s phase list"
  r_byName :: "(string, 's phase) gomap"
  r_byEntryState :: "(session_state, 's phase) gomap"
  r_byInternalState :: "(session_state, 's phase) gomap"
  r_initialState :: session_state
  r_sessions :: "(string, 's tracker) gomap"
  r_store :: "'s option"
  r_signer :: "signer option"
  r_verifiers :: "(string, signer) gomap"
  r_hook :: bool
  r_events :: "failure_event list"

definition new_runner :: "'s phase list \<Rightarrow> 's runner" where
  "new_runner phases = \<lparr>r_phases = phases, r_byName = [], r_byEntryState = [], r_byInternalState = [],
     r_initialState = [], r_sessions = [], r_store = None, r_signer = None, r_verifiers = [],
     r_hook = False, r_events = []\<rparr>"

text \<open>The loop over the internal states of an inline phase.\<close>

fun add_internal ::
  "string \<Rightarrow> session_state \<Rightarrow> 's phase \<Rightarrow> session_state list \<Rightarrow> 's runner \<Rightarrow> reason + 's runner" where
  "add_internal name entry p [] r = Inr r"
| "add_internal name entry p (sub # subs) r =
     (if sub = StateNone then Inl (InternalStateNone name)
      else if sub = entry then Inl (InternalIsEntry name sub)
      else (case map_of (r_byEntryState r) sub of
              Some q \<Rightarrow> Inl (InternalTaken name sub (ph_Name q))
            | None \<Rightarrow>
                (case map_of (r_byInternalState r) sub of
                   Some q \<Rightarrow> Inl (InternalTaken name sub (ph_Name q))
                 | None \<Rightarrow> add_internal name entry p subs
                     (r\<lparr>r_byInternalState := AList.update sub p (r_byInternalState r)\<rparr>))))"

definition add_provides :: "context_schema \<Rightarrow> context_schema \<Rightarrow> context_schema" where
  "add_provides ps provided = fold (\<lambda>(k, t) m. AList.update k t m) ps provided"

definition add_inline ::
  "'s phase \<Rightarrow> 's phase option \<Rightarrow> 's runner \<Rightarrow> reason + 's runner" where
  "add_inline p prev r =
     (let name = ph_Name p; entry = ph_EntryState p
      in if entry = StateNone then Inl (NoEntryState name)
         else (case map_of (r_byEntryState r) entry of
                 Some q \<Rightarrow> Inl (EntryStateTaken entry (ph_Name q) name)
               | None \<Rightarrow>
                   (case add_internal name entry p (ph_InternalStates p)
                           (r\<lparr>r_byEntryState := AList.update entry p (r_byEntryState r)\<rparr>) of
                      Inl e \<Rightarrow> Inl e
                    | Inr r1 \<Rightarrow>
                        (case prev of
                           None \<Rightarrow> Inr (r1\<lparr>r_initialState := entry\<rparr>)
                         | Some q \<Rightarrow>
                             if ph_ExitState q \<noteq> entry
                             then Inl (NotConnected (ph_Name q) (ph_ExitState q) name entry)
                             else Inr r1))))"

fun compose_loop ::
  "(f64 \<Rightarrow> string) \<Rightarrow> 's phase list \<Rightarrow> 's phase option \<Rightarrow> context_schema \<Rightarrow> 's runner \<Rightarrow> reason + 's runner" where
  "compose_loop ff [] prev provided r = Inr r"
| "compose_loop ff (p # ps) prev provided r =
     (let name = ph_Name p
      in if name = [] then Inl (EmptyName (length (r_byName r)))
         else if map_of (r_byName r) name \<noteq> None then Inl (DuplicateName name)
         else
           (let r1 = r\<lparr>r_byName := AList.update name p (r_byName r)\<rparr>
            in case validateRequires ff name (ph_Requires p) provided of
                 Some e \<Rightarrow> Inl e
               | None \<Rightarrow>
                   (let provided1 = add_provides (ph_Provides p) provided
                    in if ph_RunsAt p = RunsAtInline then
                         (case add_inline p prev r1 of
                            Inl e \<Rightarrow> Inl e
                          | Inr r2 \<Rightarrow> compose_loop ff ps (Some p) provided1 r2)
                       else if ph_EntryState p \<noteq> StateNone \<or> ph_ExitState p \<noteq> StateNone
                       then Inl (NonInlineStates name)
                       else compose_loop ff ps prev provided1 r1)))"

definition Compose :: "(f64 \<Rightarrow> string) \<Rightarrow> 's phase list \<Rightarrow> rerror + 's runner" where
  "Compose ff phases =
     (if phases = [] then Inl (Wrapped ErrPermanent NoPhases)
      else (case compose_loop ff phases None [] (new_runner phases) of
              Inl e \<Rightarrow> Inl (Wrapped ErrPermanent e)
            | Inr r \<Rightarrow> Inr r))"

section \<open>Lineage-enabled runners\<close>

record 's runner_opts =
  ro_store :: "'s option"
  ro_signer :: "signer option"
  ro_peerVerifiers :: "(string, signer) gomap"
  ro_failureHook :: bool

definition no_opts :: "'s runner_opts" where
  "no_opts = \<lparr>ro_store = None, ro_signer = None, ro_peerVerifiers = [], ro_failureHook = False\<rparr>"

definition WithStore :: "'s \<Rightarrow> 's runner_opts \<Rightarrow> 's runner_opts" where
  "WithStore s opt = opt\<lparr>ro_store := Some s\<rparr>"

definition WithSigner :: "signer \<Rightarrow> 's runner_opts \<Rightarrow> 's runner_opts" where
  "WithSigner s opt = opt\<lparr>ro_signer := Some s\<rparr>"

definition WithPeerVerifiers :: "(string, signer) gomap \<Rightarrow> 's runner_opts \<Rightarrow> 's runner_opts" where
  "WithPeerVerifiers v opt = opt\<lparr>ro_peerVerifiers := v\<rparr>"

definition WithLineageFailureHook :: "'s runner_opts \<Rightarrow> 's runner_opts" where
  "WithLineageFailureHook opt = opt\<lparr>ro_failureHook := True\<rparr>"

definition needsPeers :: "'s phase list \<Rightarrow> bool" where
  "needsPeers phases \<longleftrightarrow> list_ex (\<lambda>p. ph_ConsumedMessageTypes p \<noteq> []) phases"

definition attachLineage ::
  "'s \<Rightarrow> signer \<Rightarrow> (string, signer) gomap \<Rightarrow> bool \<Rightarrow> 's runner \<Rightarrow> 's runner" where
  "attachLineage s sg vs hook r =
     r\<lparr>r_store := Some s, r_signer := Some sg, r_verifiers := vs, r_hook := hook\<rparr>"

text \<open>\<open>fresh\<close> is the store \<open>ComposeWith\<close> creates when the options name none.\<close>

definition ComposeWith ::
  "(f64 \<Rightarrow> string) \<Rightarrow> 's \<Rightarrow> 's phase list \<Rightarrow> ('s runner_opts \<Rightarrow> 's runner_opts) list \<Rightarrow> rerror + 's runner" where
  "ComposeWith ff fresh phases opts =
     (let opt = fold (\<lambda>f x. f x) opts no_opts
      in case ro_signer opt of
           None \<Rightarrow> Inl (Wrapped ErrPermanent SignerRequired)
         | Some sg \<Rightarrow>
             if needsPeers phases \<and> length (ro_peerVerifiers opt) = 0
             then Inl (Wrapped ErrPermanent VerifiersRequired)
             else
               (let store = (case ro_store opt of Some s \<Rightarrow> s | None \<Rightarrow> fresh);
                    vs = (if map_of (ro_peerVerifiers opt) (sg_Algorithm sg) = None
                          then AList.update (sg_Algorithm sg) sg (ro_peerVerifiers opt)
                          else ro_peerVerifiers opt)
                in case Compose ff phases of
                     Inl e \<Rightarrow> Inl e
                   | Inr r \<Rightarrow> Inr (attachLineage store sg vs (ro_failureHook opt) r)))"

definition fireFailureHook :: "failure_event \<Rightarrow> 's runner \<Rightarrow> 's runner" where
  "fireFailureHook ev r = (if r_hook r then r\<lparr>r_events := r_events r @ [ev]\<rparr> else r)"

section \<open>Reading the runner\<close>

definition Phases :: "'s runner \<Rightarrow> 's phase list" where
  "Phases r = r_phases r"

definition InitialState :: "'s runner \<Rightarrow> session_state" where
  "InitialState r = r_initialState r"

definition PhaseForState :: "'s runner \<Rightarrow> session_state \<Rightarrow> 's phase option" where
  "PhaseForState r s =
     (case map_of (r_byEntryState r) s of Some p \<Rightarrow> Some p | None \<Rightarrow> map_of (r_byInternalState r) s)"

definition CurrentState :: "'s runner \<Rightarrow> string \<Rightarrow> session_state \<times> bool" where
  "CurrentState r sid = (case map_of (r_sessions r) sid of Some t \<Rightarrow> (t_state t, True) | None \<Rightarrow> (StateNone, False))"

definition session_context :: "'s runner \<Rightarrow> string \<Rightarrow> 's sctx option" where
  "session_context r sid = map_option t_ctx (map_of (r_sessions r) sid)"

definition phaseConsumes :: "'s phase \<Rightarrow> string \<Rightarrow> bool" where
  "phaseConsumes p msgType \<longleftrightarrow> List.member (ph_ConsumedMessageTypes p) msgType"

end
