(* ===== verification/Runner_Steps.thy ===== *)
theory Runner_Steps
  imports Runner
begin

text \<open>
  Driving sessions: the methods of \<open>SessionRunner\<close> that change a session (runner.go) and the lineage
  dispatch around them (runner\_lineage.go).
\<close>

section \<open>Hooks and lineage commits\<close>

definition run_hook :: "'s hook \<Rightarrow> 's option \<Rightarrow> 's tracker \<Rightarrow> 's option \<times> 's tracker \<times> string option" where
  "run_hook hk lin t = (let (c, err) = hk ((t_ctx t)\<lparr>c_store := lin\<rparr>) in (c_store c, t\<lparr>t_ctx := c\<rparr>, err))"

fun find_payload :: "(dag_node \<times> string option) list \<Rightarrow> node_ref \<Rightarrow> string + dag_node option" where
  "find_payload [] h = Inr None"
| "find_payload ((n, err) # rest) h =
     (case err of
        Some e \<Rightarrow> Inl e
      | None \<Rightarrow> if d_PayloadHash n = h then Inr (Some n) else find_payload rest h)"

fun resolve_keys ::
  "'s store_ops \<Rightarrow> (string \<times> context_key_type) list \<Rightarrow> 's sctx \<Rightarrow> 's \<Rightarrow> string + dag_node list" where
  "resolve_keys ops [] c s = Inr []"
| "resolve_keys ops ((key, kt) # kts) c s =
     (case ctx_Get c key of
        None \<Rightarrow> resolve_keys ops kts c s
      | Some raw \<Rightarrow>
          (case as_bytes raw of
             None \<Rightarrow> resolve_keys ops kts c s
           | Some payload \<Rightarrow>
               (case find_payload (so_Walk ops s (c_SessionID c)) (HashPayload payload) of
                  Inl e \<Rightarrow> Inl e
                | Inr found \<Rightarrow>
                    (case resolve_keys ops kts c s of
                       Inl e \<Rightarrow> Inl e
                     | Inr ns \<Rightarrow> Inr (case found of Some n \<Rightarrow> n # ns | None \<Rightarrow> ns)))))"

definition resolveParents :: "'s store_ops \<Rightarrow> 's phase \<Rightarrow> 's sctx \<Rightarrow> 's \<Rightarrow> string + dag_node list" where
  "resolveParents ops p c s = resolve_keys ops (ph_Requires p) c s"

fun commit_keys ::
  "'s store_ops \<Rightarrow> int \<Rightarrow> signer option \<Rightarrow> string \<Rightarrow> dag_node list \<Rightarrow> (string \<times> context_key_type) list \<Rightarrow>
   's sctx \<Rightarrow> 's \<Rightarrow> 's \<times> rerror option" where
  "commit_keys ops now sg name parents [] c s = (s, None)"
| "commit_keys ops now sg name parents ((key, kt) # kts) c s =
     (if ck_NoLineage kt then commit_keys ops now sg name parents kts c s
      else (case ctx_Get c key of
              None \<Rightarrow> commit_keys ops now sg name parents kts c s
            | Some raw \<Rightarrow>
                (case as_bytes raw of
                   None \<Rightarrow> commit_keys ops now sg name parents kts c s
                 | Some payload \<Rightarrow>
                     (case Commit now (c_SessionID c) name key payload parents sg of
                        Inl err \<Rightarrow> (s, Some (Wrapped ErrFrameworkBug (CommitFailed name key err)))
                      | Inr node \<Rightarrow>
                          (let (s', err) = so_Append ops s node
                           in case err of
                                None \<Rightarrow> commit_keys ops now sg name parents kts c s'
                              | Some ErrNodeExists \<Rightarrow> commit_keys ops now sg name parents kts c s'
                              | Some e \<Rightarrow> (s', Some (Wrapped ErrFrameworkBug (StoreError name key e))))))))"

definition commitPhaseOutputsIfEnabled ::
  "'s store_ops \<Rightarrow> int \<Rightarrow> signer option \<Rightarrow> 's phase \<Rightarrow> 's sctx \<Rightarrow> 's option \<Rightarrow> 's option \<times> rerror option" where
  "commitPhaseOutputsIfEnabled ops now sg p c lin =
     (case lin of
        None \<Rightarrow> (None, None)
      | Some s \<Rightarrow>
          (case resolveParents ops p c s of
             Inl e \<Rightarrow> (Some s, Some (RawError e))
           | Inr parents \<Rightarrow>
               (let (s', err) = commit_keys ops now sg (ph_Name p) parents (ph_Provides p) c s
                in (Some s', err))))"

section \<open>Advancing\<close>

text \<open>One turn of the loop of \<open>advance\<close>, with the number of hops left; \<open>None\<close> is the panic on a
  tracker without a current phase.\<close>

fun advance_hops ::
  "'s store_ops \<Rightarrow> int \<Rightarrow> 's runner \<Rightarrow> nat \<Rightarrow> 's option \<Rightarrow> 's tracker \<Rightarrow>
   ('s option \<times> 's tracker \<times> bool \<times> rerror option) option" where
  "advance_hops ops now r 0 lin t =
     Some (lin, t, False, Some (Wrapped ErrFrameworkBug (HopLimit (length (r_phases r) + 1))))"
| "advance_hops ops now r (Suc n) lin t =
     (case t_current t of
        None \<Rightarrow> None
      | Some cur \<Rightarrow>
          (let (lin1, t1, err) = run_hook (ph_Exit cur) lin t
           in case err of
                Some e \<Rightarrow> Some (lin1, t1, False, Some (PhaseError (ph_Name cur) ''Exit'' e))
              | None \<Rightarrow>
                  (let (lin2, cerr) = commitPhaseOutputsIfEnabled ops now (r_signer r) cur (t_ctx t1) lin1
                   in case cerr of
                        Some e \<Rightarrow> Some (lin2, t1, False, Some e)
                      | None \<Rightarrow>
                          if ph_ExitState cur = StateNone
                          then Some (lin2, t1\<lparr>t_state := StateNone, t_current := None\<rparr>, True, None)
                          else (case map_of (r_byEntryState r) (ph_ExitState cur) of
                                  None \<Rightarrow> Some (lin2, t1, False,
                                    Some (Wrapped ErrFrameworkBug (NoPhaseForState (ph_ExitState cur))))
                                | Some nxt \<Rightarrow>
                                    (let t2 = t1\<lparr>t_state := ph_ExitState cur, t_current := Some nxt, t_entered := False\<rparr>;
                                         (lin3, t3, eerr) = run_hook (ph_Enter nxt) lin2 t2
                                     in case eerr of
                                          Some e \<Rightarrow> Some (lin3, t3, False, Some (PhaseError (ph_Name nxt) ''Enter'' e))
                                        | None \<Rightarrow>
                                            (let t4 = t3\<lparr>t_entered := True\<rparr>
                                             in if ph_ConsumedMessageTypes nxt \<noteq> [] \<or> \<not> ph_CheckComplete nxt (t_ctx t4)
                                                then Some (lin3, t4, True, None)
                                                else advance_hops ops now r n lin3 t4))))))"

definition advance ::
  "'s store_ops \<Rightarrow> int \<Rightarrow> 's runner \<Rightarrow> 's option \<Rightarrow> 's tracker \<Rightarrow>
   ('s option \<times> 's tracker \<times> bool \<times> rerror option) option" where
  "advance ops now r lin t = advance_hops ops now r (length (r_phases r) + 1) lin t"

text \<open>Trackers and the store are changed through pointers: what a call leaves behind is written back
  whether or not it ends in an error.\<close>

definition put_session :: "string \<Rightarrow> 's option \<Rightarrow> 's tracker \<Rightarrow> 's runner \<Rightarrow> 's runner" where
  "put_session sid lin t r = r\<lparr>r_sessions := AList.update sid t (r_sessions r), r_store := lin\<rparr>"

section \<open>Sessions\<close>

definition BeginSession :: "string \<Rightarrow> string \<Rightarrow> 's runner \<Rightarrow> 's runner \<times> (rerror + 's sctx)" where
  "BeginSession sid cohortID r =
     (if sid = [] then (r, Inl (Wrapped ErrPermanent EmptySessionID))
      else if map_of (r_sessions r) sid \<noteq> None then (r, Inl (Wrapped ErrPermanent (SessionActive sid)))
      else
        (let ctx = (NewSessionContext sid)\<lparr>c_CohortID := cohortID, c_store := r_store r, c_signer := r_signer r\<rparr>
         in case map_of (r_byEntryState r) (r_initialState r) of
              None \<Rightarrow> (r, Inl (Wrapped ErrFrameworkBug (NoInitialPhase (r_initialState r))))
            | Some first \<Rightarrow>
                (let t = \<lparr>t_ctx = ctx, t_state = r_initialState r, t_current = Some first, t_entered = False\<rparr>;
                     r1 = put_session sid (r_store r) t r;
                     (lin, t1, err) = run_hook (ph_Enter first) (r_store r) t;
                     r2 = put_session sid lin t1 r1
                 in case err of
                      Some e \<Rightarrow> (r2\<lparr>r_sessions := AList.delete sid (r_sessions r2)\<rparr>,
                                 Inl (PhaseError (ph_Name first) ''Enter'' e))
                    | None \<Rightarrow> (put_session sid lin (t1\<lparr>t_entered := True\<rparr>) r2, Inr (t_ctx t1)))))"

definition HandleMessage ::
  "'s store_ops \<Rightarrow> int \<Rightarrow> string \<Rightarrow> string \<Rightarrow> string \<Rightarrow> bytes \<Rightarrow> 's runner \<Rightarrow>
   ('s runner \<times> bool \<times> rerror option) option" where
  "HandleMessage ops now sid msgType from payload r =
     (case map_of (r_sessions r) sid of
        None \<Rightarrow> Some (r, False, Some (Wrapped ErrPermanent (SessionNotActive sid)))
      | Some t \<Rightarrow>
          (case t_current t of
             None \<Rightarrow> None
           | Some cur \<Rightarrow>
               if \<not> phaseConsumes cur msgType
               then Some (r, False, Some (Wrapped ErrPermanent (NotConsumed (ph_Name cur) msgType (t_state t))))
               else
                 (let (lin1, t1, err) = run_hook (ph_OnMessage cur msgType from payload) (r_store r) t
                  in case err of
                       Some e \<Rightarrow> Some (put_session sid lin1 t1 r, False, Some (PhaseError (ph_Name cur) ''OnMessage'' e))
                     | None \<Rightarrow>
                         if \<not> ph_CheckComplete cur (t_ctx t1)
                         then Some (put_session sid lin1 t1 r, False, None)
                         else (case advance ops now r lin1 t1 of
                                 None \<Rightarrow> None
                               | Some (lin2, t2, moved, e) \<Rightarrow> Some (put_session sid lin2 t2 r, moved, e)))))"

text \<open>The walk of \<open>AdvanceToState\<close>, with the number of hops left.\<close>

fun walk_hops ::
  "'s store_ops \<Rightarrow> int \<Rightarrow> string \<Rightarrow> session_state \<Rightarrow> 's runner \<Rightarrow> nat \<Rightarrow> 's option \<Rightarrow> 's tracker \<Rightarrow>
   's option \<times> 's tracker \<times> rerror option" where
  "walk_hops ops now sid target r 0 lin t =
     (lin, t, Some (Wrapped ErrFrameworkBug (HopLimit (length (r_phases r) + 1))))"
| "walk_hops ops now sid target r (Suc n) lin t =
     (if t_state t = target then (lin, t, None)
      else
        (case t_current t of
           None \<Rightarrow> (lin, t, Some (Wrapped ErrFrameworkBug (NoCurrentPhase sid target)))
         | Some cur \<Rightarrow>
             (let (lin1, t1, err) = run_hook (ph_Exit cur) lin t
              in case err of
                   Some e \<Rightarrow> (lin1, t1, Some (PhaseError (ph_Name cur) ''Exit'' e))
                 | None \<Rightarrow>
                     (let (lin2, cerr) = commitPhaseOutputsIfEnabled ops now (r_signer r) cur (t_ctx t1) lin1
                      in case cerr of
                           Some e \<Rightarrow> (lin2, t1, Some e)
                         | None \<Rightarrow>
                             if ph_ExitState cur = StateNone
                             then (lin2, t1, Some (Wrapped ErrPermanent (TargetUnreached sid (ph_Name cur) target)))
                             else (case map_of (r_byEntryState r) (ph_ExitState cur) of
                                     None \<Rightarrow> (lin2, t1, Some (Wrapped ErrFrameworkBug (NoPhaseForState (ph_ExitState cur))))
                                   | Some nxt \<Rightarrow>
                                       (let t2 = t1\<lparr>t_state := ph_ExitState cur, t_current := Some nxt, t_entered := False\<rparr>;
                                            (lin3, t3, eerr) = run_hook (ph_Enter nxt) lin2 t2
                                        in case eerr of
                                             Some e \<Rightarrow> (lin3, t3, Some (PhaseError (ph_Name nxt) ''Enter'' e))
                                           | None \<Rightarrow> walk_hops ops now sid target r n lin3 (t3\<lparr>t_entered := True\<rparr>)))))))"

definition AdvanceToState ::
  "'s store_ops \<Rightarrow> int \<Rightarrow> string \<Rightarrow> session_state \<Rightarrow> 's runner \<Rightarrow> 's runner \<times> rerror option" where
  "AdvanceToState ops now sid target r =
     (case map_of (r_sessions r) sid of
        None \<Rightarrow> (r, Some (Wrapped ErrPermanent (SessionNotActive sid)))
      | Some t \<Rightarrow>
          if t_state t = target then (r, None)
          else if (case t_current t of None \<Rightarrow> False | Some cur \<Rightarrow> List.member (ph_InternalStates cur) target)
          then (r, None)
          else
            (let (lin, t1, err) = walk_hops ops now sid target r (length (r_phases r) + 1) (r_store r) t
             in (put_session sid lin t1 r, err)))"

definition EndSession :: "string \<Rightarrow> 's runner \<Rightarrow> 's runner" where
  "EndSession sid r = r\<lparr>r_sessions := AList.delete sid (r_sessions r)\<rparr>"

section \<open>Verified dispatch\<close>

fun missing_parent :: "'s store_ops \<Rightarrow> 's \<Rightarrow> nat \<Rightarrow> node_ref list \<Rightarrow> (nat \<times> node_ref) option" where
  "missing_parent ops s i [] = None"
| "missing_parent ops s i (p # ps) =
     (case so_Get ops s p of Inl e \<Rightarrow> Some (i, p) | Inr n \<Rightarrow> missing_parent ops s (i + 1) ps)"

definition lineage_check :: "'s store_ops \<Rightarrow> (string, signer) gomap \<Rightarrow> 's \<Rightarrow> dag_node \<Rightarrow> bytes \<Rightarrow> mismatch_error option" where
  "lineage_check ops vs s node payload =
     (case Verify node payload vs of
        Some e \<Rightarrow> Some e
      | None \<Rightarrow>
          (case missing_parent ops s 0 (d_Parents node) of
             None \<Rightarrow> None
           | Some (i, p) \<Rightarrow> Some \<lparr>me_Field = ''ParentRef'', me_Expected = Bytes p, me_Got = NotInStore i,
                                 me_NodeHash = d_Hash node\<rparr>))"

definition HandleLineageMessage ::
  "'s store_ops \<Rightarrow> int \<Rightarrow> string \<Rightarrow> string \<Rightarrow> string \<Rightarrow> bytes \<Rightarrow> dag_node option \<Rightarrow> 's runner \<Rightarrow>
   ('s runner \<times> bool \<times> rerror option) option" where
  "HandleLineageMessage ops now sid msgType from payload lineageNode r =
     (case r_store r of
        None \<Rightarrow> HandleMessage ops now sid msgType from payload r
      | Some s \<Rightarrow>
          (case lineageNode of
             None \<Rightarrow> Some (r, False, Some (Wrapped ErrPermanent NoLineageNode))
           | Some node \<Rightarrow>
               (case lineage_check ops (r_verifiers r) s node payload of
                  Some e \<Rightarrow>
                    Some (fireFailureHook \<lparr>fe_Kind = ''mismatch-confirmed'', fe_SessionID = sid,
                            fe_PhaseID = d_PhaseID node, fe_Role = d_Role node,
                            fe_Attributee = d_Producer node, fe_DAGNodes = [node]\<rparr> r,
                          False, Some (Wrapped ErrAppAttributable (LineageMismatch sid (d_PhaseID node) (d_Role node) e)))
                | None \<Rightarrow>
                    (let (s', err) = so_Append ops s node; r1 = r\<lparr>r_store := Some s'\<rparr>
                     in case err of
                          None \<Rightarrow> HandleMessage ops now sid msgType from payload r1
                        | Some ErrNodeExists \<Rightarrow> HandleMessage ops now sid msgType from payload r1
                        | Some e \<Rightarrow> Some (r1, False, Some (Wrapped ErrFrameworkBug (StoreError (d_PhaseID node) (d_Role node) e)))))))"

definition BuildMismatchClaim ::
  "int \<Rightarrow> string \<Rightarrow> string \<Rightarrow> string \<Rightarrow> string \<Rightarrow> 's runner \<Rightarrow> rerror + dag_node" where
  "BuildMismatchClaim now sid phaseID role errText r =
     (case r_signer r of
        None \<Rightarrow> Inl (Wrapped ErrPermanent LineageDisabled)
      | Some sg \<Rightarrow>
          (case Commit now sid phaseID ''mismatch-claim'' errText [] (Some sg) of
             Inl e \<Rightarrow> Inl (RawError e)
           | Inr n \<Rightarrow> Inr n))"

definition ReportFalseLineageClaim :: "string \<Rightarrow> dag_node \<Rightarrow> 's runner \<Rightarrow> 's runner" where
  "ReportFalseLineageClaim sid claim r =
     fireFailureHook \<lparr>fe_Kind = ''mismatch-false-claim'', fe_SessionID = sid, fe_PhaseID = d_PhaseID claim,
       fe_Role = d_Role claim, fe_Attributee = d_Producer claim, fe_DAGNodes = [claim]\<rparr> r"

end
