(* ===== verification/Runner_Compose.thy ===== *)
theory Runner_Compose
  imports Runner
begin

text \<open>
  What \<open>Compose\<close> guarantees of the pipelines it accepts: unique names, one phase per entry state, a
  connected chain of inline phases, and every required context key provided by an earlier phase; and
  that its requirement check does not depend on the order in which Go iterates a map.
\<close>

section \<open>The requirement check as a specification\<close>

definition constraint_ok :: "(f64 \<Rightarrow> string) \<Rightarrow> (string, anyv) gomap \<Rightarrow> string \<times> anyv \<Rightarrow> bool" where
  "constraint_ok ff got c =
     (case c of (cname, cval) \<Rightarrow>
        cname = [] \<or>
        (if is_min_name cname
         then (\<exists>gv. map_of got (take (length cname - 4) cname) = Some gv \<and> atLeast gv cval = Some True)
         else (\<exists>gv. map_of got cname = Some gv \<and> equalConstraint ff gv cval)))"

definition require_ok :: "(f64 \<Rightarrow> string) \<Rightarrow> context_schema \<Rightarrow> string \<times> context_key_type \<Rightarrow> bool" where
  "require_ok ff provided req =
     (case req of (key, want) \<Rightarrow>
        (case map_of provided key of
           None \<Rightarrow> \<not> ck_Required want
         | Some got \<Rightarrow>
             (ck_TypeName want = [] \<or> ck_TypeName got = [] \<or> ck_TypeName want = ck_TypeName got)
             \<and> list_all (constraint_ok ff (ck_Constraints got)) (ck_Constraints want)))"

lemma constraint_ok_pair:
  "constraint_ok ff got (cname, cval) \<longleftrightarrow> cname = [] \<or>
     (if is_min_name cname
      then (\<exists>gv. map_of got (take (length cname - 4) cname) = Some gv \<and> atLeast gv cval = Some True)
      else (\<exists>gv. map_of got cname = Some gv \<and> equalConstraint ff gv cval))"
  by (simp add: constraint_ok_def)

lemma checkConstraints_None:
  "checkConstraints ff ph key want got = None \<longleftrightarrow> list_all (constraint_ok ff got) want"
proof (induction want)
  case (Cons c want)
  then show ?case by (cases c) (auto simp: constraint_ok_pair split: option.split if_split)
qed simp

lemma require_ok_pair:
  "require_ok ff provided (key, want) \<longleftrightarrow>
     (case map_of provided key of
        None \<Rightarrow> \<not> ck_Required want
      | Some got \<Rightarrow> (ck_TypeName want = [] \<or> ck_TypeName got = [] \<or> ck_TypeName want = ck_TypeName got)
          \<and> checkConstraints ff ph key (ck_Constraints want) (ck_Constraints got) = None)"
  by (cases "map_of provided key") (simp_all add: require_ok_def checkConstraints_None)

lemma validateRequires_None:
  "validateRequires ff ph reqs provided = None \<longleftrightarrow> list_all (require_ok ff provided) reqs"
proof (induction reqs)
  case (Cons r reqs)
  obtain key want where r: "r = (key, want)" by (cases r)
  show ?case unfolding r validateRequires.simps list.pred_inject require_ok_pair [where ph = ph] Cons.IH [symmetric]
    by (simp split: option.split)
qed simp

section \<open>The compose loop\<close>

definition inlines :: "'s phase list \<Rightarrow> 's phase list" where
  "inlines ps = filter (\<lambda>p. ph_RunsAt p = RunsAtInline) ps"

lemma inlines_simps [simp]:
  "inlines [] = []"
  "inlines (p # ps) = (if ph_RunsAt p = RunsAtInline then p # inlines ps else inlines ps)"
  "inlines (ps @ qs) = inlines ps @ inlines qs"
  by (simp_all add: inlines_def)

definition chained :: "'s phase list \<Rightarrow> bool" where
  "chained ps \<longleftrightarrow> successively (\<lambda>p q. ph_ExitState p = ph_EntryState q) ps"

lemma chained_snoc:
  "chained (ps @ [p]) \<longleftrightarrow> chained ps \<and> (ps \<noteq> [] \<longrightarrow> ph_ExitState (last ps) = ph_EntryState p)"
  by (auto simp: chained_def successively_append_iff)

definition supplied :: "'s phase list \<Rightarrow> bool" where
  "supplied ps \<longleftrightarrow> (\<forall>i key want. i < length ps \<and> (key, want) \<in> set (ph_Requires (ps ! i)) \<and> ck_Required want
     \<longrightarrow> (\<exists>j < i. key \<in> keys (ph_Provides (ps ! j))))"

lemma supplied_snoc:
  assumes "supplied ps"
    and "\<And>key want. (key, want) \<in> set (ph_Requires p) \<Longrightarrow> ck_Required want \<Longrightarrow>
      \<exists>q \<in> set ps. key \<in> keys (ph_Provides q)"
  shows "supplied (ps @ [p])"
  unfolding supplied_def
proof (intro allI impI)
  fix i key want
  assume a: "i < length (ps @ [p]) \<and> (key, want) \<in> set (ph_Requires ((ps @ [p]) ! i)) \<and> ck_Required want"
  show "\<exists>j<i. key \<in> keys (ph_Provides ((ps @ [p]) ! j))"
  proof (cases "i < length ps")
    case True
    then have "(key, want) \<in> set (ph_Requires (ps ! i))" "ck_Required want" using a by (auto simp: nth_append)
    then have "\<exists>j<i. key \<in> keys (ph_Provides (ps ! j))" using True assms(1) unfolding supplied_def by blast
    then show ?thesis using True by (metis dual_order.strict_trans nth_append)
  next
    case False
    then have i: "i = length ps" using a by simp
    then have "(key, want) \<in> set (ph_Requires p)" "ck_Required want" using a by auto
    then obtain q where "q \<in> set ps" "key \<in> keys (ph_Provides q)" using assms(2) by blast
    then show ?thesis by (auto simp: i in_set_conv_nth nth_append)
  qed
qed

text \<open>What has been established after the phases \<open>ds\<close> have been added.\<close>

definition compose_inv :: "'s phase list \<Rightarrow> 's phase option \<Rightarrow> context_schema \<Rightarrow> 's runner \<Rightarrow> bool" where
  "compose_inv ds prev provided r \<longleftrightarrow>
     distinct (map ph_Name ds) \<and> [] \<notin> set (map ph_Name ds)
     \<and> dom (map_of (r_byName r)) = set (map ph_Name ds)
     \<and> distinct (map ph_EntryState (inlines ds)) \<and> StateNone \<notin> set (map ph_EntryState (inlines ds))
     \<and> map_of (r_byEntryState r) = map_of (map (\<lambda>p. (ph_EntryState p, p)) (inlines ds))
     \<and> prev = (if inlines ds = [] then None else Some (last (inlines ds)))
     \<and> r_initialState r = (if inlines ds = [] then StateNone else ph_EntryState (hd (inlines ds)))
     \<and> chained (inlines ds)
     \<and> keys provided = (\<Union>p \<in> set ds. keys (ph_Provides p)) \<and> supplied ds
     \<and> r_sessions r = [] \<and> r_store r = None \<and> r_signer r = None \<and> r_verifiers r = []"

lemma add_internal_frame:
  "add_internal name entry p subs r = Inr r' \<Longrightarrow> \<exists>m. r' = r\<lparr>r_byInternalState := m\<rparr>"
proof (induction subs arbitrary: r)
  case Nil
  then show ?case by (intro exI [of _ "r_byInternalState r"]) simp
next
  case (Cons sub subs)
  then have "add_internal name entry p subs (r\<lparr>r_byInternalState := AList.update sub p (r_byInternalState r)\<rparr>) = Inr r'"
    by (auto split: if_splits option.splits)
  from Cons.IH [OF this] show ?case by auto
qed

lemma add_inline_Inr:
  assumes "add_inline p prev r = Inr r'"
  shows "ph_EntryState p \<noteq> StateNone" "map_of (r_byEntryState r) (ph_EntryState p) = None"
    "\<And>q. prev = Some q \<Longrightarrow> ph_ExitState q = ph_EntryState p"
    "\<exists>m. r' = r\<lparr>r_byEntryState := AList.update (ph_EntryState p) p (r_byEntryState r), r_byInternalState := m,
        r_initialState := (if prev = None then ph_EntryState p else r_initialState r)\<rparr>"
proof -
  obtain r1 where r1: "add_internal (ph_Name p) (ph_EntryState p) p (ph_InternalStates p)
      (r\<lparr>r_byEntryState := AList.update (ph_EntryState p) p (r_byEntryState r)\<rparr>) = Inr r1"
    and e: "ph_EntryState p \<noteq> StateNone" "map_of (r_byEntryState r) (ph_EntryState p) = None"
    and c: "\<And>q. prev = Some q \<Longrightarrow> ph_ExitState q = ph_EntryState p"
    and r': "r' = (if prev = None then r1\<lparr>r_initialState := ph_EntryState p\<rparr> else r1)"
    using assms by (auto simp: add_inline_def Let_def split: if_splits option.splits sum.splits)
  show "ph_EntryState p \<noteq> StateNone" "map_of (r_byEntryState r) (ph_EntryState p) = None"
    "\<And>q. prev = Some q \<Longrightarrow> ph_ExitState q = ph_EntryState p" by (fact e c)+
  obtain m where "r1 = r\<lparr>r_byEntryState := AList.update (ph_EntryState p) p (r_byEntryState r), r_byInternalState := m\<rparr>"
    using add_internal_frame [OF r1] by blast
  then show "\<exists>m. r' = r\<lparr>r_byEntryState := AList.update (ph_EntryState p) p (r_byEntryState r), r_byInternalState := m,
      r_initialState := (if prev = None then ph_EntryState p else r_initialState r)\<rparr>"
    unfolding r' by (intro exI [of _ m]) simp
qed

lemma keys_add_provides: "keys (add_provides ps provided) = keys provided \<union> keys ps"
proof (induction ps arbitrary: provided)
  case (Cons x ps)
  then show ?case by (cases x) (simp add: add_provides_def keys_update)
qed (simp add: add_provides_def)

lemma compose_inv_step:
  assumes inv: "compose_inv ds prev provided r"
    and name: "ph_Name p \<noteq> []" "map_of (r_byName r) (ph_Name p) = None"
    and req: "list_all (require_ok ff provided) (ph_Requires p)"
    and r1: "r1 = r\<lparr>r_byName := AList.update (ph_Name p) p (r_byName r)\<rparr>"
  shows "ph_RunsAt p = RunsAtInline \<Longrightarrow> add_inline p prev r1 = Inr r2 \<Longrightarrow>
      compose_inv (ds @ [p]) (Some p) (add_provides (ph_Provides p) provided) r2"
    and "ph_RunsAt p \<noteq> RunsAtInline \<Longrightarrow>
      compose_inv (ds @ [p]) prev (add_provides (ph_Provides p) provided) r1"
proof -
  have names: "ph_Name p \<notin> set (map ph_Name ds)" "dom (map_of (r_byName r1)) = set (map ph_Name (ds @ [p]))"
    using inv name by (auto simp: compose_inv_def r1 gomap_simps)
  have prov: "keys (add_provides (ph_Provides p) provided) = (\<Union>q \<in> set (ds @ [p]). keys (ph_Provides q))"
    using inv by (auto simp: keys_add_provides compose_inv_def)
  have "\<exists>q \<in> set ds. key \<in> keys (ph_Provides q)" if "(key, want) \<in> set (ph_Requires p)" "ck_Required want" for key want
  proof -
    have "require_ok ff provided (key, want)" using req that(1) by (auto simp: list_all_iff)
    then have "key \<in> keys provided" using that(2) map_of_isSome [of provided key]
      by (auto simp: require_ok_def split: option.splits)
    then show ?thesis using inv by (auto simp: compose_inv_def)
  qed
  then have sup: "supplied (ds @ [p])" using inv by (intro supplied_snoc) (auto simp: compose_inv_def)
  show "compose_inv (ds @ [p]) prev (add_provides (ph_Provides p) provided) r1" if "ph_RunsAt p \<noteq> RunsAtInline"
    using inv names prov sup that name(1) unfolding compose_inv_def by (simp add: r1)
  show "compose_inv (ds @ [p]) (Some p) (add_provides (ph_Provides p) provided) r2"
    if il: "ph_RunsAt p = RunsAtInline" and add: "add_inline p prev r1 = Inr r2"
  proof -
    note a = add_inline_Inr [OF add]
    obtain m where r2: "r2 = r1\<lparr>r_byEntryState := AList.update (ph_EntryState p) p (r_byEntryState r1), r_byInternalState := m,
        r_initialState := (if prev = None then ph_EntryState p else r_initialState r1)\<rparr>" using a(4) by blast
    have e: "map_of (r_byEntryState r) = map_of (map (\<lambda>p. (ph_EntryState p, p)) (inlines ds))"
      using inv by (simp add: compose_inv_def)
    have new: "ph_EntryState p \<notin> set (map ph_EntryState (inlines ds))"
      using a(2) e by (simp add: r1 map_of_eq_None_iff image_image)
    have "map_of (r_byEntryState r2) = map_of (map (\<lambda>p. (ph_EntryState p, p)) (inlines (ds @ [p])))"
    proof (rule ext)
      fix st
      have "map_of (map (\<lambda>p. (ph_EntryState p, p)) (inlines ds)) (ph_EntryState p) = None"
        using new by (simp add: map_of_eq_None_iff image_image)
      then show "map_of (r_byEntryState r2) st = map_of (map (\<lambda>p. (ph_EntryState p, p)) (inlines (ds @ [p]))) st"
        using e il by (auto simp: r2 r1 gomap_simps map_add_def split: option.split)
    qed
    moreover have "chained (inlines (ds @ [p]))"
      using inv il a(3) by (auto simp: compose_inv_def chained_snoc)
    ultimately show ?thesis using inv names prov sup a(1) new il name(1)
      unfolding compose_inv_def by (auto simp: r2 r1)
  qed
qed

lemma compose_loop_inv:
  "compose_loop ff ps prev provided r = Inr r' \<Longrightarrow> compose_inv ds prev provided r \<Longrightarrow>
   \<exists>prev' provided'. compose_inv (ds @ ps) prev' provided' r' \<and> r_phases r' = r_phases r"
proof (induction ps arbitrary: ds prev provided r)
  case (Cons p ps)
  let ?r1 = "r\<lparr>r_byName := AList.update (ph_Name p) p (r_byName r)\<rparr>"
  let ?pr = "add_provides (ph_Provides p) provided"
  have n: "ph_Name p \<noteq> []" "map_of (r_byName r) (ph_Name p) = None"
    and v: "validateRequires ff (ph_Name p) (ph_Requires p) provided = None"
    using Cons.prems(1) by (auto simp: Let_def split: if_splits option.splits)
  note st = compose_inv_step [OF Cons.prems(2) n v [unfolded validateRequires_None] refl]
  show ?case
  proof (cases "ph_RunsAt p = RunsAtInline")
    case True
    then obtain r2 where r2: "add_inline p prev ?r1 = Inr r2" and rest: "compose_loop ff ps (Some p) ?pr r2 = Inr r'"
      using Cons.prems(1) n v by (auto simp: Let_def split: sum.splits)
    then have "r_phases r2 = r_phases r" using add_inline_Inr(4) [OF r2] by auto
    then show ?thesis using Cons.IH [OF rest st(1) [OF True r2]] by simp
  next
    case False
    then have rest: "compose_loop ff ps prev ?pr ?r1 = Inr r'"
      using Cons.prems(1) n v by (auto simp: Let_def split: if_splits)
    show ?thesis using Cons.IH [OF rest st(2) [OF False]] by simp
  qed
qed auto

lemma Compose_inv:
  assumes "Compose ff phases = Inr r"
  shows "\<exists>prev provided. compose_inv phases prev provided r \<and> r_phases r = phases"
proof -
  have "compose_loop ff phases None [] (new_runner phases) = Inr r"
    using assms by (auto simp: Compose_def split: if_splits sum.splits)
  moreover have "compose_inv [] None [] (new_runner phases)"
    by (simp add: compose_inv_def new_runner_def chained_def supplied_def StateNone_def)
  ultimately show ?thesis using compose_loop_inv [of ff phases None "[]" "new_runner phases" r "[]"]
    by (auto simp: new_runner_def)
qed

section \<open>Properties\<close>

lemma map_of_entry:
  assumes "distinct (map ph_EntryState ps)"
  shows "map_of (map (\<lambda>p. (ph_EntryState p, p)) ps) s = Some p \<longleftrightarrow> p \<in> set ps \<and> ph_EntryState p = s"
  using assms by (induction ps) (auto simp: image_iff split: if_splits)

text \<open>A phase that declares states and messages and does nothing, for concrete pipelines.\<close>

definition plain_phase :: "string \<Rightarrow> session_state \<Rightarrow> session_state \<Rightarrow> session_state list \<Rightarrow> string list \<Rightarrow> 's phase" where
  "plain_phase name entry exit internal msgs =
     \<lparr>ph_Name = name, ph_Lifetime = LifetimePerSession, ph_RunsAt = RunsAtInline, ph_EntryState = entry,
      ph_ExitState = exit, ph_InternalStates = internal, ph_ConsumedMessageTypes = msgs, ph_Requires = [],
      ph_Provides = [], ph_Enter = (\<lambda>c. (c, None)), ph_OnMessage = (\<lambda>mt from payload c. (c, None)),
      ph_CheckComplete = (\<lambda>c. True), ph_Exit = (\<lambda>c. (c, None))\<rparr>"

definition demo_keygen :: "'s phase" where
  "demo_keygen = (plain_phase ''keygen'' ''kg'' ''bid'' [''kg2''] [''share''])
     \<lparr>ph_Provides := [(''pk'', \<lparr>ck_TypeName = ''bytes'', ck_Required = True,
        ck_Constraints = [(''depth'', VInt KInt 8)], ck_NoLineage = False\<rparr>)]\<rparr>"

definition demo_bidding :: "'s phase" where
  "demo_bidding = (plain_phase ''bidding'' ''bid'' StateNone [] [''bid''])
     \<lparr>ph_Requires := [(''pk'', \<lparr>ck_TypeName = ''bytes'', ck_Required = True,
        ck_Constraints = [(''depth_min'', VInt KInt 4)], ck_NoLineage = False\<rparr>)]\<rparr>"

lemma demo_min_name: "is_min_name ''depth_min''" "\<not> is_min_name ''depth''"
  by (simp_all add: is_min_name_def)

lemma demo_at_least: "atLeast (VInt KInt 8) (VInt KInt 4) = Some True"
  by code_simp

lemma demo_compose: "\<exists>r. Compose ff [demo_keygen, demo_bidding] = Inr r"
  by (simp add: Let_def Compose_def new_runner_def demo_keygen_def demo_bidding_def plain_phase_def StateNone_def
      add_provides_def add_inline_def demo_min_name demo_at_least)

lemma Compose_parts:
  assumes "Compose ff phases = Inr r"
  shows "distinct (map ph_Name phases) \<and> [] \<notin> set (map ph_Name phases)"
    and "distinct (map ph_EntryState (inlines phases)) \<and> StateNone \<notin> set (map ph_EntryState (inlines phases))"
    and "map_of (r_byEntryState r) s = Some p \<longleftrightarrow> p \<in> set (inlines phases) \<and> ph_EntryState p = s"
    and "inlines phases \<noteq> [] \<Longrightarrow> InitialState r = ph_EntryState (hd (inlines phases))"
    and "Suc i < length (inlines phases) \<Longrightarrow> ph_ExitState (inlines phases ! i) = ph_EntryState (inlines phases ! Suc i)"
    and "j < length phases \<Longrightarrow> (key, want) \<in> set (ph_Requires (phases ! j)) \<Longrightarrow> ck_Required want \<Longrightarrow>
      \<exists>k < j. key \<in> keys (ph_Provides (phases ! k))"
proof -
  obtain prev provided where inv: "compose_inv phases prev provided r" using Compose_inv [OF assms] by blast
  show "distinct (map ph_Name phases) \<and> [] \<notin> set (map ph_Name phases)" using inv by (simp add: compose_inv_def)
  show d: "distinct (map ph_EntryState (inlines phases)) \<and> StateNone \<notin> set (map ph_EntryState (inlines phases))"
    using inv by (simp add: compose_inv_def)
  have "map_of (r_byEntryState r) = map_of (map (\<lambda>p. (ph_EntryState p, p)) (inlines phases))"
    using inv by (simp add: compose_inv_def)
  then show "map_of (r_byEntryState r) s = Some p \<longleftrightarrow> p \<in> set (inlines phases) \<and> ph_EntryState p = s"
    using map_of_entry [OF conjunct1 [OF d]] by simp
  show "inlines phases \<noteq> [] \<Longrightarrow> InitialState r = ph_EntryState (hd (inlines phases))"
    using inv by (simp add: compose_inv_def InitialState_def)
  have "chained (inlines phases)" using inv by (simp add: compose_inv_def)
  then show "Suc i < length (inlines phases) \<Longrightarrow> ph_ExitState (inlines phases ! i) = ph_EntryState (inlines phases ! Suc i)"
    by (simp add: chained_def successively_conv_nth)
  have "supplied phases" using inv by (simp add: compose_inv_def)
  then show "j < length phases \<Longrightarrow> (key, want) \<in> set (ph_Requires (phases ! j)) \<Longrightarrow> ck_Required want \<Longrightarrow>
      \<exists>k < j. key \<in> keys (ph_Provides (phases ! k))"
    unfolding supplied_def by blast
qed

text \<open>C8. Whatever list of phases \<open>Compose\<close> accepts is a well-formed pipeline: the phases have distinct,
  non-empty names; the inline ones have distinct entry states, each of them found under its entry
  state and nothing else found there; the initial state is the entry state of the first inline phase;
  each inline phase leaves to the state where the next one starts; and every key a phase requires is
  provided by a phase before it.\<close>

theorem Compose_pipeline:
  assumes "Compose ff phases = Inr r"
  shows "distinct (map ph_Name phases) \<and> [] \<notin> set (map ph_Name phases)
    \<and> distinct (map ph_EntryState (inlines phases)) \<and> StateNone \<notin> set (map ph_EntryState (inlines phases))
    \<and> (\<forall>s p. map_of (r_byEntryState r) s = Some p \<longleftrightarrow> p \<in> set (inlines phases) \<and> ph_EntryState p = s)
    \<and> (inlines phases \<noteq> [] \<longrightarrow> InitialState r = ph_EntryState (hd (inlines phases)))
    \<and> (\<forall>i. Suc i < length (inlines phases) \<longrightarrow>
          ph_ExitState (inlines phases ! i) = ph_EntryState (inlines phases ! Suc i))
    \<and> (\<forall>j key want. j < length phases \<and> (key, want) \<in> set (ph_Requires (phases ! j)) \<and> ck_Required want \<longrightarrow>
          (\<exists>k < j. key \<in> keys (ph_Provides (phases ! k))))"
  using Compose_parts [OF assms] by (intro conjI allI impI) (simp_all, blast)

theorem Compose_pipeline_witness:
  "\<exists>r :: mem_store runner. Compose (\<lambda>x. []) [demo_keygen, demo_bidding] = Inr r \<and> InitialState r = ''kg''"
proof -
  obtain r :: "mem_store runner" where r: "Compose (\<lambda>x. []) [demo_keygen, demo_bidding] = Inr r"
    using demo_compose by blast
  moreover have "inlines [demo_keygen, demo_bidding] = [demo_keygen, demo_bidding :: mem_store phase]"
    by (simp add: demo_keygen_def demo_bidding_def plain_phase_def)
  ultimately have "InitialState r = ph_EntryState (demo_keygen :: mem_store phase)"
    using Compose_pipeline [OF r] by simp
  then show ?thesis using r by (simp add: demo_keygen_def plain_phase_def)
qed


end
