(* ===== verification/Runner_Inv.thy ===== *)
theory Runner_Inv
  imports Runner_Steps Runner_Compose
begin

text \<open>
  The invariant of the session runner: a session is either finished or in the entry state of the inline
  phase it is in. The hop from a phase to the next, which the loops of \<open>advance\<close> and of
  \<open>AdvanceToState\<close> share, is named once, and the facts about both loops rest on it; every public
  method is a step of one transition system.
\<close>

section \<open>One hop\<close>

datatype 's hop_result =
    Failed "'s option" "'s tracker" rerror
  | Finished "'s option" "'s tracker"
  | Entered "'s option" "'s tracker" "'s phase"

definition hop :: "'s store_ops \<Rightarrow> int \<Rightarrow> 's runner \<Rightarrow> 's option \<Rightarrow> 's tracker \<Rightarrow> 's phase \<Rightarrow> 's hop_result" where
  "hop ops now r lin t cur =
     (let (lin1, t1, err) = run_hook (ph_Exit cur) lin t
      in case err of
           Some e \<Rightarrow> Failed lin1 t1 (PhaseError (ph_Name cur) ''Exit'' e)
         | None \<Rightarrow>
             (let (lin2, cerr) = commitPhaseOutputsIfEnabled ops now (r_signer r) cur (t_ctx t1) lin1
              in case cerr of
                   Some e \<Rightarrow> Failed lin2 t1 e
                 | None \<Rightarrow>
                     if ph_ExitState cur = StateNone then Finished lin2 t1
                     else (case map_of (r_byEntryState r) (ph_ExitState cur) of
                             None \<Rightarrow> Failed lin2 t1 (Wrapped ErrFrameworkBug (NoPhaseForState (ph_ExitState cur)))
                           | Some nxt \<Rightarrow>
                               (let t2 = t1\<lparr>t_state := ph_ExitState cur, t_current := Some nxt, t_entered := False\<rparr>;
                                    (lin3, t3, eerr) = run_hook (ph_Enter nxt) lin2 t2
                                in case eerr of
                                     Some e \<Rightarrow> Failed lin3 t3 (PhaseError (ph_Name nxt) ''Enter'' e)
                                   | None \<Rightarrow> Entered lin3 (t3\<lparr>t_entered := True\<rparr>) nxt))))"

lemma advance_hops_hop:
  "advance_hops ops now r (Suc n) lin t =
     (case t_current t of
        None \<Rightarrow> None
      | Some cur \<Rightarrow>
          (case hop ops now r lin t cur of
             Failed lin' t' e \<Rightarrow> Some (lin', t', False, Some e)
           | Finished lin' t' \<Rightarrow> Some (lin', t'\<lparr>t_state := StateNone, t_current := None\<rparr>, True, None)
           | Entered lin' t' nxt \<Rightarrow>
               if ph_ConsumedMessageTypes nxt \<noteq> [] \<or> \<not> ph_CheckComplete nxt (t_ctx t')
               then Some (lin', t', True, None) else advance_hops ops now r n lin' t'))"
  by (auto simp: hop_def Let_def split: option.split prod.split)

lemma walk_hops_hop:
  "walk_hops ops now sid target r (Suc n) lin t =
     (if t_state t = target then (lin, t, None)
      else
        (case t_current t of
           None \<Rightarrow> (lin, t, Some (Wrapped ErrFrameworkBug (NoCurrentPhase sid target)))
         | Some cur \<Rightarrow>
             (case hop ops now r lin t cur of
                Failed lin' t' e \<Rightarrow> (lin', t', Some e)
              | Finished lin' t' \<Rightarrow> (lin', t', Some (Wrapped ErrPermanent (TargetUnreached sid (ph_Name cur) target)))
              | Entered lin' t' nxt \<Rightarrow> walk_hops ops now sid target r n lin' t')))"
  by (auto simp: hop_def Let_def split: option.split prod.split)

declare advance_hops.simps(2) [simp del] walk_hops.simps(2) [simp del]

lemma run_hook_frame:
  assumes "run_hook hk lin t = (lin', t', err)"
  shows "t_state t' = t_state t \<and> t_current t' = t_current t"
  using assms by (auto simp: run_hook_def Let_def split: prod.splits)

text \<open>The errors that blame the pipeline itself.\<close>

definition pipeline_fault :: "rerror option \<Rightarrow> bool" where
  "pipeline_fault e = (case e of
     Some (Wrapped ErrFrameworkBug (HopLimit k)) \<Rightarrow> True
   | Some (Wrapped ErrFrameworkBug (NoPhaseForState s)) \<Rightarrow> True
   | Some (Wrapped ErrFrameworkBug (NoCurrentPhase sid s)) \<Rightarrow> True
   | Some (Wrapped ErrPermanent (TargetUnreached sid p s)) \<Rightarrow> True
   | _ \<Rightarrow> False)"

lemma pipeline_fault_simps [simp]:
  "\<not> pipeline_fault None"
  "\<not> pipeline_fault (Some (PhaseError a b c))"
  "\<not> pipeline_fault (Some (RawError m))"
  "\<not> pipeline_fault (Some (Wrapped ErrFrameworkBug (CommitFailed a b c)))"
  "\<not> pipeline_fault (Some (Wrapped ErrFrameworkBug (StoreError a b d)))"
  by (simp_all add: pipeline_fault_def)

lemma commit_keys_no_bug: "\<not> pipeline_fault (snd (commit_keys ops now sg name parents kts c s))"
proof (induction kts arbitrary: s)
  case (Cons kt kts)
  then show ?case
    by (cases kt) (auto simp: Let_def split: option.split sum.split prod.split store_error.split)
qed simp

lemma commitPhase_no_bug: "\<not> pipeline_fault (snd (commitPhaseOutputsIfEnabled ops now sg p c lin))"
  using commit_keys_no_bug [of ops now sg "ph_Name p" _ "ph_Provides p" c]
  by (auto simp: commitPhaseOutputsIfEnabled_def Let_def split: option.split sum.split prod.split) (metis snd_conv)

lemma hop_Failed:
  assumes "hop ops now r lin t cur = Failed lin' t' e"
  shows "(t_current t' = t_current t \<and> t_state t' = t_state t) \<or>
      (\<exists>nxt. map_of (r_byEntryState r) (ph_ExitState cur) = Some nxt \<and> t_current t' = Some nxt
         \<and> t_state t' = ph_ExitState cur)"
    and "pipeline_fault (Some e) \<Longrightarrow>
      ph_ExitState cur \<noteq> StateNone \<and> map_of (r_byEntryState r) (ph_ExitState cur) = None"
proof -
  show "(t_current t' = t_current t \<and> t_state t' = t_state t) \<or>
      (\<exists>nxt. map_of (r_byEntryState r) (ph_ExitState cur) = Some nxt \<and> t_current t' = Some nxt
         \<and> t_state t' = ph_ExitState cur)"
    using assms
    by (auto simp: hop_def Let_def dest!: run_hook_frame split: prod.splits option.splits if_splits)
  show "pipeline_fault (Some e) \<Longrightarrow>
      ph_ExitState cur \<noteq> StateNone \<and> map_of (r_byEntryState r) (ph_ExitState cur) = None"
    using assms commitPhase_no_bug [of ops now "r_signer r" cur]
    by (auto simp: hop_def Let_def split: prod.splits option.splits if_splits) (metis snd_conv)+
qed

lemma hop_Finished:
  assumes "hop ops now r lin t cur = Finished lin' t'"
  shows "t_current t' = t_current t" "t_state t' = t_state t" "ph_ExitState cur = StateNone"
  using assms by (auto simp: hop_def Let_def dest!: run_hook_frame split: prod.splits option.splits if_splits)

lemma hop_Entered:
  assumes "hop ops now r lin t cur = Entered lin' t' nxt"
  shows "map_of (r_byEntryState r) (ph_ExitState cur) = Some nxt" "t_current t' = Some nxt"
    "t_state t' = ph_ExitState cur" "ph_ExitState cur \<noteq> StateNone"
  using assms by (auto simp: hop_def Let_def dest!: run_hook_frame split: prod.splits option.splits if_splits)

section \<open>Where a session can be\<close>

definition composed :: "'s runner \<Rightarrow> bool" where
  "composed r \<longleftrightarrow>
     (let inl = inlines (r_phases r)
      in distinct (map ph_EntryState inl) \<and> StateNone \<notin> set (map ph_EntryState inl)
         \<and> map_of (r_byEntryState r) = map_of (map (\<lambda>p. (ph_EntryState p, p)) inl)
         \<and> r_initialState r = (if inl = [] then StateNone else ph_EntryState (hd inl))
         \<and> chained inl)"

definition placed :: "'s runner \<Rightarrow> 's tracker \<Rightarrow> bool" where
  "placed r t \<longleftrightarrow>
     (case t_current t of
        None \<Rightarrow> t_state t = StateNone
      | Some p \<Rightarrow> p \<in> set (inlines (r_phases r)) \<and> t_state t = ph_EntryState p)"

definition runner_inv :: "'s runner \<Rightarrow> bool" where
  "runner_inv r \<longleftrightarrow> composed r \<and> (\<forall>sid t. map_of (r_sessions r) sid = Some t \<longrightarrow> placed r t)"

lemma composed_lookup:
  "composed r \<Longrightarrow> map_of (r_byEntryState r) s = Some p \<longleftrightarrow> p \<in> set (inlines (r_phases r)) \<and> ph_EntryState p = s"
  by (simp add: composed_def Let_def map_of_entry)

lemma Compose_composed: "Compose ff phases = Inr r \<Longrightarrow> composed r \<and> r_phases r = phases \<and> r_sessions r = []"
  using Compose_inv [of ff phases r] by (auto simp: compose_inv_def composed_def Let_def)

lemma placed_done [simp]: "placed r (t\<lparr>t_state := StateNone, t_current := None\<rparr>)"
  by (simp add: placed_def)

lemma placed_next:
  "composed r \<Longrightarrow> map_of (r_byEntryState r) s = Some p \<Longrightarrow> t_current t = Some p \<Longrightarrow> t_state t = s \<Longrightarrow> placed r t"
  by (simp add: placed_def composed_lookup)

lemma placed_frame:
  "placed r t \<Longrightarrow> t_current t' = t_current t \<Longrightarrow> t_state t' = t_state t \<Longrightarrow> placed r t'"
  by (simp add: placed_def split: option.splits)

lemma hop_placed:
  assumes "composed r" "placed r t" "t_current t = Some cur"
  shows "hop ops now r lin t cur = Failed lin' t' e \<Longrightarrow> placed r t'"
    and "hop ops now r lin t cur = Finished lin' t' \<Longrightarrow> placed r t'"
    and "hop ops now r lin t cur = Entered lin' t' nxt \<Longrightarrow> placed r t'"
  using hop_Failed(1) [of ops now r lin t cur] hop_Finished [of ops now r lin t cur]
    hop_Entered [of ops now r lin t cur] assms
  by (metis placed_frame placed_next)+

lemma advance_hops_placed:
  assumes "composed r" "placed r t" "n > 0 \<longrightarrow> t_current t \<noteq> None"
  shows "\<exists>lin' t' moved e. advance_hops ops now r n lin t = Some (lin', t', moved, e) \<and> placed r t'"
  using assms(2,3)
proof (induction n arbitrary: lin t)
  case (Suc n)
  then obtain cur where cur: "t_current t = Some cur" by auto
  note hp = hop_placed [OF assms(1) Suc.prems(1) cur, of ops now lin]
  show ?case
  proof (cases "hop ops now r lin t cur")
    case (Entered lin' t' nxt)
    then have "placed r t'" "t_current t' \<noteq> None" using hp(3) hop_Entered(2) by fastforce+
    then show ?thesis using Suc.IH [of t' lin'] by (auto simp: advance_hops_hop cur Entered)
  qed (use hp in \<open>auto simp: advance_hops_hop cur\<close>)
qed auto

lemma walk_hops_placed:
  assumes "composed r" "placed r t"
  shows "walk_hops ops now sid target r n lin t = (lin', t', e) \<Longrightarrow> placed r t'"
  using assms(2)
proof (induction n arbitrary: lin t)
  case (Suc n)
  show ?case
  proof (cases "t_state t = target \<or> t_current t = None")
    case True
    then show ?thesis using Suc.prems by (auto simp: walk_hops_hop split: option.splits if_splits)
  next
    case False
    then obtain cur where cur: "t_current t = Some cur" by auto
    note hp = hop_placed [OF assms(1) Suc.prems(2) cur, of ops now lin]
    show ?thesis using Suc.prems(1) False hp Suc.IH
      by (cases "hop ops now r lin t cur") (auto simp: walk_hops_hop cur)
  qed
qed auto

section \<open>The methods\<close>

lemma composed_frame [simp]:
  "composed (r\<lparr>r_sessions := m\<rparr>) = composed r" "composed (r\<lparr>r_store := lin\<rparr>) = composed r"
  "composed (r\<lparr>r_events := ev\<rparr>) = composed r" "composed (put_session sid lin t r) = composed r"
  by (simp_all add: composed_def put_session_def)

lemma placed_runner [simp]:
  "placed (r\<lparr>r_sessions := m\<rparr>) = placed r" "placed (r\<lparr>r_store := lin\<rparr>) = placed r"
  "placed (r\<lparr>r_events := ev\<rparr>) = placed r" "placed (put_session sid lin t r) = placed r"
  by (simp_all add: placed_def [abs_def] put_session_def fun_eq_iff split: option.split)

lemma sessions_put [simp]:
  "map_of (r_sessions (put_session sid lin t r)) = (map_of (r_sessions r))(sid \<mapsto> t)"
  by (simp add: put_session_def gomap_simps)

lemma runner_inv_put [wf_intros]: "runner_inv r \<Longrightarrow> placed r t \<Longrightarrow> runner_inv (put_session sid lin t r)"
  by (simp add: runner_inv_def)

lemma runner_inv_store [simp]: "runner_inv (r\<lparr>r_store := lin\<rparr>) = runner_inv r"
  by (simp add: runner_inv_def)

lemma runner_inv_fire [simp]: "runner_inv (fireFailureHook ev r) = runner_inv r"
  by (simp add: runner_inv_def fireFailureHook_def)

lemma EndSession_inv: "runner_inv r \<Longrightarrow> runner_inv (EndSession sid r)"
  by (auto simp: runner_inv_def EndSession_def gomap_simps split: if_splits)

lemma BeginSession_inv:
  assumes "runner_inv r"
  shows "runner_inv (fst (BeginSession sid cohortID r))"
proof -
  { fix first ctx lin t1 err
    assume first: "map_of (r_byEntryState r) (r_initialState r) = Some first"
      and t1: "run_hook (ph_Enter first) (r_store r)
        \<lparr>t_ctx = ctx, t_state = r_initialState r, t_current = Some first, t_entered = False\<rparr> = (lin, t1, err)"
    have "placed r t1" "placed r (t1\<lparr>t_entered := True\<rparr>)"
      using run_hook_frame [OF t1] assms first placed_next [of r "r_initialState r" first]
      by (simp_all add: runner_inv_def) }
  note st = this
  show ?thesis
  proof (cases "sid = [] \<or> map_of (r_sessions r) sid \<noteq> None \<or> map_of (r_byEntryState r) (r_initialState r) = None")
    case True
    then show ?thesis using assms by (auto simp: BeginSession_def Let_def split: option.split)
  next
    case False
    then obtain first where first: "map_of (r_byEntryState r) (r_initialState r) = Some first" by auto
    show ?thesis using assms False first
      apply (simp add: BeginSession_def Let_def split: prod.split option.split)
      using st [OF first] by (auto simp: runner_inv_def gomap_simps split: if_splits)
  qed
qed

lemma HandleMessage_inv:
  assumes "runner_inv r" "HandleMessage ops now sid msgType from payload r = Some (r', moved, e)"
  shows "runner_inv r'"
proof (cases "map_of (r_sessions r) sid")
  case None
  then show ?thesis using assms by (simp add: HandleMessage_def)
next
  case (Some t)
  then obtain cur where cur: "t_current t = Some cur"
    using assms(2) by (cases "t_current t") (simp_all add: HandleMessage_def)
  have c: "composed r" "placed r t" using assms(1) Some by (auto simp: runner_inv_def)
  obtain lin1 t1 err where h: "run_hook (ph_OnMessage cur msgType from payload) (r_store r) t = (lin1, t1, err)"
    using prod_cases3 by blast
  have t1: "placed r t1" "t_current t1 = Some cur" using run_hook_frame [OF h] placed_frame [OF c(2)] cur by auto
  then obtain lin2 t2 m2 e2 where adv: "advance ops now r lin1 t1 = Some (lin2, t2, m2, e2)" "placed r t2"
    using advance_hops_placed [OF c(1) t1(1), of "length (r_phases r) + 1" ops now lin1] by (auto simp: advance_def)
  note put = runner_inv_put [OF assms(1)]
  show ?thesis
  proof (cases "phaseConsumes cur msgType \<and> err = None \<and> ph_CheckComplete cur (t_ctx t1)")
    case True
    then show ?thesis using assms(2) put [OF adv(2)] by (auto simp: HandleMessage_def Some cur h adv)
  next
    case False
    then show ?thesis using assms put [OF t1(1)]
      by (auto simp: HandleMessage_def Some cur h split: if_splits option.splits)
  qed
qed

lemma HandleLineageMessage_inv:
  assumes "runner_inv r" "HandleLineageMessage ops now sid msgType from payload node r = Some (r', moved, e)"
  shows "runner_inv r'"
proof (cases "r_store r")
  case None
  then show ?thesis using assms HandleMessage_inv by (simp add: HandleLineageMessage_def)
next
  case (Some s)
  show ?thesis
  proof (cases "node = None \<or> lineage_check ops (r_verifiers r) s (the node) payload \<noteq> None")
    case True
    then show ?thesis using assms by (cases node) (auto simp: HandleLineageMessage_def Some)
  next
    case False
    then obtain n where n: "node = Some n" "lineage_check ops (r_verifiers r) s n payload = None" by auto
    obtain s' err where ap: "so_Append ops s n = (s', err)" by fastforce
    have "runner_inv (r\<lparr>r_store := Some s'\<rparr>)" using assms(1) by simp
    note hm = HandleMessage_inv [OF this, of ops now sid msgType "from" payload r' moved e]
    show ?thesis using assms hm
      by (simp add: HandleLineageMessage_def Some n ap Let_def split: option.splits store_error.splits)
        auto
  qed
qed

lemma AdvanceToState_inv:
  assumes "runner_inv r"
  shows "runner_inv (fst (AdvanceToState ops now sid target r))"
proof (cases "map_of (r_sessions r) sid")
  case (Some t)
  then have c: "composed r" "placed r t" using assms by (auto simp: runner_inv_def)
  obtain lin t1 e where w: "walk_hops ops now sid target r (length (r_phases r) + 1) (r_store r) t = (lin, t1, e)"
    using prod_cases3 by blast
  show ?thesis using walk_hops_placed [OF c w] assms Some w
    by (auto simp: AdvanceToState_def intro: wf_intros)
qed (use assms in \<open>simp add: AdvanceToState_def\<close>)

section \<open>The runner as a transition system\<close>

inductive runner_step :: "'s store_ops \<Rightarrow> 's runner \<Rightarrow> 's runner \<Rightarrow> bool" for ops where
  step_begin: "runner_step ops r (fst (BeginSession sid cohortID r))"
| step_seed: "map_of (r_sessions r) sid = Some t \<Longrightarrow>
    runner_step ops r (put_session sid (r_store r) (t\<lparr>t_ctx := ctx_Set k v (t_ctx t)\<rparr>) r)"
| step_message: "HandleMessage ops now sid msgType from payload r = Some (r', moved, e) \<Longrightarrow> runner_step ops r r'"
| step_lineage: "HandleLineageMessage ops now sid msgType from payload node r = Some (r', moved, e) \<Longrightarrow>
    runner_step ops r r'"
| step_advance: "runner_step ops r (fst (AdvanceToState ops now sid target r))"
| step_report: "runner_step ops r (ReportFalseLineageClaim sid claim r)"
| step_end: "runner_step ops r (EndSession sid r)"

lemma seed_inv:
  assumes "runner_inv r" "map_of (r_sessions r) sid = Some t"
  shows "runner_inv (put_session sid lin (t\<lparr>t_ctx := c\<rparr>) r)"
proof (rule runner_inv_put [OF assms(1)])
  have "placed r t" using assms by (simp add: runner_inv_def)
  then show "placed r (t\<lparr>t_ctx := c\<rparr>)" by (rule placed_frame) simp_all
qed

lemma report_inv: "runner_inv r \<Longrightarrow> runner_inv (ReportFalseLineageClaim sid claim r)"
  by (simp add: ReportFalseLineageClaim_def)

lemma runner_step_inv:
  assumes "runner_step ops r r'" "runner_inv r"
  shows "runner_inv r'"
  using assms
proof cases
  case (step_message now sid msgType "from" payload moved e)
  then show ?thesis using HandleMessage_inv [OF assms(2)] by blast
next
  case (step_lineage now sid msgType "from" payload node moved e)
  then show ?thesis using HandleLineageMessage_inv [OF assms(2)] by blast
next
  case (step_seed sid t k v)
  then show ?thesis using seed_inv [OF assms(2)] by blast
qed (use BeginSession_inv AdvanceToState_inv EndSession_inv report_inv assms(2) in blast)+

text \<open>No method changes the pipeline or the keys of a runner.\<close>

definition same_setup :: "'s runner \<Rightarrow> 's runner \<Rightarrow> bool" where
  "same_setup r r' \<longleftrightarrow> 
     r'\<lparr>r_sessions := [], r_store := None, r_events := []\<rparr> = r\<lparr>r_sessions := [], r_store := None, r_events := []\<rparr>"

lemma same_setup_intros:
  "same_setup r r" "same_setup r (put_session sid lin t r)" "same_setup r (EndSession sid r)"
  "same_setup r (r\<lparr>r_store := lin\<rparr>)" "same_setup r (fireFailureHook ev r)"
  by (simp_all add: same_setup_def put_session_def EndSession_def fireFailureHook_def)

lemma same_setup_trans: "same_setup r r1 \<Longrightarrow> same_setup r1 r2 \<Longrightarrow> same_setup r r2"
  by (simp add: same_setup_def)

lemma same_setup_fields:
  assumes "same_setup r r'"
  shows "r_phases r' = r_phases r" "r_byEntryState r' = r_byEntryState r" "r_verifiers r' = r_verifiers r"
    "r_signer r' = r_signer r" "r_initialState r' = r_initialState r"
  using assms by (cases r; cases r'; simp add: same_setup_def)+

lemma HandleMessage_setup:
  "HandleMessage ops now sid msgType from payload r = Some (r', moved, e) \<Longrightarrow> same_setup r r'"
  by (auto simp: HandleMessage_def intro: same_setup_intros split: option.splits if_splits prod.splits)

lemma HandleLineageMessage_setup:
  assumes "HandleLineageMessage ops now sid msgType from payload node r = Some (r', moved, e)"
  shows "same_setup r r'"
proof -
  have h: "HandleMessage ops now sid msgType from payload (r\<lparr>r_store := lin\<rparr>) = Some (r', moved, e) \<Longrightarrow> same_setup r r'"
    for lin using HandleMessage_setup same_setup_trans same_setup_intros(4) by blast
  show ?thesis using assms
    by (auto simp: HandleLineageMessage_def Let_def intro: same_setup_intros h HandleMessage_setup
        split: option.splits prod.splits store_error.splits)
qed

lemma BeginSession_setup: "same_setup r (fst (BeginSession sid cohortID r))"
proof -
  have p: "same_setup r (put_session sid lin t r') = same_setup r r'"
    "same_setup r (r'\<lparr>r_sessions := m\<rparr>) = same_setup r r'" for r' sid lin t m
    by (simp_all add: same_setup_def put_session_def)
  show ?thesis by (simp add: BeginSession_def Let_def p same_setup_intros split: option.split prod.split)
qed

lemma AdvanceToState_setup: "same_setup r (fst (AdvanceToState ops now sid target r))"
  by (auto simp: AdvanceToState_def Let_def intro: same_setup_intros split: option.splits prod.splits)

lemma runner_step_setup: "runner_step ops r r' \<Longrightarrow> same_setup r r'"
  by (cases rule: runner_step.cases)
    (auto intro: same_setup_intros HandleMessage_setup HandleLineageMessage_setup BeginSession_setup
      AdvanceToState_setup simp: ReportFalseLineageClaim_def)

text \<open>What a composed runner can become.\<close>

definition started :: "(f64 \<Rightarrow> string) \<Rightarrow> 's phase list \<Rightarrow> 's runner \<Rightarrow> bool" where
  "started ff phases r \<longleftrightarrow>
     Compose ff phases = Inr r \<or> (\<exists>fresh opts. ComposeWith ff fresh phases opts = Inr r)"

definition runner_reachable :: "'s store_ops \<Rightarrow> (f64 \<Rightarrow> string) \<Rightarrow> 's phase list \<Rightarrow> 's runner \<Rightarrow> bool" where
  "runner_reachable ops ff phases r \<longleftrightarrow> (\<exists>r0. started ff phases r0 \<and> reach (runner_step ops) r0 r)"

lemma composed_attach [simp]: "composed (attachLineage s sg vs h r) = composed r"
  by (simp add: composed_def attachLineage_def)

lemma ComposeWith_Inr:
  assumes "ComposeWith ff fresh phases opts = Inr r"
  obtains r0 s sg vs h where "Compose ff phases = Inr r0" "r = attachLineage s sg vs h r0"
proof -
  let ?opt = "fold (\<lambda>f x. f x) opts no_opts"
  obtain sg where sg: "ro_signer ?opt = Some sg"
    using assms by (cases "ro_signer ?opt") (simp_all add: ComposeWith_def Let_def)
  have n: "\<not> (needsPeers phases \<and> length (ro_peerVerifiers ?opt) = 0)"
    using assms by (auto simp: ComposeWith_def Let_def sg)
  show thesis
  proof (cases "Compose ff phases")
    case (Inl e)
    then show ?thesis using assms n unfolding ComposeWith_def Let_def sg option.case if_not_P [OF n] by simp
  next
    case (Inr r0)
    then show ?thesis using assms that unfolding ComposeWith_def Let_def sg option.case if_not_P [OF n] by simp (metis (no_types))
  qed
qed

lemma started_inv: "started ff phases r \<Longrightarrow> runner_inv r \<and> r_phases r = phases"
proof -
  have c: "runner_inv r \<and> r_phases r = phases" if "Compose ff phases = Inr r" for r :: "'a runner"
    using Compose_composed [OF that] by (simp add: runner_inv_def)
  have a: "runner_inv (attachLineage s sg vs h r) \<and> r_phases (attachLineage s sg vs h r) = phases"
    if "Compose ff phases = Inr r" for s sg vs h and r :: "'a runner"
    using Compose_composed [OF that] by (auto simp: runner_inv_def) (simp_all add: attachLineage_def)
  assume "started ff phases r"
  then show ?thesis using c a unfolding started_def by (metis ComposeWith_Inr)
qed

interpretation runner_sys: invariant_system "runner_step ops" "new_runner []" runner_inv for ops
proof unfold_locales
  show "runner_inv (new_runner [])"
    by (simp add: runner_inv_def composed_def new_runner_def chained_def StateNone_def Let_def)
qed (rule runner_step_inv)

lemma reach_setup: "reach (runner_step ops) r0 r \<Longrightarrow> same_setup r0 r"
  by (induction rule: reach.induct) (auto intro: same_setup_intros same_setup_trans runner_step_setup)

lemma reachable_inv:
  assumes "runner_reachable ops ff phases r"
  shows "runner_inv r" "r_phases r = phases"
proof -
  obtain r0 where r0: "started ff phases r0" "reach (runner_step ops) r0 r"
    using assms by (auto simp: runner_reachable_def)
  show "runner_inv r" using runner_sys.reach_inv_from [OF r0(2)] started_inv [OF r0(1)] by blast
  show "r_phases r = phases" using same_setup_fields(1) [OF reach_setup [OF r0(2)]] started_inv [OF r0(1)] by simp
qed

end
