(* ===== verification/Runner_Props.thy ===== *)
theory Runner_Props
  imports Runner_Inv
begin

text \<open>
  Properties of the session runner: where its sessions can be, when a message makes the service panic,
  that a message moves a session only forward and ends within the hop limit, and what
  \<open>AdvanceToState\<close> promises.
\<close>

section \<open>Moving forward\<close>

definition at_pos :: "'s runner \<Rightarrow> nat \<Rightarrow> 's tracker \<Rightarrow> bool" where
  "at_pos r i t \<longleftrightarrow>
     (let inl = inlines (r_phases r)
      in if i < length inl then t_current t = Some (inl ! i) \<and> t_state t = ph_EntryState (inl ! i)
         else t_current t = None \<and> t_state t = StateNone)"

definition terminating :: "'s phase list \<Rightarrow> bool" where
  "terminating phases \<longleftrightarrow> inlines phases \<noteq> [] \<and> ph_ExitState (last (inlines phases)) = StateNone"

lemma exit_next:
  assumes "composed r" "terminating (r_phases r)" "i < length (inlines (r_phases r))"
  shows "ph_ExitState (inlines (r_phases r) ! i) = StateNone \<longleftrightarrow> Suc i = length (inlines (r_phases r))"
    and "Suc i < length (inlines (r_phases r)) \<Longrightarrow>
      map_of (r_byEntryState r) (ph_ExitState (inlines (r_phases r) ! i)) = Some (inlines (r_phases r) ! Suc i)"
proof -
  let ?inl = "inlines (r_phases r)"
  have ch: "Suc i < length ?inl \<Longrightarrow> ph_ExitState (?inl ! i) = ph_EntryState (?inl ! Suc i)"
    using assms(1) by (auto simp: composed_def Let_def chained_def successively_conv_nth)
  have ne: "Suc i < length ?inl \<Longrightarrow> ph_EntryState (?inl ! Suc i) \<noteq> StateNone"
    using assms(1) by (auto simp: composed_def Let_def image_iff) (metis nth_mem)
  show "ph_ExitState (?inl ! i) = StateNone \<longleftrightarrow> Suc i = length ?inl"
  proof (cases "Suc i = length ?inl")
    case True
    then have "i = length ?inl - 1" by simp
    then show ?thesis using assms(2) True by (auto simp: terminating_def last_conv_nth)
  next
    case False
    then show ?thesis using ch ne assms(3) by simp
  qed
  show "Suc i < length ?inl \<Longrightarrow> map_of (r_byEntryState r) (ph_ExitState (?inl ! i)) = Some (?inl ! Suc i)"
    using ch by (simp add: composed_lookup [OF assms(1)])
qed

lemma placed_pos:
  assumes "placed r t"
  shows "\<exists>i \<le> length (inlines (r_phases r)). at_pos r i t"
proof (cases "t_current t")
  case None
  then show ?thesis using assms by (auto simp: placed_def at_pos_def Let_def)
next
  case (Some p)
  then show ?thesis using assms
    by (auto simp: placed_def at_pos_def Let_def in_set_conv_nth intro: less_imp_le)
qed

lemma hop_Failed_pos:
  assumes "composed r" "terminating (r_phases r)" "at_pos r i t" "i < length (inlines (r_phases r))"
    and f: "hop ops now r lin t (inlines (r_phases r) ! i) = Failed lin' t' e"
  shows "\<not> pipeline_fault (Some e)"
    and "\<exists>j. i \<le> j \<and> j \<le> Suc i \<and> j < length (inlines (r_phases r)) \<and> at_pos r j t'"
proof -
  let ?inl = "inlines (r_phases r)" and ?cur = "inlines (r_phases r) ! i"
  note nx = exit_next [OF assms(1,2,4)]
  show "\<not> pipeline_fault (Some e)" using hop_Failed(2) [OF f] nx assms(4) by fastforce
  from hop_Failed(1) [OF f] show "\<exists>j. i \<le> j \<and> j \<le> Suc i \<and> j < length ?inl \<and> at_pos r j t'"
  proof
    assume "t_current t' = t_current t \<and> t_state t' = t_state t"
    then have "at_pos r i t'" using assms(3) by (simp add: at_pos_def Let_def split: if_splits)
    then show ?thesis using assms(4) by (intro exI [of _ i]) simp
  next
    assume "\<exists>nxt. map_of (r_byEntryState r) (ph_ExitState ?cur) = Some nxt \<and> t_current t' = Some nxt
       \<and> t_state t' = ph_ExitState ?cur"
    then obtain nxt where x: "map_of (r_byEntryState r) (ph_ExitState ?cur) = Some nxt" "t_current t' = Some nxt"
       "t_state t' = ph_ExitState ?cur" by blast
    have y: "nxt \<in> set ?inl" "ph_EntryState nxt = ph_ExitState ?cur"
      using x(1) composed_lookup [OF assms(1)] by auto
    have "ph_ExitState ?cur \<noteq> StateNone"
      using y assms(1) by (metis (no_types, lifting) composed_def image_eqI image_set)
    then have l: "Suc i < length ?inl" using nx(1) assms(4) by simp
    then have "at_pos r (Suc i) t'" using nx(2) x y by (simp add: at_pos_def Let_def)
    then show ?thesis using l by (intro exI [of _ "Suc i"]) simp
  qed
qed

lemma hop_Entered_pos:
  assumes "composed r" "terminating (r_phases r)" "i < length (inlines (r_phases r))"
    and f: "hop ops now r lin t (inlines (r_phases r) ! i) = Entered lin' t' nxt"
  shows "Suc i < length (inlines (r_phases r)) \<and> at_pos r (Suc i) t'"
proof -
  let ?inl = "inlines (r_phases r)"
  note nx = exit_next [OF assms(1-3)] and en = hop_Entered [OF f]
  have l: "Suc i < length ?inl" using en(4) nx(1) assms(3) by simp
  then have nxt: "nxt = ?inl ! Suc i" using nx(2) en(1) by simp
  have "ph_EntryState nxt = ph_ExitState (?inl ! i)" using en(1) composed_lookup [OF assms(1)] by auto
  then show ?thesis using l en nxt by (simp add: at_pos_def Let_def)
qed

lemma at_pos_current: "at_pos r i t \<Longrightarrow> i < length (inlines (r_phases r)) \<Longrightarrow> t_current t = Some (inlines (r_phases r) ! i)"
  by (simp add: at_pos_def Let_def)

definition forward :: "'s runner \<Rightarrow> nat \<Rightarrow> 's tracker \<Rightarrow> bool \<Rightarrow> rerror option \<Rightarrow> bool" where
  "forward r i t' moved e \<longleftrightarrow>
     (\<exists>j. i \<le> j \<and> j \<le> length (inlines (r_phases r)) \<and> at_pos r j t' \<and> (moved \<longrightarrow> i < j))
     \<and> (moved \<longleftrightarrow> e = None) \<and> \<not> pipeline_fault e"

lemma advance_hops_forward:
  assumes "composed r" "terminating (r_phases r)"
    and "at_pos r i t" "i < length (inlines (r_phases r))" "length (inlines (r_phases r)) - i \<le> n"
  shows "\<exists>lin' t' moved e. advance_hops ops now r n lin t = Some (lin', t', moved, e) \<and> forward r i t' moved e"
  using assms(3-)
proof (induction n arbitrary: lin t i)
  case (Suc n)
  let ?inl = "inlines (r_phases r)" and ?cur = "inlines (r_phases r) ! i"
  note cur = at_pos_current [OF Suc.prems(1,2)]
  show ?case
  proof (cases "hop ops now r lin t ?cur")
    case (Failed lin' t' e)
    then have "forward r i t' False (Some e)"
      using hop_Failed_pos [OF assms(1,2) Suc.prems(1,2) Failed] by (auto simp: forward_def intro: less_imp_le)
    then show ?thesis by (auto simp: advance_hops_hop cur Failed)
  next
    case (Finished lin' t')
    have "forward r i (t'\<lparr>t_state := StateNone, t_current := None\<rparr>) True None"
      using Suc.prems(2) by (auto simp: forward_def at_pos_def Let_def intro!: exI [of _ "length ?inl"])
    then show ?thesis by (auto simp: advance_hops_hop cur Finished)
  next
    case (Entered lin' t' nxt)
    then have p: "at_pos r (Suc i) t'" "Suc i < length ?inl"
      using hop_Entered_pos [OF assms(1,2) Suc.prems(2)] by auto
    then have f: "forward r i t' True None" by (auto simp: forward_def intro!: exI [of _ "Suc i"])
    have "length ?inl - Suc i \<le> n" using Suc.prems(3) by simp
    from Suc.IH [OF p this, of lin'] obtain lin2 t2 m2 e2 where
      "advance_hops ops now r n lin' t' = Some (lin2, t2, m2, e2)" "forward r (Suc i) t2 m2 e2" by blast
    moreover have "forward r i t2 m2 e2" using calculation(2) unfolding forward_def by (meson Suc_leD Suc_lessD)
    ultimately show ?thesis using f by (auto simp: advance_hops_hop cur Entered)
  qed
qed simp

definition walked :: "'s runner \<Rightarrow> nat \<Rightarrow> nat \<Rightarrow> 's tracker \<Rightarrow> rerror option \<Rightarrow> bool" where
  "walked r i k t' e \<longleftrightarrow> (\<exists>j. i \<le> j \<and> j \<le> k \<and> at_pos r j t' \<and> (e = None \<longrightarrow> j = k)) \<and> \<not> pipeline_fault e"

lemma entry_inj:
  "composed r \<Longrightarrow> i < length (inlines (r_phases r)) \<Longrightarrow> k < length (inlines (r_phases r)) \<Longrightarrow>
     ph_EntryState (inlines (r_phases r) ! i) = ph_EntryState (inlines (r_phases r) ! k) \<longleftrightarrow> i = k"
  by (auto simp: composed_def Let_def distinct_conv_nth)

lemma walk_hops_forward:
  assumes "composed r" "terminating (r_phases r)" "k < length (inlines (r_phases r))"
    and "at_pos r i t" "i \<le> k" "k - i < n"
  shows "\<exists>lin' t' e. walk_hops ops now sid (ph_EntryState (inlines (r_phases r) ! k)) r n lin t = (lin', t', e)
    \<and> walked r i k t' e"
  using assms(4-)
proof (induction n arbitrary: lin t i)
  case (Suc n)
  let ?inl = "inlines (r_phases r)" and ?cur = "inlines (r_phases r) ! i"
  have il: "i < length ?inl" using Suc.prems(2) assms(3) by simp
  note cur = at_pos_current [OF Suc.prems(1) il]
  have st: "t_state t = ph_EntryState ?cur" using Suc.prems(1) il by (simp add: at_pos_def Let_def)
  show ?case
  proof (cases "i = k")
    case True
    then show ?thesis using Suc.prems(1) st by (simp add: walk_hops_hop walked_def)
  next
    case False
    then have ne: "t_state t \<noteq> ph_EntryState (?inl ! k)" and ik: "i < k"
      using st entry_inj [OF assms(1) il assms(3)] Suc.prems(2) by simp_all
    show ?thesis
    proof (cases "hop ops now r lin t ?cur")
      case (Failed lin' t' e)
      then have "walked r i k t' (Some e)"
        using hop_Failed_pos [OF assms(1,2) Suc.prems(1) il Failed] ik by (auto simp: walked_def)
      then show ?thesis using ne by (simp add: walk_hops_hop cur Failed)
    next
      case (Finished lin' t')
      then have "Suc i = length ?inl" using hop_Finished(3) exit_next(1) [OF assms(1,2) il] by blast
      then show ?thesis using ik assms(3) by simp
    next
      case (Entered lin' t' nxt)
      then have p: "at_pos r (Suc i) t'" using hop_Entered_pos [OF assms(1,2) il] by blast
      have b: "Suc i \<le> k" "k - Suc i < n" using ik Suc.prems(3) by simp_all
      from Suc.IH [OF p b, of lin'] obtain lin2 t2 e2 where
        w: "walk_hops ops now sid (ph_EntryState (?inl ! k)) r n lin' t' = (lin2, t2, e2)" "walked r (Suc i) k t2 e2" by blast
      have "walked r i k t2 e2" using w(2) unfolding walked_def by (metis Suc_leD)
      then show ?thesis using ne w(1) by (simp add: walk_hops_hop cur Entered)
    qed
  qed
qed simp

section \<open>Concrete pipelines\<close>

text \<open>The two demonstration phases with no lineage store: the first message of the first phase completes it.\<close>

definition demo_phases :: "mem_store phase list" where
  "demo_phases = [plain_phase ''a'' ''A'' ''B'' [] [''m''], plain_phase ''b'' ''B'' StateNone [] [''n'']]"

lemma demo_phases_inlines: "inlines demo_phases = demo_phases"
  by (simp add: demo_phases_def plain_phase_def)

lemma demo_phases_terminating: "terminating demo_phases"
  by (simp add: terminating_def demo_phases_inlines) (simp add: demo_phases_def plain_phase_def)

definition demo_runner :: "mem_store runner" where
  "demo_runner = (case Compose (\<lambda>x. []) demo_phases of Inr r \<Rightarrow> r | Inl e \<Rightarrow> new_runner [])"

definition demo_begun :: "mem_store runner" where
  "demo_begun = fst (BeginSession ''s'' [] demo_runner)"

definition after :: "string \<Rightarrow> mem_store runner \<Rightarrow> mem_store runner" where
  "after msgType r = (case HandleMessage mem_ops 0 ''s'' msgType ''p'' [] r of Some (r', moved, e) \<Rightarrow> r' | None \<Rightarrow> r)"

lemmas demo_runner_defs = demo_runner_def demo_phases_def plain_phase_def Compose_def new_runner_def StateNone_def
  add_provides_def add_inline_def Let_def

lemma demo_runner_composed: "Compose (\<lambda>x. []) demo_phases = Inr demo_runner"
  by (simp add: demo_runner_defs)

lemma demo_begun_reachable: "runner_reachable mem_ops (\<lambda>x. []) demo_phases demo_begun"
  unfolding runner_reachable_def started_def demo_begun_def
  using demo_runner_composed step_begin reach.intros by metis

lemma after_reachable:
  "runner_reachable mem_ops (\<lambda>x. []) demo_phases r \<Longrightarrow> runner_reachable mem_ops (\<lambda>x. []) demo_phases (after mt r)"
  unfolding runner_reachable_def after_def
  by (auto split: option.split intro: reach_step step_message)

lemmas demo_steps = demo_begun_def BeginSession_def after_def HandleMessage_def advance_def run_hook_def put_session_def
  phaseConsumes_def commitPhaseOutputsIfEnabled_def advance_hops_hop hop_def NewSessionContext_def

lemma demo_states:
  "CurrentState demo_begun ''s'' = (''A'', True)"
  "CurrentState (after ''m'' demo_begun) ''s'' = (''B'', True)"
  "CurrentState (after ''n'' (after ''m'' demo_begun)) ''s'' = (StateNone, True)"
  by (simp_all add: CurrentState_def demo_steps demo_runner_defs)

section \<open>Properties\<close>

lemma session_placed:
  assumes "runner_reachable ops ff phases r" "map_of (r_sessions r) sid = Some t"
  shows "composed r" "placed r t" "r_phases r = phases"
  using reachable_inv [OF assms(1)] assms(2) by (auto simp: runner_inv_def)

text \<open>C7. In every runner that \<open>Compose\<close> or \<open>ComposeWith\<close> built and that has been driven by any
  sequence of calls, each tracked session is either finished (no phase, no state) or in the entry
  state of the inline phase it is in, and looking that state up gives this very phase.\<close>

theorem sessions_placed:
  assumes "runner_reachable ops ff phases r" "map_of (r_sessions r) sid = Some t"
  shows "t_current t = None \<and> t_state t = StateNone \<or>
    (\<exists>p. p \<in> set (inlines phases) \<and> t_current t = Some p \<and> t_state t = ph_EntryState p
       \<and> PhaseForState r (t_state t) = Some p)"
proof -
  note f = session_placed [OF assms]
  have "PhaseForState r (ph_EntryState p) = Some p" if "p \<in> set (inlines phases)" for p
    using composed_lookup [OF f(1), of "ph_EntryState p" p] that f(3) by (simp add: PhaseForState_def)
  then show ?thesis using f by (auto simp: placed_def split: option.splits)
qed

theorem sessions_placed_witness:
  "\<exists>t p. map_of (r_sessions demo_begun) ''s'' = Some t \<and> t_current t = Some p \<and> PhaseForState demo_begun ''A'' = Some p"
proof -
  obtain t where t: "map_of (r_sessions demo_begun) ''s'' = Some t" "t_state t = ''A''"
    using demo_states(1) by (auto simp: CurrentState_def split: option.splits)
  then show ?thesis using sessions_placed [OF demo_begun_reachable t(1)] by (auto simp: StateNone_def)
qed



text \<open>C6. In a pipeline whose last phase ends the session, a message never moves a session back, a
  call that reports a transition has moved it strictly forward, and the cascade over phases that are
  complete at once ends within the hop limit: the errors that blame the pipeline are never reported.\<close>

theorem message_moves_forward:
  assumes "runner_reachable ops ff phases r" "terminating phases"
    and "map_of (r_sessions r) sid = Some t" "t_current t = Some (inlines phases ! i)" "i < length (inlines phases)"
    and "HandleMessage ops now sid msgType from payload r = Some (r', moved, e)"
  shows "\<exists>j t'. i \<le> j \<and> j \<le> length (inlines phases) \<and> map_of (r_sessions r') sid = Some t'
    \<and> t_current t' = (if j < length (inlines phases) then Some (inlines phases ! j) else None)
    \<and> (moved \<longrightarrow> i < j \<and> e = None) \<and> \<not> pipeline_fault e"
proof -
  let ?inl = "inlines phases" and ?cur = "inlines phases ! i"
  note f = session_placed [OF assms(1,3)]
  have pos: "at_pos r i t" using f assms(4,5) by (simp add: at_pos_def placed_def Let_def)
  obtain lin1 t1 err where h: "run_hook (ph_OnMessage ?cur msgType from payload) (r_store r) t = (lin1, t1, err)"
    using prod_cases3 by blast
  have pos1: "at_pos r i t1" using run_hook_frame [OF h] pos by (simp add: at_pos_def Let_def split: if_splits)
  have "length (inlines (r_phases r)) \<le> length (r_phases r)" by (simp add: inlines_def)
  then have b: "length (inlines (r_phases r)) - i \<le> length (r_phases r) + 1" by linarith
  obtain lin2 t2 m2 e2 where adv: "advance ops now r lin1 t1 = Some (lin2, t2, m2, e2)" "forward r i t2 m2 e2"
    using advance_hops_forward [OF f(1) _ pos1 _ b, of ops now lin1] f(3) assms(2,5)
    by (auto simp: advance_def)
  have c: "\<exists>j. i \<le> j \<and> j \<le> length ?inl \<and> t_current t' = (if j < length ?inl then Some (?inl ! j) else None)
      \<and> (m \<longrightarrow> i < j \<and> err' = None) \<and> \<not> pipeline_fault err'" if "forward r i t' m err'" for t' m err'
    using that f(3) unfolding forward_def at_pos_def Let_def by (metis)
  show ?thesis
  proof (cases "phaseConsumes ?cur msgType \<and> err = None \<and> ph_CheckComplete ?cur (t_ctx t1)")
    case True
    then have "r' = put_session sid lin2 t2 r" "moved = m2" "e = e2"
      using assms(6) by (auto simp: HandleMessage_def assms(3,4) h adv(1))
    then show ?thesis using c [OF adv(2)] by auto
  next
    case False
    have cur1: "t_current t1 = Some ?cur" using pos1 assms(5) f(3) by (simp add: at_pos_def Let_def)
    have "\<exists>t'. map_of (r_sessions r') sid = Some t' \<and> t_current t' = Some ?cur" "\<not> moved" "\<not> pipeline_fault e"
      using assms(6) False cur1 assms(3,4)
      by (auto simp: HandleMessage_def h pipeline_fault_def split: if_splits option.splits)
    then show ?thesis using assms(5) by (intro exI [of _ i]) auto
  qed
qed

theorem message_moves_forward_witness:
  "\<exists>r' t' j. HandleMessage mem_ops 0 ''s'' ''m'' ''p'' [] demo_begun = Some (r', True, None) \<and> 0 < j
    \<and> map_of (r_sessions r') ''s'' = Some t' \<and> t_current t' = (if j < 2 then Some (demo_phases ! j) else None)"
proof -
  obtain r' where r': "HandleMessage mem_ops 0 ''s'' ''m'' ''p'' [] demo_begun = Some (r', True, None)"
    by (simp add: demo_steps demo_runner_defs)
  obtain t where t: "map_of (r_sessions demo_begun) ''s'' = Some t" "t_current t = Some (demo_phases ! 0)"
    by (simp add: demo_steps demo_runner_defs)
  have l: "length demo_phases = 2" by (simp add: demo_phases_def)
  have "t_current t = Some (inlines demo_phases ! 0)" using t(2) by (simp add: demo_phases_inlines)
  from message_moves_forward [OF demo_begun_reachable demo_phases_terminating t(1) this _ r']
  obtain j t' where "0 < j" "map_of (r_sessions r') ''s'' = Some t'"
    "t_current t' = (if j < 2 then Some (demo_phases ! j) else None)" unfolding demo_phases_inlines l by auto
  then show ?thesis using r' by blast
qed

text \<open>C18. \<open>AdvanceToState\<close> to the phase \<open>k\<close> of a pipeline whose last phase ends the session, from
  a phase \<open>i\<close> at or before it: it stops at \<open>k\<close>, or at a phase between the two with the error
  of a hook or of a commit there; success means that \<open>k\<close> has been entered, and the hop limit and the other
  complaints about the pipeline never occur. The target must not be one of the internal states of the
  phase the call starts in.\<close>

theorem AdvanceToState_forward:
  assumes "runner_reachable ops ff phases r" "terminating phases"
    and "map_of (r_sessions r) sid = Some t" "t_current t = Some (inlines phases ! i)"
    and "i \<le> k" "k < length (inlines phases)"
    and "ph_EntryState (inlines phases ! k) \<notin> set (ph_InternalStates (inlines phases ! i))"
    and "AdvanceToState ops now sid (ph_EntryState (inlines phases ! k)) r = (r', e)"
  shows "\<exists>j t'. i \<le> j \<and> j \<le> k \<and> map_of (r_sessions r') sid = Some t' \<and> t_current t' = Some (inlines phases ! j)
    \<and> (e = None \<longrightarrow> j = k) \<and> \<not> pipeline_fault e"
proof -
  note f = session_placed [OF assms(1,3)]
  let ?target = "ph_EntryState (inlines phases ! k)"
  have pos: "at_pos r i t" using f assms(4-6) by (simp add: at_pos_def placed_def Let_def)
  have "length (inlines phases) \<le> length phases" by (simp add: inlines_def)
  then have b: "k - i < length (r_phases r) + 1" using f(3) assms(6) by simp
  obtain lin t' e' where w: "walk_hops ops now sid ?target r (length (r_phases r) + 1) (r_store r) t = (lin, t', e')"
      "walked r i k t' e'"
    using walk_hops_forward [OF f(1) _ _ pos assms(5) b, of ops now sid "r_store r"] f(3) assms(2,6) by auto
  show ?thesis
  proof (cases "t_state t = ?target")
    case True
    have "t_state t = ph_EntryState (inlines phases ! i)" using pos assms(5,6) f(3) by (simp add: at_pos_def Let_def)
    then have "i = k" using True entry_inj [OF f(1), of i k] assms(5,6) f(3) by simp
    then show ?thesis using assms(3,4,8) True by (auto simp: AdvanceToState_def)
  next
    case False
    then have r': "r' = put_session sid lin t' r" "e = e'"
      using assms(3,4,7,8) w(1) by (auto simp: AdvanceToState_def)
    show ?thesis using w(2) r' f(3) assms(6) unfolding walked_def at_pos_def Let_def by fastforce
  qed
qed

theorem AdvanceToState_forward_witness:
  "\<exists>r' t'. AdvanceToState mem_ops 0 ''s'' ''B'' demo_begun = (r', None)
    \<and> map_of (r_sessions r') ''s'' = Some t' \<and> t_current t' = Some (demo_phases ! 1)"
proof -
  obtain r' where r': "AdvanceToState mem_ops 0 ''s'' ''B'' demo_begun = (r', None)"
    by (simp add: AdvanceToState_def walk_hops_hop demo_steps demo_runner_defs)
  obtain t where t: "map_of (r_sessions demo_begun) ''s'' = Some t" "t_current t = Some (inlines demo_phases ! 0)"
    unfolding demo_phases_inlines by (simp add: demo_steps demo_runner_defs)
  have p: "1 < length (inlines demo_phases)" "ph_EntryState (inlines demo_phases ! 1) = ''B''"
    "ph_EntryState (inlines demo_phases ! 1) \<notin> set (ph_InternalStates (inlines demo_phases ! 0))"
    unfolding demo_phases_inlines by (simp_all add: demo_phases_def plain_phase_def)
  show ?thesis using AdvanceToState_forward [OF demo_begun_reachable demo_phases_terminating t _ p(1,3), of 0 r' None]
      r' p(2) unfolding demo_phases_inlines by auto
qed

section \<open>Corner cases of AdvanceToState\<close>

text \<open>Asked for a state that does not lie ahead of the session, it walks to the end of the pipeline before it reports the
  error: the failed call has moved the session.\<close>

lemma advance_back_moves:
  "\<exists>r' e. AdvanceToState mem_ops 0 ''s'' ''C'' demo_begun = (r', Some e) \<and> CurrentState demo_begun ''s'' = (''A'', True)
    \<and> CurrentState r' ''s'' = (''B'', True)"
  by (simp add: AdvanceToState_def walk_hops_hop CurrentState_def demo_steps demo_runner_defs)

text \<open>\<open>Compose\<close> accepts a phase whose entry state is an internal state of an earlier phase; the session
  then never gets there, although the call succeeds.\<close>

definition shadow_phases :: "mem_store phase list" where
  "shadow_phases = [plain_phase ''a'' ''A'' ''B'' [''B''] [''m''], plain_phase ''b'' ''B'' StateNone [] [''n'']]"

lemma advance_shadowed:
  "\<exists>r. Compose (\<lambda>x. []) shadow_phases = Inr r \<and>
     (let r1 = fst (BeginSession ''s'' [] r); (r2, e) = AdvanceToState mem_ops 0 ''s'' ''B'' r1
      in e = None \<and> CurrentState r2 ''s'' = (''A'', True))"
  by (simp add: shadow_phases_def AdvanceToState_def CurrentState_def demo_steps demo_runner_defs)

end
