(* ===== verification/Runner_Lineage.thy ===== *)
theory Runner_Lineage
  imports Runner_Inv
begin

text \<open>
  The runner and the lineage store: what a phase provides is committed when it exits, with parents that
  are in the store; a message reaches a phase of a lineage-enabled runner only with a verified node.

  The lemmas rest on the contract of a store as the runner sees it (\<open>store_backend\<close>, the locale
  \<open>node_store\<close> on the operations of a \<open>store_ops\<close> record), which is interpreted on the in-memory
  store.
\<close>

section \<open>The store contract\<close>

lemma as_bytes_Some: "as_bytes v = Some b \<longleftrightarrow> v = VBytes b"
  by (cases v) (simp_all add: as_bytes_def)

lemma Commit_signed: "Commit now sid name key b parents sg = Inr n \<Longrightarrow> \<exists>x. sg = Some x"
  by (cases sg) (simp_all add: Commit_def)

locale store_backend = node_store inv "so_Append ops" "so_Get ops" walk
  for ops :: "'s store_ops" and inv :: "'s \<Rightarrow> bool" and walk :: "'s \<Rightarrow> string \<Rightarrow> dag_node list" +
  assumes ops_walk: "inv s \<Longrightarrow> so_Walk ops s sid = map (\<lambda>n. (n, None)) (walk s sid)"
begin

definition held :: "'s \<Rightarrow> node_ref \<Rightarrow> bool" where
  "held s h \<longleftrightarrow> (\<exists>m. so_Get ops s h = Inr m)"

definition closed :: "'s \<Rightarrow> bool" where
  "closed s \<longleftrightarrow> (\<forall>h n p. so_Get ops s h = Inr n \<longrightarrow> p \<in> set (d_Parents n) \<longrightarrow> held s p)"

definition kept :: "'s \<Rightarrow> 's \<Rightarrow> bool" where
  "kept s s' \<longleftrightarrow> inv s' \<and> (\<forall>h m. so_Get ops s h = Inr m \<longrightarrow> so_Get ops s' h = Inr m)"

lemma kept_refl: "inv s \<Longrightarrow> kept s s"
  by (simp add: kept_def)

lemma kept_trans: "kept s s1 \<Longrightarrow> kept s1 s2 \<Longrightarrow> kept s s2"
  by (simp add: kept_def)

lemma kept_held: "kept s s' \<Longrightarrow> held s h \<Longrightarrow> held s' h"
  by (auto simp: kept_def held_def)

lemma kept_append: "inv s \<Longrightarrow> so_Append ops s n = (s', err) \<Longrightarrow> kept s s'"
  unfolding kept_def using append_inv [of s n] get_append_mono [of s _ _ n] by simp

lemma append_verdict: "inv s \<Longrightarrow> so_Append ops s n = (s', err) \<Longrightarrow> err = None \<or> err = Some ErrNodeExists"
  by (cases rule: append_cases [of s n]) auto

lemma held_append: "inv s \<Longrightarrow> so_Append ops s n = (s', err) \<Longrightarrow> held s' (d_Hash n)"
  using get_after_append [of s n] by (auto simp: held_def)

lemma closed_append:
  assumes "inv s" "closed s" "so_Append ops s n = (s', err)" "\<And>p. p \<in> set (d_Parents n) \<Longrightarrow> held s p"
  shows "closed s'"
  using assms(1)
proof (cases rule: append_cases [where n = n])
  case (exists m)
  then show ?thesis using assms(2,3) by simp
next
  case (fresh e)
  have k: "kept s s'" using kept_append [OF assms(1,3)] .
  have g: "so_Get ops s' h = (if h = d_Hash n then Inr n else so_Get ops s h)" for h
    using get_append [OF assms(1) fresh(1), of h] assms(3) by simp
  show ?thesis unfolding closed_def
  proof (intro allI impI)
    fix h m p
    assume m: "so_Get ops s' h = Inr m" "p \<in> set (d_Parents m)"
    then have "held s p" using g [of h] assms(2,4) unfolding closed_def by (metis sum.inject(2))
    then show "held s' p" using kept_held [OF k] by blast
  qed
qed

lemma find_payload_walk:
  assumes "inv s"
  shows "\<exists>found. find_payload (so_Walk ops s sid) h = Inr found
    \<and> (\<forall>n. found = Some n \<longrightarrow> held s (d_Hash n) \<and> d_SessionID n = sid \<and> d_PayloadHash n = h)"
proof -
  have "\<exists>found. find_payload (map (\<lambda>n. (n, None)) ns) h = Inr found
      \<and> (\<forall>n. found = Some n \<longrightarrow> n \<in> set ns \<and> d_PayloadHash n = h)" for ns
    by (induction ns) auto
  from this [of "walk s sid"] show ?thesis
    using walk_iff [OF assms] ops_walk [OF assms] unfolding held_def by metis
qed

lemma resolve_keys_held:
  assumes "inv s"
  shows "\<exists>ns. resolve_keys ops kts c s = Inr ns \<and> (\<forall>n \<in> set ns. held s (d_Hash n) \<and> d_SessionID n = c_SessionID c)"
proof (induction kts)
  case (Cons kt kts)
  obtain key k where kt: "kt = (key, k)" by (cases kt)
  obtain ns where ns: "resolve_keys ops kts c s = Inr ns" "\<forall>n \<in> set ns. held s (d_Hash n) \<and> d_SessionID n = c_SessionID c"
    using Cons by blast
  show ?case
  proof (cases "Option.bind (ctx_Get c key) as_bytes")
    case None
    then show ?thesis using ns by (cases "ctx_Get c key") (simp_all add: kt)
  next
    case (Some payload)
    then obtain raw where raw: "ctx_Get c key = Some raw" "as_bytes raw = Some payload"
      by (cases "ctx_Get c key") auto
    obtain found where "find_payload (so_Walk ops s (c_SessionID c)) (HashPayload payload) = Inr found"
      "\<forall>n. found = Some n \<longrightarrow> held s (d_Hash n) \<and> d_SessionID n = c_SessionID c"
      using find_payload_walk [OF assms] by blast
    then show ?thesis using ns by (auto simp: kt raw split: option.split)
  qed
qed simp

definition recorded :: "'s \<Rightarrow> string \<Rightarrow> dag_node list \<Rightarrow> (string \<times> context_key_type) list \<Rightarrow> 's sctx \<Rightarrow> bool" where
  "recorded s name parents kts c \<longleftrightarrow>
     (\<forall>key kt b. (key, kt) \<in> set kts \<longrightarrow> \<not> ck_NoLineage kt \<longrightarrow> ctx_Get c key = Some (VBytes b) \<longrightarrow>
        held s (DeriveNodeHash (c_SessionID c) name key b (sort (map d_Hash parents))))"

lemma recorded_kept: "recorded s name parents kts c \<Longrightarrow> kept s s' \<Longrightarrow> recorded s' name parents kts c"
  unfolding recorded_def using kept_held by blast

lemma commit_one:
  assumes "inv s" "closed s" "\<And>n. n \<in> set parents \<Longrightarrow> held s (d_Hash n)"
    and "Commit now (c_SessionID c) name key b parents sg = Inr node" "so_Append ops s node = (s', err)"
  shows "kept s s'" "closed s'" "held s' (DeriveNodeHash (c_SessionID c) name key b (sort (map d_Hash parents)))"
proof -
  obtain x where "sg = Some x" using Commit_signed [OF assms(4)] by blast
  note n = Commit_fields [OF assms(4) [unfolded this]]
  show "kept s s'" using kept_append [OF assms(1,5)] .
  show "closed s'" using closed_append [OF assms(1,2,5)] assms(3) n(5) by auto
  show "held s' (DeriveNodeHash (c_SessionID c) name key b (sort (map d_Hash parents)))"
    using held_append [OF assms(1,5)] n(1,5) by simp
qed

lemma commit_keys_spec:
  assumes "inv s" "closed s" "\<And>n. n \<in> set parents \<Longrightarrow> held s (d_Hash n)"
    and "commit_keys ops now sg name parents kts c s = (s', e)"
  shows "kept s s' \<and> closed s' \<and> (e = None \<longrightarrow> recorded s' name parents kts c)"
  using assms
proof (induction kts arbitrary: s)
  case Nil
  then show ?case by (auto simp: kept_refl recorded_def)
next
  case (Cons k kts)
  obtain key kt where k: "k = (key, kt)" by (cases k)
  have skip: ?case if "commit_keys ops now sg name parents kts c s = (s', e)"
      "\<And>b. ck_NoLineage kt \<or> ctx_Get c key \<noteq> Some (VBytes b)"
    using Cons.IH [OF Cons.prems(1-3) that(1)] that(2) unfolding recorded_def k by auto
  show ?case
  proof (cases "\<exists>b. \<not> ck_NoLineage kt \<and> ctx_Get c key = Some (VBytes b)")
    case False
    then have "commit_keys ops now sg name parents kts c s = (s', e)"
      using Cons.prems(4) by (auto simp: k as_bytes_def split: option.splits if_splits anyv.splits)
    then show ?thesis using skip False by blast
  next
    case True
    then obtain b where b: "\<not> ck_NoLineage kt" "ctx_Get c key = Some (VBytes b)" by blast
    show ?thesis
    proof (cases "Commit now (c_SessionID c) name key b parents sg")
      case (Inl m)
      then show ?thesis using Cons.prems by (auto simp: k b as_bytes_def kept_refl)
    next
      case (Inr node)
      obtain s1 err where ap: "so_Append ops s node = (s1, err)" by fastforce
      note o = commit_one [OF Cons.prems(1-3) Inr ap]
      have "commit_keys ops now sg name parents kts c s1 = (s', e)"
        using Cons.prems(4) append_verdict [OF Cons.prems(1) ap] Inr ap by (auto simp: k b as_bytes_def)
      from Cons.IH [OF _ o(2) _ this] have ih: "kept s1 s'" "closed s'" "e = None \<longrightarrow> recorded s' name parents kts c"
        using o(1) Cons.prems(3) kept_held unfolding kept_def by blast+
      have "held s' (DeriveNodeHash (c_SessionID c) name key b (sort (map d_Hash parents)))"
        using kept_held [OF ih(1) o(3)] .
      then show ?thesis using kept_trans [OF o(1) ih(1)] ih(2,3) b unfolding recorded_def k by auto
    qed
  qed
qed

lemma commit_outputs:
  assumes "inv s" "closed s" "commitPhaseOutputsIfEnabled ops now sg p c (Some s) = (lin, e)"
  obtains s' parents where "lin = Some s'" "kept s s'" "closed s'" "\<And>n. n \<in> set parents \<Longrightarrow> held s (d_Hash n)"
    "e = None \<longrightarrow> recorded s' (ph_Name p) parents (ph_Provides p) c"
proof -
  obtain parents where p: "resolveParents ops p c s = Inr parents" "\<And>n. n \<in> set parents \<Longrightarrow> held s (d_Hash n)"
    using resolve_keys_held [OF assms(1)] unfolding resolveParents_def by metis
  obtain s' e' where k: "commit_keys ops now sg (ph_Name p) parents (ph_Provides p) c s = (s', e')" by fastforce
  have "lin = Some s'" "e = e'" using assms(3) by (simp_all add: commitPhaseOutputsIfEnabled_def p k)
  then show thesis using that commit_keys_spec [OF assms(1,2) p(2) k] p(2) by blast
qed

end

interpretation memb: store_backend mem_ops mem_inv WalkSession
  by unfold_locales
    (simp_all add: mem_ops_def mem.append_inv mem.append_dup mem.append_ok mem.get_append mem.walk_append
      mem.get_hash mem.walk_iff mem.walk_distinct)

section \<open>Properties\<close>

definition dag_closed :: "mem_store \<Rightarrow> bool" where
  "dag_closed s \<longleftrightarrow> (\<forall>h n p. Get s h = Inr n \<longrightarrow> p \<in> set (d_Parents n) \<longrightarrow> (\<exists>m. Get s p = Inr m))"

lemma memb_unfold:
  "memb.closed s \<longleftrightarrow> dag_closed s" "memb.held s h \<longleftrightarrow> (\<exists>m. Get s h = Inr m)"
  "memb.kept s s' \<longleftrightarrow> mem_inv s' \<and> (\<forall>h m. Get s h = Inr m \<longrightarrow> Get s' h = Inr m)"
  unfolding memb.closed_def memb.held_def memb.kept_def dag_closed_def by (simp_all add: mem_ops_def)

text \<open>C10. When a phase exits, the outputs it provides are committed: on success the store holds, for
  every provided key that is not exempt from lineage and whose value is bytes, a node hashed from the session, the
  phase, the key, the bytes and parents that were in the store. On success and on error alike no node is
  lost and the parents of every stored node are in the store.\<close>

theorem outputs_committed:
  assumes "mem_inv s" "dag_closed s" "commitPhaseOutputsIfEnabled mem_ops now sg p c (Some s) = (lin, e)"
  shows "\<exists>s'. lin = Some s' \<and> mem_inv s' \<and> dag_closed s' \<and> (\<forall>h m. Get s h = Inr m \<longrightarrow> Get s' h = Inr m)
    \<and> (e = None \<longrightarrow> (\<forall>key kt b. (key, kt) \<in> set (ph_Provides p) \<and> \<not> ck_NoLineage kt \<and> ctx_Get c key = Some (VBytes b) \<longrightarrow>
         (\<exists>parents m. list_all (\<lambda>q. \<exists>n. Get s q = Inr n) parents
            \<and> Get s' (DeriveNodeHash (c_SessionID c) (ph_Name p) key b parents) = Inr m)))"
proof -
  obtain s' ns where r: "lin = Some s'" "memb.kept s s'" "memb.closed s'"
    "\<And>n. n \<in> set ns \<Longrightarrow> memb.held s (d_Hash n)" "e = None \<longrightarrow> memb.recorded s' (ph_Name p) ns (ph_Provides p) c"
    using memb.commit_outputs [OF assms(1) _ assms(3)] assms(2) unfolding memb_unfold(1) by metis
  have "list_all (\<lambda>q. \<exists>n. Get s q = Inr n) (sort (map d_Hash ns))"
    using r(4) by (auto simp: list_all_iff memb_unfold)
  then show ?thesis using r(1-3,5) unfolding memb.recorded_def memb_unfold
    by (intro exI [of _ s'] conjI impI allI) (blast, blast, blast, blast, metis)
qed

definition demo_output_phase :: "mem_store phase" where
  "demo_output_phase = (plain_phase ''phase'' ''A'' StateNone [] [])\<lparr>ph_Provides :=
     [(''role'', \<lparr>ck_TypeName = [], ck_Required = False, ck_Constraints = [], ck_NoLineage = False\<rparr>)]\<rparr>"

definition demo_output_ctx :: "mem_store sctx" where
  "demo_output_ctx = ctx_Set ''role'' (VBytes ''payload'') (NewSessionContext ''session'')"

lemma demo_store_ok: "mem_inv NewInMemoryStore" "dag_closed NewInMemoryStore"
  by (simp_all add: mem_inv_def NewInMemoryStore_def session_refs_def dag_closed_def Get_def)

lemma demo_output_commit:
  "\<exists>s'. commitPhaseOutputsIfEnabled mem_ops 0 (Some demo_signer) demo_output_phase demo_output_ctx (Some NewInMemoryStore)
     = (Some s', None)"
  by (simp add: commitPhaseOutputsIfEnabled_def resolveParents_def demo_output_phase_def plain_phase_def demo_output_ctx_def
      ctx_Get_Set as_bytes_def demo_node_commit mem_ops_def Append_def NewInMemoryStore_def)
    (simp add: ctx_Set_def NewSessionContext_def demo_node_commit Append_def)

theorem outputs_committed_witness:
  "\<exists>s' parents m. commitPhaseOutputsIfEnabled mem_ops 0 (Some demo_signer) demo_output_phase demo_output_ctx
       (Some NewInMemoryStore) = (Some s', None)
     \<and> Get s' (DeriveNodeHash ''session'' ''phase'' ''role'' ''payload'' parents) = Inr m"
proof -
  obtain s' where c: "commitPhaseOutputsIfEnabled mem_ops 0 (Some demo_signer) demo_output_phase demo_output_ctx
       (Some NewInMemoryStore) = (Some s', None)" using demo_output_commit by blast
  have f: "c_SessionID demo_output_ctx = ''session''" "ph_Name demo_output_phase = ''phase''"
    "ctx_Get demo_output_ctx ''role'' = Some (VBytes ''payload'')"
    "ph_Provides demo_output_phase = [(''role'', \<lparr>ck_TypeName = [], ck_Required = False, ck_Constraints = [], ck_NoLineage = False\<rparr>)]"
    by (simp_all add: demo_output_ctx_def ctx_Get_Set demo_output_phase_def plain_phase_def)
      (simp add: ctx_Set_def NewSessionContext_def)
  show ?thesis using outputs_committed [OF demo_store_ok c] c f(3) unfolding f(1,2,4) by auto
qed

lemma missing_parent_None: "missing_parent ops s i ps = None \<longleftrightarrow> list_all (\<lambda>p. \<exists>m. so_Get ops s p = Inr m) ps"
proof (induction ps arbitrary: i)
  case (Cons p ps)
  then show ?case by (cases "so_Get ops s p") simp_all
qed simp

lemma lineage_check_None:
  "lineage_check ops vs s n payload = None \<longleftrightarrow>
     Verify n payload vs = None \<and> list_all (\<lambda>p. \<exists>m. so_Get ops s p = Inr m) (d_Parents n)"
  using missing_parent_None [of ops s 0 "d_Parents n"] by (auto simp: lineage_check_def split: option.split)


text \<open>The runner of one plain phase with a store, and the session \<open>other\<close> begun in it.\<close>

definition demo_lin_phases :: "mem_store phase list" where
  "demo_lin_phases = [plain_phase ''a'' ''A'' ''B'' [] [''m''], plain_phase ''b'' ''B'' StateNone [] [''n'']]"

definition demo_lin_base :: "mem_store runner" where
  "demo_lin_base = (case Compose (\<lambda>x. []) demo_lin_phases of Inr r \<Rightarrow> r | Inl e \<Rightarrow> new_runner [])"

definition demo_lin_runner :: "mem_store runner" where
  "demo_lin_runner = fst (BeginSession ''other'' []
     (attachLineage NewInMemoryStore demo_signer [(''demo'', demo_signer)] False demo_lin_base))"

lemmas demo_lin_defs = demo_lin_base_def demo_lin_phases_def plain_phase_def Compose_def new_runner_def StateNone_def
  add_provides_def add_inline_def Let_def

lemma demo_lin_base_composed: "Compose (\<lambda>x. []) demo_lin_phases = Inr demo_lin_base"
  by (simp add: demo_lin_defs)

lemma demo_lin_ComposeWith:
  "ComposeWith (\<lambda>x. []) NewInMemoryStore demo_lin_phases [WithSigner demo_signer, WithPeerVerifiers [(''demo'', demo_signer)]]
     = Inr (attachLineage NewInMemoryStore demo_signer [(''demo'', demo_signer)] False demo_lin_base)"
proof -
  have "sg_Algorithm demo_signer = ''demo''" by (simp add: demo_signer_def)
  then show ?thesis
    by (simp add: ComposeWith_def WithSigner_def WithPeerVerifiers_def no_opts_def demo_lin_base_composed)
qed

lemma demo_lin_fields:
  "r_store demo_lin_runner = Some NewInMemoryStore" "r_verifiers demo_lin_runner = [(''demo'', demo_signer)]"
  "r_signer demo_lin_runner = Some demo_signer"
  by (simp_all add: demo_lin_runner_def demo_lin_defs attachLineage_def BeginSession_def put_session_def run_hook_def)


text \<open>The session, the phase and the producer of a verified node are not compared with the message:
  a node that any accepted signer committed in a session \<open>sidA\<close> carries a message into every
  session \<open>sid\<close> of the runner, from any sender.\<close>

theorem lineage_session_unchecked:
  assumes "r_store r = Some s" "Commit created sidA phaseID role payload [] (Some sg) = Inr n"
    and "map_of (r_verifiers r) (sg_Algorithm sg) = Some v" "signer_correct sg v" "so_Append ops s n = (s', None)"
  shows "HandleLineageMessage ops now sid msgType from payload (Some n) r
     = HandleMessage ops now sid msgType from payload (r\<lparr>r_store := Some s'\<rparr>)"
proof -
  have "lineage_check ops (r_verifiers r) s n payload = None"
    using Commit_verifies [OF assms(2-4)] Commit_fields(5) [OF assms(2)] by (simp add: lineage_check_None)
  then show ?thesis using assms(1,5) by (simp add: HandleLineageMessage_def)
qed

theorem lineage_session_unchecked_witness:
  "d_SessionID demo_node = ''session'' \<and>
   (\<exists>r'. HandleLineageMessage mem_ops 0 ''other'' ''m'' ''p'' ''payload'' (Some demo_node) demo_lin_runner = Some (r', True, None))"
proof -
  obtain s' where s': "so_Append mem_ops NewInMemoryStore demo_node = (s', None)"
    by (simp add: mem_ops_def Append_def NewInMemoryStore_def)
  have v: "map_of (r_verifiers demo_lin_runner) (sg_Algorithm demo_signer) = Some demo_signer"
    "signer_correct demo_signer demo_signer"
    by (simp_all add: demo_lin_fields(2) signer_correct_def) (simp_all add: demo_signer_def)
  have "\<exists>r'. HandleMessage mem_ops 0 ''other'' ''m'' ''p'' ''payload'' (demo_lin_runner\<lparr>r_store := Some s'\<rparr>) = Some (r', True, None)"
    by (simp add: HandleMessage_def demo_lin_runner_def demo_lin_defs attachLineage_def BeginSession_def put_session_def
      run_hook_def phaseConsumes_def advance_def advance_hops_hop hop_def commitPhaseOutputsIfEnabled_def resolveParents_def)
  then show ?thesis
    using lineage_session_unchecked [OF demo_lin_fields(1) demo_node_commit v s'] demo_node_fields(1) by simp
qed

end
