(* ===== verification/Runner_Race.thy ===== *)
theory Runner_Race
  imports Runner_Inv
begin

text \<open>
  Calls of \<open>HandleMessage\<close> for one session that overlap. The hub dispatches the frames of each
  connection in a goroutine of its own, and \<open>HandleMessage\<close> holds the runner's lock only while it
  looks the session up, so the calls interleave between the delivery of the message, the check for
  completion and the advance. Each of these is one step here; a schedule lists which call steps next.
\<close>

datatype 's call =
    Deliver string string bytes
  | Check "'s phase"
  | Advance
  | Returned bool "rerror option"
  | Panicked

definition call_step ::
  "'s store_ops \<Rightarrow> int \<Rightarrow> 's runner \<Rightarrow> 's call \<Rightarrow> 's option \<times> 's tracker \<Rightarrow> 's call \<times> 's option \<times> 's tracker" where
  "call_step ops now r pc st =
     (case st of (lin, t) \<Rightarrow>
        (case pc of
           Deliver msgType from payload \<Rightarrow>
             (case t_current t of
                None \<Rightarrow> (Panicked, lin, t)
              | Some cur \<Rightarrow>
                  if \<not> phaseConsumes cur msgType
                  then (Returned False (Some (Wrapped ErrPermanent (NotConsumed (ph_Name cur) msgType (t_state t)))), lin, t)
                  else
                    (let (lin1, t1, err) = run_hook (ph_OnMessage cur msgType from payload) lin t
                     in (case err of
                           Some e \<Rightarrow> Returned False (Some (PhaseError (ph_Name cur) ''OnMessage'' e))
                         | None \<Rightarrow> Check cur, lin1, t1)))
         | Check cur \<Rightarrow> (if ph_CheckComplete cur (t_ctx t) then Advance else Returned False None, lin, t)
         | Advance \<Rightarrow>
             (case advance ops now r lin t of
                None \<Rightarrow> (Panicked, lin, t)
              | Some (lin1, t1, moved, e) \<Rightarrow> (Returned moved e, lin1, t1))
         | _ \<Rightarrow> (pc, lin, t)))"

fun run_schedule ::
  "'s store_ops \<Rightarrow> int \<Rightarrow> 's runner \<Rightarrow> nat list \<Rightarrow> 's call list \<times> 's option \<times> 's tracker \<Rightarrow>
   's call list \<times> 's option \<times> 's tracker" where
  "run_schedule ops now r [] cfg = cfg"
| "run_schedule ops now r (i # is) (calls, st) =
     (let (pc, st') = call_step ops now r (calls ! i) st in run_schedule ops now r is (calls[i := pc], st'))"

text \<open>A call that runs undisturbed leaves what \<open>HandleMessage\<close> leaves.\<close>

lemma call_alone:
  assumes "map_of (r_sessions r) sid = Some t"
  shows "HandleMessage ops now sid msgType from payload r =
     (case run_schedule ops now r [0, 0, 0] ([Deliver msgType from payload], r_store r, t) of
        ([Returned moved e], lin, t') \<Rightarrow>
          Some (if (\<exists>cur. t_current t = Some cur \<and> phaseConsumes cur msgType) then put_session sid lin t' r else r, moved, e)
      | _ \<Rightarrow> None)"
proof (cases "t_current t")
  case None
  then show ?thesis by (simp add: HandleMessage_def assms call_step_def)
next
  case (Some cur)
  obtain lin1 t1 err where h: "run_hook (ph_OnMessage cur msgType from payload) (r_store r) t = (lin1, t1, err)"
    using prod_cases3 by blast
  show ?thesis
  proof (cases "phaseConsumes cur msgType \<and> err = None \<and> ph_CheckComplete cur (t_ctx t1)")
    case True
    then show ?thesis
      by (cases "advance ops now r lin1 t1") (auto simp: HandleMessage_def assms Some h call_step_def)
  next
    case False
    then show ?thesis
      by (cases err) (auto simp: HandleMessage_def assms Some h call_step_def)
  qed
qed

section \<open>A pipeline of two quorums\<close>

definition quorum_phase :: "string \<Rightarrow> session_state \<Rightarrow> session_state \<Rightarrow> string \<Rightarrow> 's phase" where
  "quorum_phase name entry exit msgType = (plain_phase name entry exit [] [msgType])
     \<lparr>ph_OnMessage := (\<lambda>mt from payload c. (AccumulateMessage mt from payload c, None)),
      ph_CheckComplete := (\<lambda>c. QuorumReached c msgType 2)\<rparr>"

definition quorum_phases :: "mem_store phase list" where
  "quorum_phases = [quorum_phase ''a'' ''A'' ''B'' ''m'', quorum_phase ''b'' ''B'' StateNone ''n'']"

definition quorum_runner :: "mem_store runner" where
  "quorum_runner = (case Compose (\<lambda>x. []) quorum_phases of
     Inr r \<Rightarrow> fst (BeginSession ''s'' [] r) | Inl e \<Rightarrow> new_runner [])"

definition quorum_race :: "nat list \<Rightarrow> mem_store call list \<times> mem_store option \<times> mem_store tracker" where
  "quorum_race sched = run_schedule mem_ops 0 quorum_runner sched
     ([Deliver ''m'' ''p'' ''x'', Deliver ''m'' ''q'' ''y''], r_store quorum_runner,
      the (map_of (r_sessions quorum_runner) ''s''))"

lemmas quorum_defs = quorum_race_def quorum_runner_def quorum_phases_def quorum_phase_def plain_phase_def Compose_def
  new_runner_def StateNone_def add_provides_def add_inline_def Let_def BeginSession_def put_session_def run_hook_def
  NewSessionContext_def call_step_def phaseConsumes_def AccumulateMessage_def ctx_Update_def as_bucket_def
  QuorumReached_def MessageCount_def ctx_Get_def advance_def advance_hops_hop hop_def commitPhaseOutputsIfEnabled_def


end
