(* ===== verification/Session_Props.thy ===== *)
theory Session_Props
  imports Session
begin

text \<open>What the message accumulator of a session context (accumulator.go) promises.\<close>

definition accumulate_all :: "string \<Rightarrow> (string \<times> bytes) list \<Rightarrow> 's sctx \<Rightarrow> 's sctx" where
  "accumulate_all b msgs c = fold (\<lambda>(from, payload). AccumulateMessage b from payload) msgs c"

lemma accumulate_all_simps [simp]:
  "accumulate_all b [] c = c"
  "accumulate_all b (msgs @ [(from, payload)]) c = AccumulateMessage b from payload (accumulate_all b msgs c)"
  by (simp_all add: accumulate_all_def)

lemma ctx_Get_Accumulate:
  "ctx_Get (AccumulateMessage b from payload c) key =
     (if key = b then Some (VBucket (AList.update from payload (AccumulatedMessages c b))) else ctx_Get c key)"
  by (auto simp: AccumulateMessage_def ctx_Update_def ctx_Get_def AccumulatedMessages_def gomap_simps as_bucket_def
      split: option.splits anyv.splits)

lemma AccumulatedMessages_step:
  "AccumulatedMessages (AccumulateMessage b from payload c) b = AList.update from payload (AccumulatedMessages c b)"
  by (simp add: AccumulatedMessages_def [of "AccumulateMessage b from payload c"] ctx_Get_Accumulate as_bucket_def)

lemma MessageCount_length: "MessageCount c b = int (length (AccumulatedMessages c b))"
  by (simp add: MessageCount_def AccumulatedMessages_def split: option.split)

lemma accumulate_all_spec:
  assumes "ctx_Get c b = None"
  shows "gomap_wf (AccumulatedMessages (accumulate_all b msgs c) b)
    \<and> map_of (AccumulatedMessages (accumulate_all b msgs c) b) = map_of (rev msgs)
    \<and> (key \<noteq> b \<longrightarrow> ctx_Get (accumulate_all b msgs c) key = ctx_Get c key)"
proof (induction msgs rule: rev_induct)
  case Nil
  then show ?case using assms by (simp add: AccumulatedMessages_def)
next
  case (snoc m msgs)
  obtain f p where m: "m = (f, p)" by (cases m)
  show ?case using snoc by (simp add: m AccumulatedMessages_step ctx_Get_Accumulate gomap_simps distinct_update)
qed

lemma wf_length: "gomap_wf m \<Longrightarrow> length m = card (keys m)"
  by (metis distinct_card length_map list.set_map)

lemma keys_map_of: "map_of m = map_of m' \<Longrightarrow> keys m = keys m'"
  by (metis dom_map_of_conv_image_fst)

lemma accumulator_quorum_of:
  assumes "ctx_Get c b = None"
  shows "MessageCount (accumulate_all b msgs c) b = int (card (fst ` set msgs))
    \<and> (QuorumReached (accumulate_all b msgs c) b n \<longleftrightarrow> n \<le> int (card (fst ` set msgs)))
    \<and> (key \<noteq> b \<longrightarrow> ctx_Get (accumulate_all b msgs c) key = ctx_Get c key)"
proof -
  note s = accumulate_all_spec [OF assms, of msgs key]
  have "keys (AccumulatedMessages (accumulate_all b msgs c) b) = keys (rev msgs)" using s keys_map_of by blast
  then have "MessageCount (accumulate_all b msgs c) b = int (card (fst ` set msgs))"
    using wf_length [OF conjunct1 [OF s]] by (simp add: MessageCount_length)
  then show ?thesis using s by (simp add: QuorumReached_def)
qed

text \<open>After any sequence of accumulated messages a bucket holds the last payload of each sender and its
  count is the number of distinct senders: a sender that repeats itself brings a quorum no
  nearer, and no other entry of the context changes.\<close>

theorem accumulator_quorum:
  assumes "ctx_Get c b = None"
  shows "map_of (AccumulatedMessages (accumulate_all b msgs c) b) = map_of (rev msgs)
    \<and> MessageCount (accumulate_all b msgs c) b = int (card (fst ` set msgs))
    \<and> (QuorumReached (accumulate_all b msgs c) b n \<longleftrightarrow> n \<le> int (card (fst ` set msgs)))
    \<and> (key \<noteq> b \<longrightarrow> ctx_Get (accumulate_all b msgs c) key = ctx_Get c key)"
  using accumulate_all_spec [OF assms, of msgs key] accumulator_quorum_of [OF assms, of msgs n key] by blast

theorem accumulator_quorum_witness:
  "\<not> QuorumReached (accumulate_all ''bids'' [(''p'', ''1''), (''p'', ''2'')] (NewSessionContext ''s'' :: mem_store sctx)) ''bids'' 2
   \<and> map_of (AccumulatedMessages (accumulate_all ''bids'' [(''p'', ''1''), (''p'', ''2'')] (NewSessionContext ''s'' :: mem_store sctx)) ''bids'') ''p''
     = Some ''2''"
proof -
  have "ctx_Get (NewSessionContext ''s'' :: mem_store sctx) ''bids'' = None" by (simp add: ctx_Get_def NewSessionContext_def)
  from accumulator_quorum [OF this, of "[(''p'', ''1''), (''p'', ''2'')]" 2] show ?thesis by simp
qed

end
