(* ===== verification/Hub.thy ===== *)
theory Hub
  imports Lineage Float64
begin

text \<open>
  The WebSocket hub (pkg/ares/transport/hub.go) with its frame validation (validate.go), token
  authentication (auth.go) and rate limiter (rate\_limit.go).

  A \<open>Client\<close> is an object that outlives its registration: the read pump of a connection keeps it
  after the hub's map has moved on to a newer connection of the same pseudonym. Clients are therefore kept in
  a store by connection number, and the map of the hub holds numbers. What the WebSocket library
  decides (whether an upgrade succeeds, whether a read or write fails) is an argument of the operation
  that asks; \<open>enc\<close> stands for \<open>json.Marshal\<close> of a message and a received frame is \<open>None\<close> when it does
  not parse. A time is a number of nanoseconds.
\<close>

section \<open>Authentication\<close>

unbundle bit_operations_syntax

definition xor_byte :: "nat \<Rightarrow> char \<Rightarrow> char" where
  "xor_byte k c = char_of (k XOR (of_char c))"

text \<open>\<open>hmac.New(sha256.New, key)\<close>: keys longer than a block are hashed.\<close>

definition hmac_sha256 :: "bytes \<Rightarrow> bytes \<Rightarrow> bytes" where
  "hmac_sha256 key m =
     (let k0 = (if length key > 64 then sha256 key else key);
          k = k0 @ replicate (64 - length k0) (CHR 0x00)
      in sha256 (map (xor_byte 0x5c) k @ sha256 (map (xor_byte 0x36) k @ m)))"

record auth_middleware =
  am_Secret :: bytes
  am_AllowDevBypass :: bool

definition GenerateToken :: "auth_middleware \<Rightarrow> string \<Rightarrow> string" where
  "GenerateToken m pseudonym = hex_encode (hmac_sha256 (am_Secret m) pseudonym)"

definition ValidateToken :: "auth_middleware \<Rightarrow> string \<Rightarrow> string \<Rightarrow> bool" where
  "ValidateToken m pseudonym token =
     (if length (am_Secret m) = 0 then am_AllowDevBypass m
      else hex_encode (hmac_sha256 (am_Secret m) pseudonym) = token)"

section \<open>Messages\<close>

record ws_message =
  m_Version :: string
  m_Type :: string
  m_SessionID :: string
  m_Seq :: int
  m_Payload :: bytes
  m_Timestamp :: string
  m_Lineage :: "dag_node option"

definition WireProtocolVersion :: string where
  "WireProtocolVersion = ''1''"

definition WireProtocolVersionLineage :: string where
  "WireProtocolVersionLineage = ''2''"

datatype frame_error = MissingLineage string | UnknownVersion string

definition ValidateInboundMessage :: "ws_message \<Rightarrow> frame_error option" where
  "ValidateInboundMessage msg =
     (let v = (if m_Version msg = [] then WireProtocolVersion else m_Version msg)
      in if v = WireProtocolVersion then None
         else if v = WireProtocolVersionLineage then
           (if m_Lineage msg = None then Some (MissingLineage v) else None)
         else Some (UnknownVersion v))"

section \<open>Rate limiting\<close>

record rate_limiter =
  rl_capacity :: f64
  rl_refillRate :: f64
  rl_tokens :: f64
  rl_lastTick :: int

definition newRateLimiter :: "f64 \<Rightarrow> f64 \<Rightarrow> int \<Rightarrow> rate_limiter option" where
  "newRateLimiter rate burst now =
     (if fle rate (Fin 0) \<or> fle burst (Fin 0) then None
      else Some \<lparr>rl_capacity = burst, rl_refillRate = rate, rl_tokens = burst, rl_lastTick = now\<rparr>)"

text \<open>\<open>t.Sub(u)\<close> saturates at the limits of a 64-bit duration; \<open>Seconds\<close> adds the whole seconds
  and the rest, with Go's truncated division.\<close>

definition time_Sub :: "int \<Rightarrow> int \<Rightarrow> int" where
  "time_Sub t u = max (- (2 ^ 63)) (min (2 ^ 63 - 1) (t - u))"

definition duration_Seconds :: "int \<Rightarrow> f64" where
  "duration_Seconds d =
     (let q = sgn d * (\<bar>d\<bar> div 1000000000); r = sgn d * (\<bar>d\<bar> mod 1000000000)
      in fadd (f64_int q) (fdiv (f64_int r) (f64_int 1000000000)))"

definition refill :: "int \<Rightarrow> rate_limiter \<Rightarrow> rate_limiter" where
  "refill now rl =
     (let elapsed = duration_Seconds (time_Sub now (rl_lastTick rl))
      in if flt (Fin 0) elapsed then
           (let tokens = fadd (rl_tokens rl) (fmul elapsed (rl_refillRate rl))
            in rl\<lparr>rl_tokens := (if flt (rl_capacity rl) tokens then rl_capacity rl else tokens), rl_lastTick := now\<rparr>)
         else rl)"

definition Allow :: "int \<Rightarrow> rate_limiter option \<Rightarrow> rate_limiter option \<times> bool" where
  "Allow now bucket =
     (case bucket of
        None \<Rightarrow> (None, True)
      | Some rl \<Rightarrow>
          (let rl1 = refill now rl
           in if fle (Fin 1) (rl_tokens rl1) then (Some (rl1\<lparr>rl_tokens := fsub (rl_tokens rl1) (Fin 1)\<rparr>), True)
              else (Some rl1, False)))"

section \<open>The hub\<close>

definition SendBufferSize :: nat where
  "SendBufferSize = 256"

definition DefaultMaxMessageSize :: int where
  "DefaultMaxMessageSize = 32 * 2 ^ 20"

record client =
  cl_Pseudonym :: string
  cl_Send :: "bytes list"
  cl_limiter :: "rate_limiter option"
  cl_open :: bool

record hub =
  h_clients :: "(string, nat) gomap"
  h_conns :: "(nat, client) gomap"
  h_auth :: auth_middleware
  h_allowed :: "string list"
  h_allowAny :: bool
  h_maxMessageSize :: int
  h_inboundRate :: f64
  h_inboundBurst :: f64
  h_seqHigh :: "(string, int) gomap"

record hub_options =
  ho_AllowedOrigins :: "string list"
  ho_AllowAnyOrigin :: bool
  ho_MaxMessageSize :: int
  ho_InboundRate :: f64
  ho_InboundBurst :: f64

definition NewHubWithOptions :: "auth_middleware \<Rightarrow> hub_options \<Rightarrow> hub" where
  "NewHubWithOptions auth opts =
     (let maxMsg = (if ho_MaxMessageSize opts \<le> 0 then DefaultMaxMessageSize else ho_MaxMessageSize opts)
      in \<lparr>h_clients = [], h_conns = [], h_auth = auth, h_allowed = ho_AllowedOrigins opts,
          h_allowAny = ho_AllowAnyOrigin opts, h_maxMessageSize = maxMsg, h_inboundRate = ho_InboundRate opts,
          h_inboundBurst = ho_InboundBurst opts, h_seqHigh = []\<rparr>)"

definition NewHub :: "auth_middleware \<Rightarrow> hub" where
  "NewHub auth = NewHubWithOptions auth \<lparr>ho_AllowedOrigins = [], ho_AllowAnyOrigin = True, ho_MaxMessageSize = 0,
     ho_InboundRate = Fin 0, ho_InboundBurst = Fin 0\<rparr>"

definition CheckOrigin :: "hub \<Rightarrow> string \<Rightarrow> bool" where
  "CheckOrigin h origin =
     (if origin = [] then True
      else if h_allowAny h \<and> length (h_allowed h) = 0 then True
      else list_ex (\<lambda>a. a = origin) (h_allowed h))"

definition seq_key :: "string \<Rightarrow> ws_message \<Rightarrow> string" where
  "seq_key pseudonym msg = m_SessionID msg @ ''|'' @ pseudonym @ ''|'' @ m_Type msg"

definition checkAndRecordSeq :: "string \<Rightarrow> ws_message \<Rightarrow> hub \<Rightarrow> hub \<times> bool" where
  "checkAndRecordSeq pseudonym msg h =
     (if m_Seq msg = 0 then (h, True)
      else
        (let key = seq_key pseudonym msg
         in if (case map_of (h_seqHigh h) key of Some high \<Rightarrow> m_Seq msg \<le> high | None \<Rightarrow> False) then (h, False)
            else (h\<lparr>h_seqHigh := AList.update key (m_Seq msg) (h_seqHigh h)\<rparr>, True)))"

datatype ws_result = MissingPseudonym | InvalidAuth | UpgradeFailed | Connected nat

definition fresh_conn :: "hub \<Rightarrow> nat" where
  "fresh_conn h = length (h_conns h)"

text \<open>\<open>upgraded\<close> is the library's verdict on the handshake once the origin has passed.\<close>

definition HandleWS :: "int \<Rightarrow> bool \<Rightarrow> string \<Rightarrow> string \<Rightarrow> string \<Rightarrow> hub \<Rightarrow> hub \<times> ws_result" where
  "HandleWS now upgraded origin pseudonym token h =
     (if pseudonym = [] then (h, MissingPseudonym)
      else if \<not> ValidateToken (h_auth h) pseudonym token then (h, InvalidAuth)
      else if \<not> (CheckOrigin h origin \<and> upgraded) then (h, UpgradeFailed)
      else
        (let c = \<lparr>cl_Pseudonym = pseudonym, cl_Send = [],
                  cl_limiter = newRateLimiter (h_inboundRate h) (h_inboundBurst h) now, cl_open = True\<rparr>;
             i = fresh_conn h
         in (h\<lparr>h_clients := AList.update pseudonym i (h_clients h), h_conns := AList.update i c (h_conns h)\<rparr>, Connected i)))"

section \<open>The pumps\<close>

datatype frame_result = NoSuchConn | Unparsed | Invalid frame_error | Replayed | RateLimited | Dispatch string ws_message

text \<open>One turn of \<open>readPump\<close>: the frame is handed to the message handler only in the last case.\<close>

definition read_frame :: "int \<Rightarrow> nat \<Rightarrow> ws_message option \<Rightarrow> hub \<Rightarrow> hub \<times> frame_result" where
  "read_frame now i frame h =
     (case map_of (h_conns h) i of
        None \<Rightarrow> (h, NoSuchConn)
      | Some c \<Rightarrow>
          (case frame of
             None \<Rightarrow> (h, Unparsed)
           | Some msg \<Rightarrow>
               (case ValidateInboundMessage msg of
                  Some e \<Rightarrow> (h, Invalid e)
                | None \<Rightarrow>
                    (let (h1, fresh) = checkAndRecordSeq (cl_Pseudonym c) msg h
                     in if \<not> fresh then (h1, Replayed)
                        else
                          (let (bucket, ok) = Allow now (cl_limiter c);
                               h2 = h1\<lparr>h_conns := AList.update i (c\<lparr>cl_limiter := bucket\<rparr>) (h_conns h1)\<rparr>
                           in if \<not> ok then (h2, RateLimited) else (h2, Dispatch (cl_Pseudonym c) msg))))))"

text \<open>The deferred part of \<open>readPump\<close>, when reading fails.\<close>

definition close_conn :: "nat \<Rightarrow> hub \<Rightarrow> hub" where
  "close_conn i h =
     (case map_of (h_conns h) i of
        None \<Rightarrow> h
      | Some c \<Rightarrow> h\<lparr>h_clients := AList.delete (cl_Pseudonym c) (h_clients h),
                     h_conns := AList.update i (c\<lparr>cl_open := False\<rparr>) (h_conns h)\<rparr>)"

text \<open>The attempts of \<open>writeWithRetry\<close>, whose outcomes are \<open>w\<close>; the result is the last error and the pauses
  in milliseconds.\<close>

fun write_attempts :: "(nat \<Rightarrow> string option) \<Rightarrow> nat \<Rightarrow> nat \<Rightarrow> int \<Rightarrow> string option \<Rightarrow> string option \<times> int list" where
  "write_attempts w attempt 0 backoff lastErr = (lastErr, [])"
| "write_attempts w attempt (Suc n) backoff lastErr =
     (case w attempt of
        None \<Rightarrow> (None, [])
      | Some e \<Rightarrow>
          if attempt < 2
          then (let (err, pauses) = write_attempts w (attempt + 1) n (backoff * 2) (Some e) in (err, backoff # pauses))
          else write_attempts w (attempt + 1) n backoff (Some e))"

definition writeWithRetry :: "(nat \<Rightarrow> string option) \<Rightarrow> string option \<times> int list" where
  "writeWithRetry w = write_attempts w 0 3 200 None"

text \<open>One turn of \<open>writePump\<close> on the queue: the oldest message is taken and written, and the connection is
  closed when the retries fail.\<close>

definition write_next :: "(nat \<Rightarrow> string option) \<Rightarrow> nat \<Rightarrow> hub \<Rightarrow> hub \<times> bytes option" where
  "write_next w i h =
     (case map_of (h_conns h) i of
        None \<Rightarrow> (h, None)
      | Some c \<Rightarrow>
          (case cl_Send c of
             [] \<Rightarrow> (h, None)
           | data # rest \<Rightarrow>
               (let err = fst (writeWithRetry w);
                    c' = c\<lparr>cl_Send := rest, cl_open := cl_open c \<and> err = None\<rparr>
                in (h\<lparr>h_conns := AList.update i c' (h_conns h)\<rparr>, if err = None then Some data else None))))"

section \<open>Sending\<close>

definition enqueue :: "bytes \<Rightarrow> nat \<Rightarrow> hub \<Rightarrow> hub" where
  "enqueue data i h =
     (case map_of (h_conns h) i of
        None \<Rightarrow> h
      | Some c \<Rightarrow> if length (cl_Send c) < SendBufferSize
                  then h\<lparr>h_conns := AList.update i (c\<lparr>cl_Send := cl_Send c @ [data]\<rparr>) (h_conns h)\<rparr> else h)"

definition SendTo :: "(ws_message \<Rightarrow> string + bytes) \<Rightarrow> string \<Rightarrow> string \<Rightarrow> ws_message \<Rightarrow> hub \<Rightarrow> hub \<times> string option" where
  "SendTo enc ts pseudonym msg h =
     (case enc (msg\<lparr>m_Timestamp := ts\<rparr>) of
        Inl err \<Rightarrow> (h, Some err)
      | Inr data \<Rightarrow>
          (case map_of (h_clients h) pseudonym of
             None \<Rightarrow> (h, None)
           | Some i \<Rightarrow> (enqueue data i h, None)))"

text \<open>A broadcast ignores an encoding error and sends the empty frame it has.\<close>

definition enc_or_empty :: "(ws_message \<Rightarrow> string + bytes) \<Rightarrow> ws_message \<Rightarrow> bytes" where
  "enc_or_empty enc msg = (case enc msg of Inl err \<Rightarrow> [] | Inr data \<Rightarrow> data)"

definition Broadcast :: "(ws_message \<Rightarrow> string + bytes) \<Rightarrow> string \<Rightarrow> ws_message \<Rightarrow> hub \<Rightarrow> hub" where
  "Broadcast enc ts msg h =
     (let data = enc_or_empty enc (msg\<lparr>m_Timestamp := ts\<rparr>) in fold (\<lambda>(p, i). enqueue data i) (h_clients h) h)"

definition BroadcastToSession ::
  "(ws_message \<Rightarrow> string + bytes) \<Rightarrow> string \<Rightarrow> string \<Rightarrow> string list \<Rightarrow> ws_message \<Rightarrow> hub \<Rightarrow> hub" where
  "BroadcastToSession enc ts sid pseudonyms msg h =
     (let data = enc_or_empty enc (msg\<lparr>m_Timestamp := ts, m_SessionID := sid\<rparr>)
      in fold (\<lambda>p g. case map_of (h_clients h) p of Some i \<Rightarrow> enqueue data i g | None \<Rightarrow> g) pseudonyms h)"

definition IsConnected :: "hub \<Rightarrow> string \<Rightarrow> bool" where
  "IsConnected h pseudonym \<longleftrightarrow> map_of (h_clients h) pseudonym \<noteq> None"

definition ConnectedCount :: "hub \<Rightarrow> int" where
  "ConnectedCount h = int (length (h_clients h))"

definition shortID :: "string \<Rightarrow> string" where
  "shortID s = (if length s > 12 then take 12 s else s)"

end
