(* ===== verification/Artifacts.thy ===== *)
theory Artifacts
  imports Sha256 Codec
begin

text \<open>
  The artifact store (pkg/ares/transport/artifacts.go) and the per-session event ring
  (pkg/ares/transport/events.go). A time is a number of nanoseconds; the operations that read the clock
  take the time as their argument. Every method holds the lock of its object, so it is one step.
\<close>

section \<open>Artifacts\<close>

record artifact_entry =
  ae_data :: bytes
  ae_expires :: int

record artifact_store =
  st_entries :: "(string, artifact_entry) gomap"
  st_ttl :: int

datatype artifact_error = ArtifactNotFound string | HandleNotFound bytes | ErrCorrupted

definition NewArtifactStoreWithTTL :: "int \<Rightarrow> artifact_store" where
  "NewArtifactStoreWithTTL ttl = \<lparr>st_entries = [], st_ttl = ttl\<rparr>"

definition NewArtifactStore :: artifact_store where
  "NewArtifactStore = NewArtifactStoreWithTTL (30 * 60 * 1000000000)"

definition art_Put :: "int \<Rightarrow> string \<Rightarrow> bytes \<Rightarrow> artifact_store \<Rightarrow> artifact_store" where
  "art_Put now key data s =
     s\<lparr>st_entries := AList.update key \<lparr>ae_data = data, ae_expires = now + st_ttl s\<rparr> (st_entries s)\<rparr>"

definition art_Get :: "int \<Rightarrow> string \<Rightarrow> artifact_store \<Rightarrow> bytes option" where
  "art_Get now key s =
     (case map_of (st_entries s) key of
        None \<Rightarrow> None
      | Some e \<Rightarrow> if ae_expires e < now then None else Some (ae_data e))"

definition art_Delete :: "string \<Rightarrow> artifact_store \<Rightarrow> artifact_store" where
  "art_Delete key s = s\<lparr>st_entries := AList.delete key (st_entries s)\<rparr>"

text \<open>The loop of \<open>Sweep\<close> over the entries the map had when it started.\<close>

fun sweep_entries ::
  "int \<Rightarrow> (string \<times> artifact_entry) list \<Rightarrow> (string, artifact_entry) gomap \<Rightarrow> int \<Rightarrow> (string, artifact_entry) gomap \<times> int" where
  "sweep_entries now [] m purged = (m, purged)"
| "sweep_entries now ((k, e) # es) m purged =
     (if ae_expires e < now then sweep_entries now es (AList.delete k m) (purged + 1) else sweep_entries now es m purged)"

definition Sweep :: "int \<Rightarrow> artifact_store \<Rightarrow> artifact_store \<times> int" where
  "Sweep now s = (let (m, n) = sweep_entries now (st_entries s) (st_entries s) 0 in (s\<lparr>st_entries := m\<rparr>, n))"

definition Resolve :: "int \<Rightarrow> string \<Rightarrow> artifact_store \<Rightarrow> artifact_error + bytes" where
  "Resolve now key s = (case art_Get now key s of Some d \<Rightarrow> Inr d | None \<Rightarrow> Inl (ArtifactNotFound key))"

definition ContentKey :: "bytes \<Rightarrow> string" where
  "ContentKey handle = ''content:'' @ hex_encode handle"

definition PutContent :: "int \<Rightarrow> bytes \<Rightarrow> artifact_store \<Rightarrow> artifact_store \<times> bytes" where
  "PutContent now data s = (let handle = sha256 data in (art_Put now (ContentKey handle) data s, handle))"

definition GetContent :: "int \<Rightarrow> bytes \<Rightarrow> artifact_store \<Rightarrow> artifact_error + bytes" where
  "GetContent now handle s =
     (case art_Get now (ContentKey handle) s of
        None \<Rightarrow> Inl (HandleNotFound handle)
      | Some data \<Rightarrow> if sha256 data \<noteq> handle then Inl ErrCorrupted else Inr data)"

section \<open>Events\<close>

record session_event =
  ev_Time :: int
  ev_SessionID :: string
  ev_Type :: string
  ev_From :: string
  ev_Error :: string

record event_ring =
  er_cap :: int
  er_ring :: "(string, session_event list) gomap"

definition NewSessionEventRing :: "int \<Rightarrow> event_ring" where
  "NewSessionEventRing cap = \<lparr>er_cap = (if cap \<le> 0 then 128 else cap), er_ring = []\<rparr>"

definition ring_events :: "event_ring \<Rightarrow> string \<Rightarrow> session_event list" where
  "ring_events r sid = (case map_of (er_ring r) sid of Some es \<Rightarrow> es | None \<Rightarrow> [])"

text \<open>A nil ring records nothing.\<close>

definition Record :: "int \<Rightarrow> string \<Rightarrow> string \<Rightarrow> string \<Rightarrow> string \<Rightarrow> event_ring option \<Rightarrow> event_ring option" where
  "Record now sid msgType from errStr ring =
     (case ring of
        None \<Rightarrow> None
      | Some r \<Rightarrow>
          (let ev = \<lparr>ev_Time = now, ev_SessionID = sid, ev_Type = msgType, ev_From = from, ev_Error = errStr\<rparr>;
               events = ring_events r sid;
               events1 = (if er_cap r \<le> int (length events) \<and> 0 < er_cap r then tl events else events)
           in Some (r\<lparr>er_ring := AList.update sid (events1 @ [ev]) (er_ring r)\<rparr>)))"

definition Events :: "event_ring option \<Rightarrow> string \<Rightarrow> session_event list option" where
  "Events ring sid = (case ring of None \<Rightarrow> None | Some r \<Rightarrow> map_of (er_ring r) sid)"

definition Prune :: "(string \<Rightarrow> bool) \<Rightarrow> event_ring option \<Rightarrow> event_ring option" where
  "Prune active ring =
     (case ring of None \<Rightarrow> None
      | Some r \<Rightarrow> Some (r\<lparr>er_ring := filter (\<lambda>(sid, es). active sid) (er_ring r)\<rparr>))"

section \<open>Lemmas\<close>

lemma art_Get_Put:
  "art_Get now' k (art_Put now key data s) =
     (if k = key then (if now + st_ttl s < now' then None else Some data) else art_Get now' k s)"
  by (simp add: art_Get_def art_Put_def gomap_simps)

lemma sweep_map_of:
  "map_of (fst (sweep_entries now es m n)) k = (if \<exists>e. (k, e) \<in> set es \<and> ae_expires e < now then None else map_of m k)"
  by (induction now es m n rule: sweep_entries.induct) (auto simp: gomap_simps)

lemma sweep_count: "snd (sweep_entries now es m n) = n + int (length (filter (\<lambda>(k, e). ae_expires e < now) es))"
  by (induction now es m n rule: sweep_entries.induct) auto

lemma Sweep_get:
  assumes "gomap_wf (st_entries s)" "now \<le> now'"
  shows "art_Get now' k (fst (Sweep now s)) = art_Get now' k s"
proof -
  have m: "map_of (fst (sweep_entries now (st_entries s) (st_entries s) 0)) k =
      (case map_of (st_entries s) k of Some e \<Rightarrow> if ae_expires e < now then None else Some e | None \<Rightarrow> None)"
    using assms(1) by (auto simp: sweep_map_of split: option.split dest: map_of_SomeD map_of_is_SomeI eq_key_imp_eq_value)
  show ?thesis using assms(2) m
    by (auto simp: Sweep_def art_Get_def case_prod_beta split: option.split)
qed

lemma ring_events_Record:
  "Record now sid ty from err (Some r) = Some r' \<Longrightarrow>
     er_cap r' = er_cap r \<and>
     ring_events r' x = (if x = sid
       then (if er_cap r \<le> int (length (ring_events r sid)) \<and> 0 < er_cap r then tl (ring_events r sid) else ring_events r sid)
            @ [\<lparr>ev_Time = now, ev_SessionID = sid, ev_Type = ty, ev_From = from, ev_Error = err\<rparr>]
       else ring_events r x)"
  by (auto simp: Record_def Let_def ring_events_def gomap_simps split: option.split)

section \<open>Runs\<close>

definition record_all :: "session_event list \<Rightarrow> event_ring option \<Rightarrow> event_ring option" where
  "record_all evs ring = fold (\<lambda>e. Record (ev_Time e) (ev_SessionID e) (ev_Type e) (ev_From e) (ev_Error e)) evs ring"

lemma record_all_ring:
  assumes "0 < er_cap r0" "er_ring r0 = []"
  shows "\<exists>r. record_all evs (Some r0) = Some r \<and> er_cap r = er_cap r0 \<and>
    (\<forall>sid. ring_events r sid = (let l = filter (\<lambda>e. ev_SessionID e = sid) evs in drop (length l - nat (er_cap r0)) l))"
proof (induction evs rule: rev_induct)
  case Nil
  then show ?case using assms(2) by (simp add: record_all_def ring_events_def Let_def)
next
  case (snoc e evs)
  then obtain r where r: "record_all evs (Some r0) = Some r" "er_cap r = er_cap r0"
    "\<And>sid. ring_events r sid = (let l = filter (\<lambda>e. ev_SessionID e = sid) evs in drop (length l - nat (er_cap r0)) l)" by blast
  obtain r' where r': "Record (ev_Time e) (ev_SessionID e) (ev_Type e) (ev_From e) (ev_Error e) (Some r) = Some r'"
    by (simp add: Record_def Let_def)
  have "ring_events r' sid = (let l = filter (\<lambda>e. ev_SessionID e = sid) (evs @ [e]) in drop (length l - nat (er_cap r0)) l)" for sid
  proof (cases "sid = ev_SessionID e")
    case True
    let ?l = "filter (\<lambda>e'. ev_SessionID e' = ev_SessionID e) evs"
    have "drop (length (?l @ [e]) - nat (er_cap r0)) (?l @ [e]) =
        (if nat (er_cap r0) \<le> length (ring_events r sid) then tl (ring_events r sid) else ring_events r sid) @ [e]"
      using last_n_snoc [of "nat (er_cap r0)" ?l e] assms(1) by (simp add: r(3) Let_def True)
    then show ?thesis using ring_events_Record [OF r', of sid] assms(1) r(2) True
      by (simp add: nat_le_iff)
  next
    case False
    then show ?thesis using ring_events_Record [OF r', of sid] r(3) [of sid] by simp
  qed
  moreover have "er_cap r' = er_cap r0" using ring_events_Record [OF r'] r(2) by simp
  ultimately show ?case using r(1) r' by (simp add: record_all_def)
qed

section \<open>Properties\<close>

text \<open>C24. Content addressing: what \<open>PutContent\<close> stores is returned by \<open>GetContent\<close> until it expires,
  whatever has been swept in between; and whatever the store holds, the bytes \<open>GetContent\<close> returns hash
  to the handle it was asked for.\<close>

theorem artifact_content:
  assumes "gomap_wf (st_entries s)" "PutContent now data s = (s', handle)" "now \<le> t" "t \<le> t'" "t' \<le> now + st_ttl s"
  shows "GetContent t' handle (fst (Sweep t s')) = Inr data
    \<and> (\<forall>u h d. GetContent t' h u = Inr d \<longrightarrow> sha256 d = h)"
proof -
  have h: "handle = sha256 data" and s': "s' = art_Put now (ContentKey handle) data s"
    using assms(2) by (auto simp: PutContent_def Let_def)
  have "gomap_wf (st_entries s')" using assms(1) by (simp add: s' art_Put_def distinct_update)
  then have "art_Get t' (ContentKey handle) (fst (Sweep t s')) = art_Get t' (ContentKey handle) s'"
    using assms(4) by (rule Sweep_get)
  also have "\<dots> = Some data" using assms(5) by (simp add: s' art_Get_Put)
  finally have "GetContent t' handle (fst (Sweep t s')) = Inr data" by (simp add: GetContent_def h)
  then show ?thesis by (auto simp: GetContent_def split: option.splits if_splits)
qed

theorem artifact_content_witness:
  "GetContent 7 (sha256 ''eval key'') (fst (Sweep 6 (fst (PutContent 5 ''eval key'' NewArtifactStore)))) = Inr ''eval key''"
proof -
  have "gomap_wf (st_entries NewArtifactStore)" "PutContent 5 ''eval key'' NewArtifactStore
      = (fst (PutContent 5 ''eval key'' NewArtifactStore), sha256 ''eval key'')"
    by (simp_all add: NewArtifactStore_def NewArtifactStoreWithTTL_def PutContent_def Let_def)
  from artifact_content [OF this, of 6 7] show ?thesis by (simp add: NewArtifactStore_def NewArtifactStoreWithTTL_def)
qed

text \<open>The event ring keeps, for each session, exactly its most recent events in order: never more than
  the capacity, which is 128 when the one asked for is not positive.\<close>

theorem event_ring_recent:
  "\<exists>r. record_all evs (Some (NewSessionEventRing cap)) = Some r \<and>
     (let n = nat (if cap \<le> 0 then 128 else cap); l = filter (\<lambda>e. ev_SessionID e = sid) evs
      in ring_events r sid = drop (length l - n) l \<and> length (ring_events r sid) = min n (length l))"
  using record_all_ring [of "NewSessionEventRing cap" evs]
  by (auto simp: NewSessionEventRing_def Let_def min_def)

end
