(* ===== verification/Service.thy ===== *)
theory Service
  imports Runner_Steps Hub Artifacts
begin

text \<open>
  The service that puts the hub, the session runner, the artifact store and the event ring behind one
  HTTP server (pkg/ares/transport/service.go), its admin endpoints (admin.go), the manual session trigger
  (trigger.go) and the runner's key export (phase/runner.go, \<open>SessionContextKeys\<close>).

  The state of a running service is one record. A request carries what the HTTP library has decoded: the
  path value, the query, the body or the error of reading it. A response is its status and its body; the JSON
  text of a body is not modelled. \<open>etext\<close> is the text of an error, \<open>jenc\<close> the JSON text of a map. The
  result \<open>None\<close> of the dispatcher is a panic.
\<close>

section \<open>Assembly\<close>

text \<open>The clock is an argument of the operations that read it, the default trigger is \<open>Start\<close> below, the
  post-dispatch hook is an argument of \<open>dispatch\<close>, and the log stream has its own theory.\<close>

record 's config =
  cf_Addr :: string
  cf_ServiceName :: string
  cf_Secret :: bytes
  cf_AllowDevBypass :: bool
  cf_Runner :: "'s runner option"
  cf_InviteType :: string
  cf_EventRing :: "event_ring option"
  cf_AllowedOrigins :: "string list"
  cf_MaxWSMessageSize :: int
  cf_MaxArtifactSize :: int

record 's service =
  sv_ServiceName :: string
  sv_runner :: "'s runner"
  sv_hub :: hub
  sv_artifacts :: artifact_store
  sv_ring :: "event_ring option"
  sv_InviteType :: string
  sv_startedCount :: int
  sv_MaxArtifactSize :: int

datatype config_error = AddrRequired | RunnerRequired | SecretRequired | BypassInProduction

definition NewService :: "string \<Rightarrow> 's config \<Rightarrow> config_error + 's service" where
  "NewService ares_env cfg =
     (if cf_Addr cfg = [] then Inl AddrRequired
      else (case cf_Runner cfg of
              None \<Rightarrow> Inl RunnerRequired
            | Some r \<Rightarrow>
                if length (cf_Secret cfg) = 0 \<and> \<not> cf_AllowDevBypass cfg then Inl SecretRequired
                else if cf_AllowDevBypass cfg \<and> ares_env = ''production'' then Inl BypassInProduction
                else
                  (let ring = (case cf_EventRing cfg of Some x \<Rightarrow> x | None \<Rightarrow> NewSessionEventRing 128);
                       auth = \<lparr>am_Secret = cf_Secret cfg, am_AllowDevBypass = cf_AllowDevBypass cfg\<rparr>;
                       h = NewHubWithOptions auth
                             \<lparr>ho_AllowedOrigins = cf_AllowedOrigins cfg,
                              ho_AllowAnyOrigin = (length (cf_AllowedOrigins cfg) = 0 \<and> cf_AllowDevBypass cfg),
                              ho_MaxMessageSize = cf_MaxWSMessageSize cfg, ho_InboundRate = Fin 0, ho_InboundBurst = Fin 0\<rparr>
                   in Inr \<lparr>sv_ServiceName = cf_ServiceName cfg, sv_runner = r, sv_hub = h, sv_artifacts = NewArtifactStore,
                           sv_ring = Some ring, sv_InviteType = cf_InviteType cfg, sv_startedCount = 0,
                           sv_MaxArtifactSize = cf_MaxArtifactSize cfg\<rparr>)))"

section \<open>Dispatch\<close>

text \<open>The handler \<open>NewService\<close> installs on the hub, with the application's hook after it.\<close>

definition dispatch ::
  "'s store_ops \<Rightarrow> int \<Rightarrow> (rerror \<Rightarrow> string) \<Rightarrow> (string \<Rightarrow> ws_message \<Rightarrow> rerror option \<Rightarrow> 's service \<Rightarrow> 's service) option \<Rightarrow>
   string \<Rightarrow> ws_message \<Rightarrow> 's service \<Rightarrow> 's service option" where
  "dispatch ops now etext postHook pseudonym msg svc =
     (if m_SessionID msg = [] then Some svc
      else
        (case (if m_Lineage msg \<noteq> None
               then HandleLineageMessage ops now (m_SessionID msg) (m_Type msg) pseudonym (m_Payload msg) (m_Lineage msg) (sv_runner svc)
               else HandleMessage ops now (m_SessionID msg) (m_Type msg) pseudonym (m_Payload msg) (sv_runner svc)) of
           None \<Rightarrow> None
         | Some (r, moved, err) \<Rightarrow>
             (let errStr = (case err of None \<Rightarrow> [] | Some e \<Rightarrow> etext e);
                  svc1 = svc\<lparr>sv_runner := r,
                             sv_ring := (case sv_ring svc of None \<Rightarrow> None
                               | Some x \<Rightarrow> Record now (m_SessionID msg) (m_Type msg) pseudonym errStr (Some x))\<rparr>
              in Some (case postHook of None \<Rightarrow> svc1 | Some hook \<Rightarrow> hook pseudonym msg err svc1))))"

text \<open>A frame on connection \<open>i\<close>, from the socket to the phase.\<close>

definition receive ::
  "'s store_ops \<Rightarrow> int \<Rightarrow> (rerror \<Rightarrow> string) \<Rightarrow> (string \<Rightarrow> ws_message \<Rightarrow> rerror option \<Rightarrow> 's service \<Rightarrow> 's service) option \<Rightarrow>
   nat \<Rightarrow> ws_message option \<Rightarrow> 's service \<Rightarrow> 's service option" where
  "receive ops now etext postHook i frame svc =
     (let (h, res) = read_frame now i frame (sv_hub svc); svc1 = svc\<lparr>sv_hub := h\<rparr>
      in case res of Dispatch pseudonym msg \<Rightarrow> dispatch ops now etext postHook pseudonym msg svc1 | _ \<Rightarrow> Some svc1)"

section \<open>Starting sessions\<close>

datatype trigger_error = NoParticipants | BeginFailed string rerror

definition zero_message :: ws_message where
  "zero_message = \<lparr>m_Version = [], m_Type = [], m_SessionID = [], m_Seq = 0, m_Payload = [], m_Timestamp = [], m_Lineage = None\<rparr>"

text \<open>The context the runner returned is the session's own: setting its keys changes the session.\<close>

definition seed_attrs :: "string \<Rightarrow> (string, anyv) gomap \<Rightarrow> 's runner \<Rightarrow> 's runner" where
  "seed_attrs sid attrs r =
     (case map_of (r_sessions r) sid of
        None \<Rightarrow> r
      | Some t \<Rightarrow> put_session sid (r_store r) (t\<lparr>t_ctx := fold (\<lambda>(k, v). ctx_Set k v) attrs (t_ctx t)\<rparr>) r)"

definition Start ::
  "(ws_message \<Rightarrow> string + bytes) \<Rightarrow> string \<Rightarrow> string \<Rightarrow> string list \<Rightarrow> (string, anyv) gomap \<Rightarrow> 's service \<Rightarrow>
   's service \<times> trigger_error option" where
  "Start enc ts sid participants attrs svc =
     (if length participants = 0 then (svc, Some NoParticipants)
      else
        (let svc1 = svc\<lparr>sv_startedCount := sv_startedCount svc + 1\<rparr>;
             (r, res) = BeginSession sid [] (sv_runner svc1);
             svc2 = svc1\<lparr>sv_runner := r\<rparr>
         in case res of
              Inl e \<Rightarrow> (svc2, Some (BeginFailed sid e))
            | Inr ctx \<Rightarrow>
                (let svc3 = svc2\<lparr>sv_runner := seed_attrs sid attrs r\<rparr>
                 in (if sv_InviteType svc3 \<noteq> []
                     then svc3\<lparr>sv_hub := BroadcastToSession enc ts sid participants
                            (zero_message\<lparr>m_Type := sv_InviteType svc3\<rparr>) (sv_hub svc3)\<rparr>
                     else svc3, None))))"

definition StartedCount :: "'s service \<Rightarrow> int" where
  "StartedCount svc = sv_startedCount svc"

section \<open>Admin endpoints\<close>

datatype body =
    NoBody
  | ErrorText string
  | Health string string
  | Stats string int
  | SessionState string string
  | Results string "(string, string) gomap"
  | EventList string "session_event list"
  | Blob bytes

type_synonym response = "nat \<times> body"

definition handleHealth :: "'s service \<Rightarrow> response" where
  "handleHealth svc = (200, Health ''ok'' (sv_ServiceName svc))"

definition handleStats :: "'s service \<Rightarrow> response" where
  "handleStats svc = (200, Stats (sv_ServiceName svc) (ConnectedCount (sv_hub svc)))"

record start_request =
  sq_SessionID :: string
  sq_Participants :: "string list"
  sq_Attrs :: "(string, anyv) gomap"

definition handleSessionStart ::
  "(ws_message \<Rightarrow> string + bytes) \<Rightarrow> string \<Rightarrow> (trigger_error \<Rightarrow> string) \<Rightarrow> string + start_request \<Rightarrow> 's service \<Rightarrow> 's service \<times> response" where
  "handleSessionStart enc ts ttext req svc =
     (case req of
        Inl e \<Rightarrow> (svc, 400, ErrorText (''invalid json: '' @ e))
      | Inr q \<Rightarrow>
          if sq_SessionID q = [] then (svc, 400, ErrorText ''session_id is required'')
          else
            (let (svc1, err) = Start enc ts (sq_SessionID q) (sq_Participants q) (sq_Attrs q) svc
             in case err of
                  Some e \<Rightarrow> (svc1, 409, ErrorText (ttext e))
                | None \<Rightarrow> (svc1, 201, SessionState (sq_SessionID q) (fst (CurrentState (sv_runner svc1) (sq_SessionID q))))))"

definition handleSessionGet :: "string \<Rightarrow> 's service \<Rightarrow> response" where
  "handleSessionGet sid svc =
     (case CurrentState (sv_runner svc) sid of
        (state, ok) \<Rightarrow> if \<not> ok then (404, ErrorText ''session not found'') else (200, SessionState sid state))"

definition context_text ::
  "(f64 \<Rightarrow> string) \<Rightarrow> ((string \<times> anyv) list \<Rightarrow> string option) \<Rightarrow> anyv \<Rightarrow> string option" where
  "context_text ff jenc v =
     (case v of
        VBytes b \<Rightarrow> Some (hex_encode b)
      | VString s \<Rightarrow> Some s
      | VMap m \<Rightarrow> jenc m
      | _ \<Rightarrow> Some (sprint_v ff v))"

fun context_keys ::
  "(f64 \<Rightarrow> string) \<Rightarrow> ((string \<times> anyv) list \<Rightarrow> string option) \<Rightarrow> 's sctx \<Rightarrow> string list \<Rightarrow> (string, string) gomap \<Rightarrow>
   (string, string) gomap" where
  "context_keys ff jenc c [] out = out"
| "context_keys ff jenc c (k # ks) out =
     context_keys ff jenc c ks
       (case Option.bind (ctx_Get c k) (context_text ff jenc) of None \<Rightarrow> out | Some t \<Rightarrow> AList.update k t out)"

definition SessionContextKeys ::
  "(f64 \<Rightarrow> string) \<Rightarrow> ((string \<times> anyv) list \<Rightarrow> string option) \<Rightarrow> 's runner \<Rightarrow> string \<Rightarrow> string list \<Rightarrow> (string, string) gomap" where
  "SessionContextKeys ff jenc r sid names =
     (case session_context r sid of None \<Rightarrow> [] | Some c \<Rightarrow> context_keys ff jenc c names [])"

definition handleSessionResults ::
  "(f64 \<Rightarrow> string) \<Rightarrow> ((string \<times> anyv) list \<Rightarrow> string option) \<Rightarrow> string \<Rightarrow> string \<Rightarrow> 's service \<Rightarrow> response" where
  "handleSessionResults ff jenc sid query svc =
     (if \<not> snd (CurrentState (sv_runner svc) sid) then (404, ErrorText ''session not found'')
      else
        (let names = split_on (CHR '','') query
         in if length names = 0 \<or> (length names = 1 \<and> names ! 0 = [])
            then (400, ErrorText ''?keys= is required (comma-separated context key names)'')
            else (200, Results sid (SessionContextKeys ff jenc (sv_runner svc) sid names))))"

definition handleSessionEvents :: "string \<Rightarrow> 's service \<Rightarrow> response" where
  "handleSessionEvents sid svc =
     (if \<not> snd (CurrentState (sv_runner svc) sid) then (404, ErrorText ''session not found'')
      else (200, EventList sid (case Events (sv_ring svc) sid of None \<Rightarrow> [] | Some es \<Rightarrow> es)))"

definition DefaultMaxArtifactSize :: int where
  "DefaultMaxArtifactSize = 64 * 2 ^ 20"

text \<open>Reading a body through \<open>http.MaxBytesReader\<close> fails as soon as it exceeds the limit.\<close>

definition handleArtifactPut :: "int \<Rightarrow> string \<Rightarrow> string + bytes \<Rightarrow> 's service \<Rightarrow> 's service \<times> response" where
  "handleArtifactPut now key rbody svc =
     (if key = [] then (svc, 400, ErrorText ''missing key'')
      else
        (let limit = (if sv_MaxArtifactSize svc = 0 then DefaultMaxArtifactSize else sv_MaxArtifactSize svc)
         in case rbody of
              Inl e \<Rightarrow> (svc, 400, ErrorText (''read body: '' @ e))
            | Inr buf \<Rightarrow>
                if limit > 0 \<and> int (length buf) > limit then (svc, 413, ErrorText ''artifact exceeds size limit'')
                else (svc\<lparr>sv_artifacts := art_Put now key buf (sv_artifacts svc)\<rparr>, 204, NoBody)))"

definition handleArtifactGet :: "int \<Rightarrow> string \<Rightarrow> 's service \<Rightarrow> response" where
  "handleArtifactGet now key svc =
     (case art_Get now key (sv_artifacts svc) of None \<Rightarrow> (404, ErrorText ''artifact not found'') | Some d \<Rightarrow> (200, Blob d))"

text \<open>The sweep of \<open>Run\<close>, every five minutes.\<close>

definition run_sweep :: "int \<Rightarrow> 's service \<Rightarrow> 's service" where
  "run_sweep now svc = svc\<lparr>sv_artifacts := fst (Sweep now (sv_artifacts svc))\<rparr>"

end
