(* ===== verification/Hub_Props.thy ===== *)
theory Hub_Props
  imports Hub
begin

text \<open>
  Properties of the hub: the rate limiter keeps its tokens between zero and the burst and lets a burst of
  exactly that size pass, accepted sequence numbers grow, queues are bounded, and what happens to a
  registration when an older connection of the same pseudonym closes.
\<close>

section \<open>The token bucket\<close>

lemma rnd_pred:
  assumes "rnd t = t" "1 \<le> t" "t \<le> 2 ^ 53"
  shows "rnd (t - 1) = t - 1"
proof (cases "t = 2 ^ 53")
  case True
  then have "t - 1 = of_int (2 ^ 53 - 1)" by simp
  then show ?thesis using rnd_int [of "2 ^ 53 - 1"] by simp
next
  case False
  define q where "q = qexp t"
  have "t < 2 powi 53" using False assms(3) by simp
  then have q: "- 1074 \<le> q" "q \<le> 0" using ilog2_less [of t 53] assms(2) by (simp_all add: q_def qexp_def)
  obtain n where n: "t = of_int n * 2 powi q" using assms(1,2) unfolding rnd_def q_def by (metis not_one_le_zero)
  have one: "(1::rat) = of_int (2 ^ nat (- q)) * 2 powi q"
    using powi2_int [of "- q"] q(2) powi2_add [of "- q" q] by simp
  have e: "t - 1 = of_int (n - 2 ^ nat (- q)) * 2 powi q"
    unfolding of_int_diff left_diff_distrib n [symmetric] one [symmetric] ..
  have "t < 2 powi (ilog2 t + 1)" using ilog2_bounds [of t] assms(2) by simp
  also have "\<dots> \<le> 2 powi (q + 53)" by (simp only: powi2_le_iff) (use assms(2) in \<open>simp add: q_def qexp_def\<close>)
  finally have "t - 1 < 2 ^ 53 * 2 powi q" by (simp add: powi2_add)
  then have "of_int (n - 2 ^ nat (- q)) < (of_int (2 ^ 53) :: rat)" unfolding e by simp
  moreover have "0 \<le> (of_int (n - 2 ^ nat (- q)) :: rat)"
    using assms(2) e by (metis diff_ge_0_iff_ge powi2_pos zero_le_mult_iff less_le_not_le)
  ultimately have "\<bar>n - 2 ^ nat (- q)\<bar> \<le> 2 ^ 53" by (simp only: of_int_less_iff of_int_0_le_iff)
  then show ?thesis unfolding e using q(1) by (rule rnd_exact)
qed

definition bucket_ok :: "rat \<Rightarrow> rate_limiter \<Rightarrow> bool" where
  "bucket_ok cap rl \<longleftrightarrow> rl_capacity rl = Fin cap \<and> rnd cap = cap \<and> fits cap
     \<and> (\<exists>r. rl_refillRate rl = Fin r \<and> 0 < r) \<and> (\<exists>t. rl_tokens rl = Fin t \<and> rnd t = t \<and> 0 \<le> t \<and> t \<le> cap)"

lemma fmul_pos: "0 < a \<Longrightarrow> 0 < b \<Longrightarrow> fmul (Fin a) (Fin b) = PInf \<or> (\<exists>m. fmul (Fin a) (Fin b) = Fin m \<and> 0 \<le> m)"
  using rnd_nonneg [of "a * b"] by (auto simp: f64_of_rat_def Let_def)

lemma fadd_pos:
  assumes "0 \<le> t" "rnd t = t" "0 \<le> m"
  shows "fadd (Fin t) (Fin m) = PInf \<or> (\<exists>y. fadd (Fin t) (Fin m) = Fin y \<and> rnd y = y \<and> t \<le> y)"
proof -
  have "t \<le> rnd (t + m)" using rnd_mono [of t "t + m"] assms by simp
  moreover have "fits (rnd (t + m)) \<or> 0 < rnd (t + m)" using calculation assms(1) fits_0 by (metis antisym_conv3 leD order_trans)
  ultimately show ?thesis by (auto simp: f64_of_rat_def Let_def)
qed

lemma elapsed_cases: "flt (Fin 0) e \<Longrightarrow> e = PInf \<or> (\<exists>x. e = Fin x \<and> 0 < x)"
  by (cases e) auto

lemma fmul_elapsed:
  assumes "flt (Fin 0) e" "0 < r"
  shows "fmul e (Fin r) = PInf \<or> (\<exists>m. fmul e (Fin r) = Fin m \<and> 0 \<le> m)"
proof (cases "e = PInf")
  case True
  then show ?thesis using assms(2) by (simp add: finf_def)
next
  case False
  then obtain x where "e = Fin x" "0 < x" using elapsed_cases [OF assms(1)] by blast
  then show ?thesis using fmul_pos [OF _ assms(2)] by blast
qed

lemma refill_ok:
  assumes "bucket_ok cap rl"
  shows "bucket_ok cap (refill now rl)"
proof -
  obtain r t where r: "rl_refillRate rl = Fin r" "0 < r" and t: "rl_tokens rl = Fin t" "rnd t = t" "0 \<le> t" "t \<le> cap"
    and c: "rl_capacity rl = Fin cap" "rnd cap = cap" "fits cap" using assms by (auto simp: bucket_ok_def)
  let ?e = "duration_Seconds (time_Sub now (rl_lastTick rl))"
  have cap: "0 \<le> cap" using t by simp
  have new: "fadd (Fin t) (fmul ?e (Fin r)) = PInf
      \<or> (\<exists>y. fadd (Fin t) (fmul ?e (Fin r)) = Fin y \<and> rnd y = y \<and> t \<le> y)" if pos: "flt (Fin 0) ?e"
  proof -
    consider "fmul ?e (Fin r) = PInf" | m where "fmul ?e (Fin r) = Fin m" "0 \<le> m"
      using fmul_elapsed [OF pos r(2)] by blast
    then show ?thesis by cases (use fadd_pos [OF t(3,2)] in auto)
  qed
  show ?thesis
  proof (cases "flt (Fin 0) ?e")
    case True
    from new [OF this] show ?thesis using t r c cap True
      by (auto simp: refill_def Let_def bucket_ok_def not_less)
  next
    case False
    then show ?thesis using assms by (simp add: refill_def Let_def)
  qed
qed

lemma take_token_ok:
  assumes "rnd t = t" "1 \<le> t" "t \<le> cap" "fits cap"
  shows "\<exists>y. fsub (Fin t) (Fin 1) = Fin y \<and> rnd y = y \<and> 0 \<le> y \<and> y \<le> t"
proof -
  have y: "0 \<le> rnd (t - 1)" "rnd (t - 1) \<le> t" using rnd_nonneg [of "t - 1"] rnd_mono [of "t - 1" t] assms by simp_all
  then have "fits (rnd (t - 1))" using assms(3,4) fits_le [of cap "rnd (t - 1)"] by simp
  then show ?thesis using y by (simp add: fsub_Fin f64_of_rat_def Let_def)
qed

lemma Allow_ok:
  assumes "bucket_ok cap rl" "Allow now (Some rl) = (b, ok)"
  shows "\<exists>rl'. b = Some rl' \<and> bucket_ok cap rl'"
proof -
  have r: "bucket_ok cap (refill now rl)" using refill_ok [OF assms(1)] .
  then obtain t where t: "rl_tokens (refill now rl) = Fin t" "rnd t = t" "0 \<le> t" "t \<le> cap" and f: "fits cap"
    by (auto simp: bucket_ok_def)
  show ?thesis
  proof (cases "1 \<le> t")
    case True
    then obtain y where "fsub (Fin t) (Fin 1) = Fin y" "rnd y = y" "0 \<le> y" "y \<le> t" using take_token_ok [OF t(2) _ t(4) f] by blast
    then show ?thesis using True assms(2) r t by (auto simp: Allow_def Let_def bucket_ok_def)
  next
    case False
    then show ?thesis using assms(2) r t by (auto simp: Allow_def Let_def)
  qed
qed

fun allow_all :: "int list \<Rightarrow> rate_limiter option \<Rightarrow> rate_limiter option \<times> nat" where
  "allow_all [] b = (b, 0)"
| "allow_all (t # ts) b = (let (b1, ok) = Allow t b; (b2, n) = allow_all ts b1 in (b2, if ok then Suc n else n))"

lemma allow_all_ok: "bucket_ok cap rl \<Longrightarrow> \<exists>rl'. fst (allow_all ts (Some rl)) = Some rl' \<and> bucket_ok cap rl'"
proof (induction ts arbitrary: rl)
  case (Cons t ts)
  obtain b ok where a: "Allow t (Some rl) = (b, ok)" by fastforce
  then obtain rl1 where "b = Some rl1" "bucket_ok cap rl1" using Allow_ok [OF Cons.prems a] by blast
  then show ?case using Cons.IH [of rl1] a by (simp add: case_prod_beta Let_def)
qed simp

text \<open>While the clock does not move, nothing is refilled.\<close>

lemma duration_nonpos:
  assumes "- (2 ^ 63) \<le> d" "d \<le> 0"
  shows "\<exists>x \<le> 0. duration_Seconds d = Fin x"
proof -
  define q r :: int where "q = sgn d * (\<bar>d\<bar> div 1000000000)" and "r = sgn d * (\<bar>d\<bar> mod 1000000000)"
  have q: "- 9223372037 \<le> q" "q \<le> 0" and r: "- 1000000000 \<le> r" "r \<le> 0"
    using assms zdiv_mono1 [of "- d" "2 ^ 63" 1000000000] pos_mod_bound [of 1000000000 "- d"]
    unfolding q_def r_def by (auto simp: sgn_if abs_if pos_imp_zdiv_nonneg_iff)
  have fq: "f64_int q = Fin (of_int q)" "f64_int r = Fin (of_int r)" "f64_int 1000000000 = Fin 1000000000"
    using q r f64_of_rat_int [of q] f64_of_rat_int [of r] f64_of_rat_int [of 1000000000] by (simp_all add: f64_int_def)
  define y where "y = rnd (of_int r / 1000000000)"
  have rr: "- 1 \<le> (of_int r :: rat) / 1000000000" "(of_int r :: rat) / 1000000000 \<le> 0"
    using r by (simp_all add: field_simps)
  then have y: "- 1 \<le> y" "y \<le> 0"
    using rnd_mono [of "- 1" "of_int r / 1000000000"] rnd_mono [of "of_int r / 1000000000" 0] rnd_int [of "- 1"]
    by (simp_all add: y_def)
  have fy: "fdiv (f64_int r) (f64_int 1000000000) = Fin y"
    using rr f64_of_rat_small [of "of_int r / 1000000000"] by (simp add: fq y_def)
  have "- 9223372037 \<le> (of_int q :: rat)" "(of_int q :: rat) \<le> 0" using q by simp_all
  then have "\<bar>of_int q + y\<bar> \<le> 2 ^ 53" "of_int q + y \<le> 0" using y by simp_all
  then have "f64_of_rat (of_int q + y) = Fin (rnd (of_int q + y))" "rnd (of_int q + y) \<le> 0"
    using f64_of_rat_small rnd_mono [of "of_int q + y" 0] by simp_all
  then show ?thesis unfolding duration_Seconds_def Let_def q_def [symmetric] r_def [symmetric] fy by (simp add: fq)
qed

lemma refill_still:
  assumes "now \<le> rl_lastTick rl"
  shows "refill now rl = rl"
proof -
  have "- (2 ^ 63) \<le> time_Sub now (rl_lastTick rl)" "time_Sub now (rl_lastTick rl) \<le> 0"
    using assms by (simp_all add: time_Sub_def)
  then obtain x where "x \<le> 0" "duration_Seconds (time_Sub now (rl_lastTick rl)) = Fin x" using duration_nonpos by blast
  then show ?thesis by (simp add: refill_def Let_def)
qed

lemma allow_all_still:
  assumes "list_all (\<lambda>t. t \<le> rl_lastTick rl) ts" "rl_tokens rl = Fin k" "rnd k = k" "0 \<le> k" "k \<le> 2 ^ 53"
  shows "snd (allow_all ts (Some rl)) = min (length ts) (nat \<lfloor>k\<rfloor>)"
  using assms
proof (induction ts arbitrary: rl k)
  case (Cons t ts)
  have s: "refill t rl = rl" using refill_still Cons.prems(1) by simp
  show ?case
  proof (cases "1 \<le> k")
    case True
    have p: "rnd (k - 1) = k - 1" using rnd_pred Cons.prems(3,5) True by blast
    have "fsub (Fin k) (Fin 1) = Fin (k - 1)"
      using f64_of_rat_small [of "k - 1"] True Cons.prems(5) p by (simp add: fsub_Fin)
    then have "snd (allow_all ts (Some (rl\<lparr>rl_tokens := Fin (k - 1)\<rparr>))) = min (length ts) (nat \<lfloor>k - 1\<rfloor>)"
      "Allow t (Some rl) = (Some (rl\<lparr>rl_tokens := Fin (k - 1)\<rparr>), True)"
      using Cons.IH [of "rl\<lparr>rl_tokens := Fin (k - 1)\<rparr>" "k - 1"] Cons.prems True p by (simp_all add: Allow_def s Let_def)
    moreover have "nat \<lfloor>k\<rfloor> = Suc (nat \<lfloor>k - 1\<rfloor>)" using True le_floor_iff [of 1 k] by simp linarith
    ultimately show ?thesis by (simp add: case_prod_beta Let_def)
  next
    case False
    then have "nat \<lfloor>k\<rfloor> = 0" using Cons.prems(4) by simp
    moreover have "Allow t (Some rl) = (Some rl, False)" using False by (simp add: Allow_def s Let_def Cons.prems(2))
    ultimately show ?thesis using Cons.IH [of rl k] Cons.prems by (simp add: case_prod_beta Let_def)
  qed
qed simp

section \<open>Sequence numbers\<close>

lemma seq_step:
  assumes "checkAndRecordSeq p msg h = (h', ok)"
  shows "h' = h\<lparr>h_seqHigh := h_seqHigh h'\<rparr>"
    and "map_of (h_seqHigh h') k = (if ok \<and> m_Seq msg \<noteq> 0 \<and> k = seq_key p msg then Some (m_Seq msg) else map_of (h_seqHigh h) k)"
    and "ok \<longleftrightarrow> m_Seq msg = 0 \<or> (case map_of (h_seqHigh h) (seq_key p msg) of Some high \<Rightarrow> high < m_Seq msg | None \<Rightarrow> True)"
  using assms by (auto simp: checkAndRecordSeq_def Let_def gomap_simps not_le split: if_splits option.splits)

text \<open>The numbered frames that pass, of a sequence of frames with their senders.\<close>

fun passed :: "(string \<times> ws_message) list \<Rightarrow> hub \<Rightarrow> (string \<times> int) list" where
  "passed [] h = []"
| "passed ((p, msg) # frames) h =
     (let (h', ok) = checkAndRecordSeq p msg h
      in if ok \<and> m_Seq msg \<noteq> 0 then (seq_key p msg, m_Seq msg) # passed frames h' else passed frames h')"

lemma passed_increasing:
  "sorted_wrt (\<lambda>(k, i) (k', j). k = k' \<longrightarrow> i < j) (passed frames h)
   \<and> (\<forall>(k, i) \<in> set (passed frames h). case map_of (h_seqHigh h) k of Some high \<Rightarrow> high < i | None \<Rightarrow> True)"
proof (induction frames arbitrary: h)
  case (Cons f frames)
  obtain p msg where f: "f = (p, msg)" by (cases f)
  obtain h' ok where c: "checkAndRecordSeq p msg h = (h', ok)" by fastforce
  note st = seq_step(2,3) [OF c]
  show ?case
  proof (cases "ok \<and> m_Seq msg \<noteq> 0")
    case True
    have "case map_of (h_seqHigh h) k of Some high \<Rightarrow> high < i | None \<Rightarrow> True"
      "k = seq_key p msg \<longrightarrow> m_Seq msg < i" if "(k, i) \<in> set (passed frames h')" for k i
      using Cons.IH [of h'] that st(1) [of k] st(2) True by (fastforce split: if_splits option.splits)+
    then show ?thesis using Cons.IH [of h'] True st(2) by (auto simp: f c)
  next
    case False
    then show ?thesis using Cons.IH [of h'] st(1) by (auto simp: f c)
  qed
qed simp

section \<open>The hub as a transition system\<close>

definition hub_inv :: "hub \<Rightarrow> bool" where
  "hub_inv h \<longleftrightarrow> gomap_wf (h_clients h) \<and> gomap_wf (h_conns h) \<and> keys (h_conns h) = {..<length (h_conns h)}
     \<and> (\<forall>p i. map_of (h_clients h) p = Some i \<longrightarrow> (\<exists>c. map_of (h_conns h) i = Some c \<and> cl_Pseudonym c = p))
     \<and> (\<forall>i c. map_of (h_conns h) i = Some c \<longrightarrow> length (cl_Send c) \<le> SendBufferSize)"

text \<open>Changing a connection in place, without touching its pseudonym.\<close>

definition put_conn :: "nat \<Rightarrow> client \<Rightarrow> hub \<Rightarrow> hub" where
  "put_conn i c h = h\<lparr>h_conns := AList.update i c (h_conns h)\<rparr>"

lemma length_update_known: "k \<in> keys m \<Longrightarrow> length (AList.update k v m) = length m"
  by (induction m) auto

lemma update_new: "k \<notin> keys m \<Longrightarrow> AList.update k v m = m @ [(k, v)]"
  by (induction m) auto

lemma hub_inv_put:
  assumes "hub_inv h" "map_of (h_conns h) i = Some c" "cl_Pseudonym c' = cl_Pseudonym c" "length (cl_Send c') \<le> SendBufferSize"
  shows "hub_inv (put_conn i c' h)"
proof -
  have i: "i \<in> keys (h_conns h)" using assms(2) by (rule map_of_in_keys)
  have "keys (AList.update i c' (h_conns h)) = {..<length (AList.update i c' (h_conns h))}"
    using assms(1) i unfolding hub_inv_def length_update_known [OF i] by (simp add: keys_update insert_absorb)
  then show ?thesis using assms unfolding hub_inv_def put_conn_def
    by (auto simp: gomap_simps distinct_update simp del: map_of_eq_Some_iff) (metis option.inject)
qed

lemma hub_inv_seq [simp]: "hub_inv (h\<lparr>h_seqHigh := m\<rparr>) = hub_inv h"
  by (simp add: hub_inv_def)

lemma hub_inv_unregister: "hub_inv h \<Longrightarrow> hub_inv (h\<lparr>h_clients := AList.delete p (h_clients h)\<rparr>)"
  by (auto simp: hub_inv_def gomap_simps distinct_delete simp del: map_of_eq_Some_iff split: if_splits)

lemma enqueue_inv: "hub_inv h \<Longrightarrow> hub_inv (enqueue data i h)"
  using hub_inv_put [of h i]
  by (auto simp: enqueue_def put_conn_def [symmetric] Suc_le_eq split: option.split)

lemma enqueue_clients [simp]: "h_clients (enqueue data i h) = h_clients h"
  by (simp add: enqueue_def split: option.split)

lemma fold_inv: "(\<And>x h. hub_inv h \<Longrightarrow> hub_inv (f x h)) \<Longrightarrow> hub_inv h \<Longrightarrow> hub_inv (fold f xs h)"
  by (induction xs arbitrary: h) auto

lemma HandleWS_inv:
  assumes "hub_inv h" "HandleWS now up origin p token h = (h', res)"
  shows "hub_inv h'"
proof (cases "\<exists>i. res = Connected i")
  case False
  then show ?thesis using assms by (auto simp: HandleWS_def Let_def split: if_splits)
next
  case True
  let ?i = "length (h_conns h)"
  obtain c where c: "h' = h\<lparr>h_clients := AList.update p ?i (h_clients h), h_conns := AList.update ?i c (h_conns h)\<rparr>"
    "cl_Pseudonym c = p" "cl_Send c = []"
    using assms(2) True by (auto simp: HandleWS_def Let_def fresh_conn_def split: if_splits)
  have n: "?i \<notin> keys (h_conns h)" using assms(1) by (simp add: hub_inv_def)
  then have "map_of (h_conns h) ?i = None" by (simp add: map_of_eq_None_iff)
  have u: "AList.update ?i c (h_conns h) = h_conns h @ [(?i, c)]" using n by (rule update_new)
  have old: "j \<noteq> ?i" if "map_of (h_clients h) q = Some j" for q j
    using assms(1) that \<open>map_of (h_conns h) ?i = None\<close> unfolding hub_inv_def by (metis option.distinct(1))
  have "keys (h_conns h') = {..<length (h_conns h')}" using assms(1) c(1) by (simp add: hub_inv_def u lessThan_Suc)
  then show ?thesis using assms(1) c old
    unfolding hub_inv_def by (auto simp: gomap_simps distinct_update simp del: map_of_eq_Some_iff)
qed

lemma read_frame_inv:
  assumes "hub_inv h"
  shows "hub_inv (fst (read_frame now i frame h))"
proof (cases "map_of (h_conns h) i")
  case (Some c)
  have l: "length (cl_Send c) \<le> SendBufferSize" using assms Some unfolding hub_inv_def by blast
  show ?thesis
  proof (cases frame)
    case (Some msg)
    obtain h1 ok where s: "checkAndRecordSeq (cl_Pseudonym c) msg h = (h1, ok)" by fastforce
    have h1: "hub_inv h1" "h_conns h1 = h_conns h" using seq_step(1) [OF s] assms by (metis hub_inv_seq, metis hub.select_convs(2) hub.surjective hub.update_convs(9))
    have "hub_inv (put_conn i (c\<lparr>cl_limiter := b\<rparr>) h1)" for b
      using hub_inv_put [OF h1(1), of i c] h1(2) \<open>map_of (h_conns h) i = Some c\<close> l by simp
    then show ?thesis using assms h1(1) s Some \<open>map_of (h_conns h) i = Some c\<close>
      by (simp add: read_frame_def put_conn_def case_prod_beta Let_def split: option.split)
  qed (use assms Some in \<open>simp add: read_frame_def\<close>)
qed (use assms in \<open>simp add: read_frame_def\<close>)

lemma close_conn_inv:
  assumes "hub_inv h"
  shows "hub_inv (close_conn i h)"
proof (cases "map_of (h_conns h) i")
  case (Some c)
  let ?h1 = "h\<lparr>h_clients := AList.delete (cl_Pseudonym c) (h_clients h)\<rparr>"
  have "hub_inv (put_conn i (c\<lparr>cl_open := False\<rparr>) ?h1)"
  proof (rule hub_inv_put [OF hub_inv_unregister [OF assms]])
    show "length (cl_Send (c\<lparr>cl_open := False\<rparr>)) \<le> SendBufferSize" using assms Some by (auto simp: hub_inv_def)
  qed (simp_all add: Some)
  then show ?thesis by (simp add: close_conn_def Some put_conn_def)
qed (simp add: close_conn_def assms)

lemma write_next_inv:
  assumes "hub_inv h"
  shows "hub_inv (fst (write_next w i h))"
proof (cases "map_of (h_conns h) i")
  case (Some c)
  have l: "length (cl_Send c) \<le> SendBufferSize" using assms Some unfolding hub_inv_def by blast
  show ?thesis
  proof (cases "cl_Send c")
    case (Cons data rest)
    have "hub_inv (put_conn i (c\<lparr>cl_Send := rest, cl_open := b\<rparr>) h)" for b
      using hub_inv_put [OF assms Some] l Cons by simp
    then show ?thesis by (simp add: write_next_def Some Cons put_conn_def Let_def)
  qed (simp add: write_next_def Some assms)
qed (simp add: write_next_def assms)

lemma BroadcastToSession_inv: "hub_inv h \<Longrightarrow> hub_inv (BroadcastToSession enc ts sid ps msg h)"
  unfolding BroadcastToSession_def Let_def by (rule fold_inv) (auto intro: enqueue_inv split: option.split)

inductive hub_step :: "(ws_message \<Rightarrow> string + bytes) \<Rightarrow> hub \<Rightarrow> hub \<Rightarrow> bool" for enc where
  hub_connect: "hub_step enc h (fst (HandleWS now up origin p token h))"
| hub_frame: "hub_step enc h (fst (read_frame now i frame h))"
| hub_close: "hub_step enc h (close_conn i h)"
| hub_write: "hub_step enc h (fst (write_next w i h))"
| hub_send: "hub_step enc h (fst (SendTo enc ts p msg h))"
| hub_broadcast: "hub_step enc h (Broadcast enc ts msg h)"
| hub_session: "hub_step enc h (BroadcastToSession enc ts sid ps msg h)"

lemma hub_step_inv: "hub_step enc h h' \<Longrightarrow> hub_inv h \<Longrightarrow> hub_inv h'"
proof (induction rule: hub_step.induct)
  case (hub_connect h now up origin p token)
  then show ?case using HandleWS_inv by (metis prod.collapse)
next
  case (hub_send h ts p msg)
  then show ?case by (auto simp: SendTo_def intro: enqueue_inv split: sum.split option.split)
next
  case (hub_broadcast h ts msg)
  then show ?case unfolding Broadcast_def Let_def by (intro fold_inv) (auto intro: enqueue_inv)
qed (simp_all add: read_frame_inv close_conn_inv write_next_inv BroadcastToSession_inv)

lemma NewHub_inv: "hub_inv (NewHubWithOptions auth opts)"
  by (simp add: hub_inv_def NewHubWithOptions_def Let_def)

interpretation hub_sys: invariant_system "hub_step enc" "NewHubWithOptions auth opts" hub_inv for enc auth opts
  by unfold_locales (auto intro: NewHub_inv hub_step_inv)

section \<open>Properties\<close>

lemma newRateLimiter_ok:
  assumes "f64_ok (Fin burst)" "newRateLimiter (Fin rate) (Fin burst) t0 = Some rl"
  shows "bucket_ok burst rl" "rl_tokens rl = Fin burst" "rl_lastTick rl = t0" "rnd burst = burst" "0 \<le> burst"
  using assms by (auto simp: newRateLimiter_def bucket_ok_def split: if_splits)

text \<open>C22. The rate limiter of a connection with finite rate and burst: whatever times it is asked at, the
  tokens stay between zero and the burst; and while the clock stands still exactly the whole number of
  tokens in the burst passes, computed in floating point (for bursts up to \<open>2 ^ 53\<close>, where every
  token counts).\<close>

theorem rate_limiter_bounds:
  assumes "f64_ok (Fin burst)" "newRateLimiter (Fin rate) (Fin burst) t0 = Some rl"
  shows "(\<exists>rl' k. fst (allow_all ts (Some rl)) = Some rl' \<and> rl_tokens rl' = Fin k \<and> 0 \<le> k \<and> k \<le> burst)
    \<and> (list_all (\<lambda>t. t \<le> t0) ts \<and> burst \<le> 2 ^ 53 \<longrightarrow>
         snd (allow_all ts (Some rl)) = min (length ts) (nat \<lfloor>burst\<rfloor>))"
proof -
  note n = newRateLimiter_ok [OF assms]
  have "\<exists>rl' k. fst (allow_all ts (Some rl)) = Some rl' \<and> rl_tokens rl' = Fin k \<and> 0 \<le> k \<and> k \<le> burst"
    using allow_all_ok [OF n(1), of ts] by (auto simp: bucket_ok_def)
  then show ?thesis using allow_all_still [of rl ts burst] n by auto
qed

theorem rate_limiter_bounds_witness:
  "\<exists>rl. newRateLimiter (Fin 10) (Fin 2) 0 = Some rl \<and> snd (allow_all [0, 0, 0, 0] (Some rl)) = 2"
proof -
  have "f64_ok (Fin 2)" using rnd_int [of 2] by (simp add: fits_iff f64_max_bound_def)
  moreover obtain rl where rl: "newRateLimiter (Fin 10) (Fin 2) 0 = Some rl" by (simp add: newRateLimiter_def)
  ultimately show ?thesis using rate_limiter_bounds [of 2 10 0 rl "[0, 0, 0, 0]"] by simp
qed

text \<open>Replay protection: of the frames whose non-zero sequence number passes the check, in whatever
  order they come in, those with the same session, sender and type have strictly increasing numbers.\<close>

theorem accepted_sequence_increases:
  "sorted_wrt (\<lambda>(k, i) (k', j). \<not> (k = k' \<and> j \<le> i)) (passed frames h)"
proof -
  have "(\<lambda>(k, i) (k', j). \<not> (k = k' \<and> j \<le> i)) = (\<lambda>(k :: string, i :: int) (k', j). k = k' \<longrightarrow> i < j)"
    by (auto simp: fun_eq_iff)
  then show ?thesis using passed_increasing [of frames h] by simp
qed

text \<open>The key joins the three parts with a separator that they may contain, so different senders can
  share one counter.\<close>

lemma seq_key_collision:
  "seq_key ''q'' (msg\<lparr>m_SessionID := ''s|p'', m_Type := ''t''\<rparr>) = seq_key ''p|q'' (msg\<lparr>m_SessionID := ''s'', m_Type := ''t''\<rparr>)"
  by (simp add: seq_key_def)

text \<open>In every reachable state of a hub the connection registered for a pseudonym was opened with
  that pseudonym, and no outbound queue holds more than \<open>SendBufferSize\<close> messages.\<close>

theorem hub_registrations:
  assumes "reach (hub_step enc) (NewHubWithOptions auth opts) h"
  shows "(\<forall>p i. map_of (h_clients h) p = Some i \<longrightarrow> (\<exists>c. map_of (h_conns h) i = Some c \<and> cl_Pseudonym c = p))
    \<and> (\<forall>i c. map_of (h_conns h) i = Some c \<longrightarrow> length (cl_Send c) \<le> 256)"
  using hub_sys.reach_inv [OF assms] unfolding hub_inv_def SendBufferSize_def by blast

definition demo_auth :: auth_middleware where
  "demo_auth = \<lparr>am_Secret = [], am_AllowDevBypass = True\<rparr>"

definition demo_hub1 :: hub where
  "demo_hub1 = fst (HandleWS 0 True [] ''p'' [] (NewHub demo_auth))"

definition demo_hub2 :: hub where
  "demo_hub2 = fst (HandleWS 1 True [] ''p'' [] demo_hub1)"

lemmas demo_hub_defs = demo_hub1_def demo_hub2_def demo_auth_def NewHub_def NewHubWithOptions_def HandleWS_def
  ValidateToken_def CheckOrigin_def Let_def fresh_conn_def newRateLimiter_def

theorem hub_registrations_witness:
  "map_of (h_clients demo_hub2) ''p'' = Some 1 \<and> (\<exists>c. map_of (h_conns demo_hub2) 1 = Some c \<and> cl_Pseudonym c = ''p'')"
proof -
  have "reach (hub_step (\<lambda>m. Inr [])) (NewHub demo_auth) demo_hub2"
    unfolding demo_hub2_def demo_hub1_def 
    by (rule reach_step, rule reach_step, rule reach_start) (rule hub_connect)+
  from hub_registrations [OF this [unfolded NewHub_def]] show ?thesis by (simp add: demo_hub_defs)
qed

text \<open>C23. A participant that reconnects is registered with its new connection; when the old connection
  of the same pseudonym then closes, the hub forgets the new one: it stays open, but nothing sent to the
  participant is queued any more.\<close>

theorem stale_close_unregisters:
  assumes "HandleWS t1 up1 o1 p tok1 h = (h1, Connected i)" "HandleWS t2 up2 o2 p tok2 h1 = (h2, Connected j)"
    and "hub_inv h"
  shows "map_of (h_clients h2) p = Some j \<and> i \<noteq> j
    \<and> (\<exists>c. map_of (h_conns (close_conn i h2)) j = Some c \<and> cl_open c)
    \<and> \<not> IsConnected (close_conn i h2) p \<and> fst (SendTo enc ts p msg (close_conn i h2)) = close_conn i h2"
proof -
  have h1: "hub_inv h1" using HandleWS_inv [OF assms(3,1)] .
  obtain c1 where c1: "i = length (h_conns h)" "h_conns h1 = AList.update i c1 (h_conns h)" "cl_Pseudonym c1 = p"
    using assms(1) by (auto simp: HandleWS_def Let_def fresh_conn_def split: if_splits)
  obtain c2 where c2: "j = length (h_conns h1)" "h_conns h2 = AList.update j c2 (h_conns h1)"
    "h_clients h2 = AList.update p j (h_clients h1)" "cl_open c2"
    using assms(2) by (auto simp: HandleWS_def Let_def fresh_conn_def split: if_splits)
  have "i \<in> keys (h_conns h1)" using c1(2) by (simp add: keys_update)
  then have ij: "i \<noteq> j" using h1 c2(1) by (auto simp: hub_inv_def)
  have "map_of (h_conns h2) i = Some c1" using c1(2) c2(2) ij by (simp add: gomap_simps)
  then have "map_of (h_clients (close_conn i h2)) p = None" "map_of (h_conns (close_conn i h2)) j = Some c2"
    using c1(3) c2(2) ij by (simp_all add: close_conn_def gomap_simps)
  then show ?thesis using c2(3,4) ij by (simp add: IsConnected_def SendTo_def gomap_simps split: sum.split)
qed

theorem stale_close_unregisters_witness:
  "IsConnected demo_hub2 ''p'' \<and> \<not> IsConnected (close_conn 0 demo_hub2) ''p''"
proof -
  have "HandleWS 0 True [] ''p'' [] (NewHub demo_auth) = (demo_hub1, Connected 0)"
    "HandleWS 1 True [] ''p'' [] demo_hub1 = (demo_hub2, Connected 1)" by (simp_all add: demo_hub_defs)
  moreover have "hub_inv (NewHub demo_auth)" unfolding NewHub_def by (rule NewHub_inv)
  ultimately show ?thesis using stale_close_unregisters by (metis IsConnected_def option.distinct(1))
qed

end
