(* ===== verification/Service_Props.thy ===== *)
theory Service_Props
  imports Service Hub_Props Runner_Lineage
begin

text \<open>
  Properties that span the service: who can connect in production, what a frame of the old protocol version
  reaches, and when the attributes of a session are seeded.
\<close>

section \<open>What the hub never changes\<close>

definition same_policy :: "hub \<Rightarrow> hub \<Rightarrow> bool" where
  "same_policy h h' \<longleftrightarrow> h_auth h' = h_auth h \<and> h_allowed h' = h_allowed h \<and> h_allowAny h' = h_allowAny h"

lemma same_policy_refl [simp]: "same_policy h h"
  by (simp add: same_policy_def)

lemma same_policy_trans: "same_policy h h1 \<Longrightarrow> same_policy h1 h2 \<Longrightarrow> same_policy h h2"
  by (simp add: same_policy_def)

lemma same_policy_enqueue [simp]: "same_policy h (enqueue data i h)"
  by (simp add: same_policy_def enqueue_def split: option.split)

lemma same_policy_fold: "(\<And>x g. same_policy g (f x g)) \<Longrightarrow> same_policy h (fold f xs h)"
proof (induction xs arbitrary: h)
  case (Cons x xs)
  then show ?case using same_policy_trans by (metis fold_simps(2))
qed simp

lemma same_policy_frame: "same_policy h (fst (read_frame now i frame h))"
  by (auto simp: read_frame_def checkAndRecordSeq_def same_policy_def Let_def case_prod_beta split: option.split)

lemma hub_step_policy: "hub_step enc h h' \<Longrightarrow> same_policy h h'"
proof (induction rule: hub_step.induct)
  case (hub_connect h now up origin p token)
  then show ?case by (auto simp: HandleWS_def same_policy_def Let_def)
next
  case (hub_close h i)
  then show ?case by (auto simp: close_conn_def same_policy_def split: option.split)
next
  case (hub_write h w i)
  then show ?case by (auto simp: write_next_def same_policy_def Let_def split: option.split list.split)
next
  case (hub_send h ts p msg)
  then show ?case by (auto simp: SendTo_def split: sum.split option.split)
next
  case (hub_broadcast h ts msg)
  then show ?case unfolding Broadcast_def Let_def by (rule same_policy_fold) auto
next
  case (hub_session h ts sid ps msg)
  then show ?case unfolding BroadcastToSession_def Let_def by (rule same_policy_fold) (auto split: option.split)
qed (rule same_policy_frame)

lemma reach_policy: "reach (hub_step enc) h h' \<Longrightarrow> same_policy h h'"
  by (induction rule: reach.induct) (auto intro: same_policy_trans hub_step_policy)

section \<open>Properties\<close>

text \<open>C20. A service that starts with \<open>ARES_ENV=production\<close> has a secret and no bypass: whatever has happened
  to its hub, a WebSocket is accepted only with the HMAC token of its pseudonym under that secret, and from a
  browser only when its origin is on the configured list.\<close>

theorem production_requires_token:
  assumes "NewService ''production'' cfg = Inr svc" "reach (hub_step enc) (sv_hub svc) h"
    and "HandleWS now up origin pseudonym token h = (h', Connected i)"
  shows "cf_Secret cfg \<noteq> [] \<and> pseudonym \<noteq> []
    \<and> token = hex_encode (hmac_sha256 (cf_Secret cfg) pseudonym) \<and> (origin = [] \<or> origin \<in> set (cf_AllowedOrigins cfg))"
proof -
  have b: "\<not> cf_AllowDevBypass cfg" "cf_Secret cfg \<noteq> []" "h_auth (sv_hub svc) = \<lparr>am_Secret = cf_Secret cfg, am_AllowDevBypass = False\<rparr>"
    "h_allowed (sv_hub svc) = cf_AllowedOrigins cfg" "\<not> h_allowAny (sv_hub svc)"
    using assms(1) by (auto simp: NewService_def NewHubWithOptions_def Let_def split: if_splits option.splits)
  then have h: "h_auth h = \<lparr>am_Secret = cf_Secret cfg, am_AllowDevBypass = False\<rparr>" "h_allowed h = cf_AllowedOrigins cfg"
    "\<not> h_allowAny h" using reach_policy [OF assms(2)] by (simp_all add: same_policy_def)
  have "pseudonym \<noteq> []" "ValidateToken (h_auth h) pseudonym token" "CheckOrigin h origin"
    using assms(3) by (auto simp: HandleWS_def Let_def split: if_splits)
  then show ?thesis using b(2) h by (auto simp: ValidateToken_def CheckOrigin_def list_ex_iff split: if_splits)
qed

definition demo_config :: "mem_store config" where
  "demo_config = \<lparr>cf_Addr = '':8000'', cf_ServiceName = ''auction'', cf_Secret = ''secret'', cf_AllowDevBypass = False,
     cf_Runner = Some demo_lin_runner, cf_InviteType = [], cf_EventRing = None, cf_AllowedOrigins = [],
     cf_MaxWSMessageSize = 0, cf_MaxArtifactSize = 0\<rparr>"

definition demo_service :: "mem_store service" where
  "demo_service = (case NewService ''production'' demo_config of Inr s \<Rightarrow> s)"

definition demo_token :: string where
  "demo_token = hex_encode (hmac_sha256 ''secret'' ''p'')"

lemma demo_service_new: "NewService ''production'' demo_config = Inr demo_service"
  by (simp add: demo_service_def NewService_def demo_config_def Let_def)

lemma demo_service_fields:
  "h_auth (sv_hub demo_service) = \<lparr>am_Secret = ''secret'', am_AllowDevBypass = False\<rparr>" "sv_runner demo_service = demo_lin_runner"
  "h_conns (sv_hub demo_service) = []" "h_inboundRate (sv_hub demo_service) = Fin 0" "sv_ring demo_service \<noteq> None"
  by (simp_all add: demo_service_def NewService_def demo_config_def NewHubWithOptions_def Let_def)

lemma demo_service_connects: "snd (HandleWS 0 True [] ''p'' demo_token (sv_hub demo_service)) = Connected 0"
  by (simp add: HandleWS_def ValidateToken_def CheckOrigin_def demo_service_fields demo_token_def Let_def fresh_conn_def)

theorem production_requires_token_witness:
  "NewService ''production'' demo_config = Inr demo_service
   \<and> snd (HandleWS 0 True [] ''p'' demo_token (sv_hub demo_service)) = Connected 0
   \<and> demo_token = hex_encode (hmac_sha256 (cf_Secret demo_config) ''p'')"
proof -
  obtain h' where "HandleWS 0 True [] ''p'' demo_token (sv_hub demo_service) = (h', Connected 0)"
    using demo_service_connects by (metis prod.collapse)
  from production_requires_token [OF demo_service_new reach_start this] show ?thesis
    using demo_service_new demo_service_connects by simp
qed

lemma receive_v1:
  assumes "map_of (h_conns (sv_hub svc)) i = Some c" "cl_limiter c = None"
    and "m_Version msg = [] \<or> m_Version msg = ''1''" "m_Lineage msg = None" "m_Seq msg = 0" "m_SessionID msg \<noteq> []"
  shows "map_option sv_runner (receive ops now etext None i (Some msg) svc)
    = map_option fst (HandleMessage ops now (m_SessionID msg) (m_Type msg) (cl_Pseudonym c) (m_Payload msg) (sv_runner svc))"
proof -
  have v: "ValidateInboundMessage msg = None"
    using assms(3) by (auto simp: ValidateInboundMessage_def WireProtocolVersion_def)
  obtain h where "read_frame now i (Some msg) (sv_hub svc) = (h, Dispatch (cl_Pseudonym c) msg)"
    using assms(1,2,5) by (simp add: read_frame_def v checkAndRecordSeq_def Allow_def)
  then show ?thesis using assms(4,6)
    by (cases "HandleMessage ops now (m_SessionID msg) (m_Type msg) (cl_Pseudonym c) (m_Payload msg) (sv_runner svc)")
      (auto simp: receive_def dispatch_def Let_def)
qed


definition demo_connected :: "mem_store service" where
  "demo_connected = demo_service\<lparr>sv_hub := fst (HandleWS 0 True [] ''p'' demo_token (sv_hub demo_service))\<rparr>"

definition demo_frame :: ws_message where
  "demo_frame = zero_message\<lparr>m_Type := ''m'', m_SessionID := ''other''\<rparr>"

lemma demo_connected_fields:
  "\<exists>c. map_of (h_conns (sv_hub demo_connected)) 0 = Some c \<and> cl_limiter c = None \<and> cl_Pseudonym c = ''p''"
  "sv_runner demo_connected = demo_lin_runner"
  by (simp_all add: demo_connected_def HandleWS_def ValidateToken_def CheckOrigin_def demo_service_fields demo_token_def
      Let_def fresh_conn_def newRateLimiter_def)

lemma demo_lin_advances:
  "\<exists>r'. HandleMessage mem_ops 0 ''other'' ''m'' ''p'' [] demo_lin_runner = Some (r', True, None)
     \<and> CurrentState r' ''other'' = (''B'', True) \<and> r_store r' = Some NewInMemoryStore"
  by (simp add: HandleMessage_def demo_lin_runner_def demo_lin_defs attachLineage_def BeginSession_def put_session_def
      run_hook_def phaseConsumes_def advance_def advance_hops_hop hop_def commitPhaseOutputsIfEnabled_def resolveParents_def
      CurrentState_def)


section \<open>When attributes arrive\<close>

text \<open>\<open>Start\<close> seeds the attributes after \<open>BeginSession\<close> has run the first phase's \<open>Enter\<close>: a phase that
  looks for one there does not find it, and the session is refused although the count of started sessions has grown.\<close>

definition needs_attr :: "mem_store phase" where
  "needs_attr = (plain_phase ''a'' ''A'' StateNone [] [''m''])
     \<lparr>ph_Enter := (\<lambda>c. (c, if ctx_Has c ''k'' then None else Some ''missing k''))\<rparr>"

lemma attrs_seeded_late:
  assumes "NewService [] (demo_config\<lparr>cf_Runner := Some r\<rparr>) = Inr svc" "Compose (\<lambda>x. []) [needs_attr] = Inr r"
  shows "case Start enc ts ''s'' [''p''] [(''k'', VBool True)] svc of
      (svc', err) \<Rightarrow> err = Some (BeginFailed ''s'' (PhaseError ''a'' ''Enter'' ''missing k'')) \<and> StartedCount svc' = 1"
proof -
  have r: "sv_runner svc = r" "sv_startedCount svc = 0"
    using assms(1) by (auto simp: NewService_def demo_config_def Let_def)
  have "\<exists>r'. BeginSession ''s'' [] r = (r', Inl (PhaseError ''a'' ''Enter'' ''missing k''))"
    using assms(2) by (auto simp: Compose_def needs_attr_def plain_phase_def new_runner_def Let_def StateNone_def
        add_provides_def add_inline_def BeginSession_def run_hook_def ctx_Has_def NewSessionContext_def)
  then show ?thesis by (auto simp: Start_def r StartedCount_def Let_def)
qed

end
