(* ===== verification/Log_Stream.thy ===== *)
theory Log_Stream
  imports Codec
begin

text \<open>
  The log stream (pkg/ares/transport/log\_stream.go): a ring of recent log lines, channels that receive new
  ones, and their rendering as server-sent events. A subscriber is the queue of its channel. The reader of the
  events is the browser's: lines end with a line feed, a carriage return or both, and a blank line ends an event.
\<close>

definition logRingSize :: nat where
  "logRingSize = 4000"

record log_stream =
  ls_ring :: "string list"
  ls_pos :: nat
  ls_full :: bool
  ls_subs :: "(nat, string list) gomap"

definition NewLogStream :: log_stream where
  "NewLogStream = \<lparr>ls_ring = replicate logRingSize [], ls_pos = 0, ls_full = False, ls_subs = []\<rparr>"

definition offer :: "string \<Rightarrow> string list \<Rightarrow> string list" where
  "offer line ch = (if length ch < 512 then ch @ [line] else ch)"

definition log_Write :: "string \<Rightarrow> log_stream \<Rightarrow> log_stream" where
  "log_Write p ls =
     (let line = trim_right (CHR 0x0A) p;
          pos = (ls_pos ls + 1) mod logRingSize
      in \<lparr>ls_ring = (ls_ring ls)[ls_pos ls := line], ls_pos = pos, ls_full = (ls_full ls \<or> pos = 0),
          ls_subs = map (\<lambda>(i, ch). (i, offer line ch)) (ls_subs ls)\<rparr>)"

definition buffered :: "log_stream \<Rightarrow> string list" where
  "buffered ls =
     (if ls_full ls then filter (\<lambda>l. l \<noteq> []) (drop (ls_pos ls) (ls_ring ls)) else [])
     @ filter (\<lambda>l. l \<noteq> []) (take (ls_pos ls) (ls_ring ls))"

definition subscribe :: "nat \<Rightarrow> log_stream \<Rightarrow> log_stream" where
  "subscribe ch ls = ls\<lparr>ls_subs := AList.update ch [] (ls_subs ls)\<rparr>"

definition unsubscribe :: "nat \<Rightarrow> log_stream \<Rightarrow> log_stream" where
  "unsubscribe ch ls = ls\<lparr>ls_subs := AList.delete ch (ls_subs ls)\<rparr>"

definition writeSSE :: "string \<Rightarrow> string" where
  "writeSSE line =
     concat (map (\<lambda>part. ''data: '' @ trim_right (CHR 0x0D) part @ [CHR 0x0A]) (split_on (CHR 0x0A) line)) @ [CHR 0x0A]"

section \<open>Reading an event stream\<close>

fun sse_lines :: "string \<Rightarrow> string \<Rightarrow> string list" where
  "sse_lines cur [] = []"
| "sse_lines cur (c # cs) =
     (if c = CHR 0x0A then rev cur # sse_lines [] cs
      else if c = CHR 0x0D then
        (case cs of [] \<Rightarrow> [rev cur] | d # ds \<Rightarrow> if d = CHR 0x0A then rev cur # sse_lines [] ds else rev cur # sse_lines [] (d # ds))
      else sse_lines (c # cur) cs)"

fun sse_events :: "string list \<Rightarrow> string list \<Rightarrow> string list list" where
  "sse_events buf [] = []"
| "sse_events buf (l # ls) =
     (if l = [] then (if buf = [] then sse_events [] ls else buf # sse_events [] ls)
      else if take 6 l = ''data: '' then sse_events (buf @ [drop 6 l]) ls
      else if take 5 l = ''data:'' then sse_events (buf @ [drop 5 l]) ls
      else sse_events buf ls)"

section \<open>The ring\<close>

definition written :: "string list \<Rightarrow> log_stream" where
  "written ps = fold log_Write ps NewLogStream"

lemma written_snoc: "written (ps @ [p]) = log_Write p (written ps)"
  by (simp add: written_def)

lemma written_pos: "ls_pos (written ps) = length ps mod logRingSize \<and> length (ls_ring (written ps)) = logRingSize
    \<and> (ls_full (written ps) \<longleftrightarrow> logRingSize \<le> length ps)"
proof (induction ps rule: rev_induct)
  case Nil
  then show ?case by (simp add: written_def NewLogStream_def logRingSize_def)
next
  case (snoc p ps)
  have "Suc (length ps) mod logRingSize = 0 \<Longrightarrow> logRingSize \<le> Suc (length ps)"
    by (metis Suc_neq_Zero mod_less not_le_imp_less)
  moreover have "\<not> logRingSize \<le> length ps \<Longrightarrow> logRingSize \<le> Suc (length ps) \<Longrightarrow> Suc (length ps) mod logRingSize = 0"
    by (simp add: not_le le_Suc_eq)
  ultimately show ?case using snoc by (auto simp: written_snoc log_Write_def Let_def mod_Suc_eq)
qed

definition content :: "log_stream \<Rightarrow> string list" where
  "content ls = (if ls_full ls then drop (ls_pos ls) (ls_ring ls) else []) @ take (ls_pos ls) (ls_ring ls)"

lemma buffered_content: "buffered ls = filter (\<lambda>l. l \<noteq> []) (content ls)"
  by (simp add: buffered_def content_def)

lemma content_Write:
  assumes "ls_pos ls < logRingSize" "length (ls_ring ls) = logRingSize"
  shows "content (log_Write p ls) = (if ls_full ls then tl (content ls) else content ls) @ [trim_right (CHR 0x0A) p]"
proof -
  let ?pos = "ls_pos ls" and ?ring = "ls_ring ls" and ?line = "trim_right (CHR 0x0A) p"
  have t: "take (Suc ?pos) (?ring[?pos := ?line]) = take ?pos ?ring @ [?line]"
    using assms by (simp add: take_Suc_conv_app_nth)
  have d: "drop (Suc ?pos) (?ring[?pos := ?line]) = tl (drop ?pos ?ring)" by (metis drop_Suc drop_update_cancel lessI tl_drop)
  have n: "drop ?pos ?ring \<noteq> []" using assms by simp
  show ?thesis
  proof (cases "Suc ?pos = logRingSize")
    case True
    then have "?ring[?pos := ?line] = take ?pos ?ring @ [?line]" using t assms(2) by (metis length_list_update order_refl take_all)
    moreover have "tl (drop ?pos ?ring) = []" using True assms(2) by (simp add: tl_drop drop_Suc [symmetric])
    ultimately show ?thesis using True n by (simp add: content_def log_Write_def Let_def)
  next
    case False
    then have "Suc ?pos mod logRingSize = Suc ?pos" using assms(1) by simp
    then show ?thesis using t d n by (simp add: content_def log_Write_def Let_def)
  qed
qed

lemma content_written:
  "content (written ps) = (let l = map (trim_right (CHR 0x0A)) ps in drop (length l - logRingSize) l)"
proof (induction ps rule: rev_induct)
  case Nil
  then show ?case by (simp add: content_def written_def NewLogStream_def)
next
  case (snoc p ps)
  have N: "0 < logRingSize" by (simp add: logRingSize_def)
  let ?l = "map (trim_right (CHR 0x0A)) ps"
  have "content (written (ps @ [p])) = (if logRingSize \<le> length ps then tl (content (written ps)) else content (written ps)) @ [trim_right (CHR 0x0A) p]"
    using content_Write [of "written ps" p] written_pos [of ps] N by (simp add: written_snoc)
  also have "\<dots> = drop (length (?l @ [trim_right (CHR 0x0A) p]) - logRingSize) (?l @ [trim_right (CHR 0x0A) p])"
    unfolding last_n_snoc [OF N] snoc Let_def by simp
  finally show ?case by (simp add: Let_def)
qed

section \<open>Events\<close>

lemma sse_lines_line:
  "CHR 0x0A \<notin> set s \<Longrightarrow> CHR 0x0D \<notin> set s \<Longrightarrow> sse_lines cur (s @ CHR 0x0A # rest) = (rev cur @ s) # sse_lines [] rest"
  by (induction s arbitrary: cur) auto

lemma sse_lines_parts:
  assumes "list_all (\<lambda>p. CHR 0x0A \<notin> set p \<and> CHR 0x0D \<notin> set p) ps"
  shows "sse_lines [] (concat (map (\<lambda>p. ''data: '' @ p @ [CHR 0x0A]) ps) @ rest) = map (\<lambda>p. ''data: '' @ p) ps @ sse_lines [] rest"
  using assms
proof (induction ps)
  case (Cons p ps)
  have "sse_lines [] ((''data: '' @ p) @ CHR 0x0A # (concat (map (\<lambda>p. ''data: '' @ p @ [CHR 0x0A]) ps) @ rest))
      = (''data: '' @ p) # sse_lines [] (concat (map (\<lambda>p. ''data: '' @ p @ [CHR 0x0A]) ps) @ rest)"
    using sse_lines_line [of "''data: '' @ p" "[]"] Cons.prems by simp
  then show ?case using Cons by simp
qed simp

lemma sse_events_parts: "sse_events buf (map (\<lambda>p. ''data: '' @ p) ps @ ls) = sse_events (buf @ ps) ls"
  by (induction ps arbitrary: buf) simp_all

text \<open>The log stream keeps the last 4000 lines in order, and a line without carriage returns is written as
  exactly one event whose data are its lines. A carriage return inside the line is passed through, and the
  browser takes it for the end of a line: a log line can then carry a second event of its author's making.\<close>

theorem log_stream_events:
  "buffered (written ps) = filter (\<lambda>l. l \<noteq> []) (let l = map (trim_right (CHR 0x0A)) ps in drop (length l - 4000) l)
   \<and> (CHR 0x0D \<in> set line \<or> sse_events [] (sse_lines [] (writeSSE line)) = [split_on (CHR 0x0A) line])
   \<and> sse_events [] (sse_lines [] (writeSSE (''a'' @ [CHR 0x0D, CHR 0x0D] @ ''data: b''))) = [[''a''], [''b'']]"
proof -
  have "sse_events [] (sse_lines [] (writeSSE line)) = [split_on (CHR 0x0A) line]" if cr: "CHR 0x0D \<notin> set line"
  proof -
    let ?ps = "split_on (CHR 0x0A) line"
    have ps: "CHR 0x0A \<notin> set p \<and> CHR 0x0D \<notin> set p" if "p \<in> set ?ps" for p
      using split_on_parts [OF that] cr by blast
    then have "writeSSE line = concat (map (\<lambda>p. ''data: '' @ p @ [CHR 0x0A]) ?ps) @ [CHR 0x0A]"
      unfolding writeSSE_def by (simp add: trim_right_id cong: map_cong)
    then have "sse_lines [] (writeSSE line) = map (\<lambda>p. ''data: '' @ p) ?ps @ [[]]"
      using sse_lines_parts [of ?ps "[CHR 0x0A]"] ps by (simp add: list_all_iff)
    moreover have "?ps \<noteq> []" using split_on_cons [of "CHR 0x0A" line] by auto
    ultimately show ?thesis using sse_events_parts [of "[]" ?ps "[[]]"] by simp
  qed
  moreover have "sse_events [] (sse_lines [] (writeSSE (''a'' @ [CHR 0x0D, CHR 0x0D] @ ''data: b''))) = [[''a''], [''b'']]"
    by code_simp
  ultimately show ?thesis by (auto simp: buffered_content content_written logRingSize_def)
qed

end
