(* ===== verification/Defaults.thy ===== *)
theory Defaults
  imports Runner_Compose
begin

text \<open>
  The phases the framework ships (pkg/ares/phase/defaults) and the key-generation variants
  (pkg/ares/phase/keygen): the state labels, the context keys, and each phase with its declarations and hooks.
  Most of the hooks do nothing in the source; \<open>bare_phase\<close> is that shape.
\<close>

section \<open>States and context keys\<close>

definition StateInviting :: session_state where
  "StateInviting = ''INVITING''"

definition StateLocked :: session_state where
  "StateLocked = ''LOCKED''"

definition StateKeygen :: session_state where
  "StateKeygen = ''KEYGEN''"

definition StateGossip :: session_state where
  "StateGossip = ''GOSSIP''"

definition StateVerifying :: session_state where
  "StateVerifying = ''VERIFYING''"

definition StateSubmitting :: session_state where
  "StateSubmitting = ''SUBMITTING''"

definition StateScoring :: session_state where
  "StateScoring = ''SCORING''"

definition StateDecrypting :: session_state where
  "StateDecrypting = ''DECRYPTING''"

definition StateBroadcasting :: session_state where
  "StateBroadcasting = ''BROADCASTING''"

definition StateClosed :: session_state where
  "StateClosed = ''CLOSED''"

lemmas state_labels = StateNone_def StateInviting_def StateLocked_def StateKeygen_def StateGossip_def StateVerifying_def
  StateSubmitting_def StateScoring_def StateDecrypting_def StateBroadcasting_def StateClosed_def

definition CtxParticipants :: string where
  "CtxParticipants = ''participants''"

definition CtxCryptoContract :: string where
  "CtxCryptoContract = ''crypto_ctx''"

definition CtxCollectivePublicKey :: string where
  "CtxCollectivePublicKey = ''collective_pk''"

definition CtxSecretShares :: string where
  "CtxSecretShares = ''secret_shares''"

definition CtxEvalKeys :: string where
  "CtxEvalKeys = ''eval_keys''"

definition CtxResultCiphertext :: string where
  "CtxResultCiphertext = ''result_ct''"

definition CtxResultBytes :: string where
  "CtxResultBytes = ''result_bytes''"

lemmas default_keys = CtxParticipants_def CtxCryptoContract_def CtxCollectivePublicKey_def CtxSecretShares_def
  CtxEvalKeys_def CtxResultCiphertext_def CtxResultBytes_def

section \<open>Shapes\<close>

text \<open>A schema entry as the source writes it: what it does not mention has its zero value.\<close>

definition provides :: "string \<Rightarrow> context_key_type" where
  "provides T = \<lparr>ck_TypeName = T, ck_Required = False, ck_Constraints = [], ck_NoLineage = False\<rparr>"

definition requires :: "string \<Rightarrow> context_key_type" where
  "requires T = \<lparr>ck_TypeName = T, ck_Required = True, ck_Constraints = [], ck_NoLineage = False\<rparr>"

definition with_constraints :: "(string, anyv) gomap \<Rightarrow> context_key_type \<Rightarrow> context_key_type" where
  "with_constraints cs k = k\<lparr>ck_Constraints := cs\<rparr>"

lemmas schema_shapes = provides_def requires_def with_constraints_def

text \<open>An inline per-session phase whose hooks return at once; \<open>fin\<close> is its \<open>CheckComplete\<close>.\<close>

definition bare_phase :: "string \<Rightarrow> session_state \<Rightarrow> session_state \<Rightarrow> bool \<Rightarrow> 's phase" where
  "bare_phase name entry exit fin =
     \<lparr>ph_Name = name, ph_Lifetime = LifetimePerSession, ph_RunsAt = RunsAtInline, ph_EntryState = entry,
      ph_ExitState = exit, ph_InternalStates = [], ph_ConsumedMessageTypes = [], ph_Requires = [],
      ph_Provides = [], ph_Enter = (\<lambda>c. (c, None)), ph_OnMessage = (\<lambda>mt from payload c. (c, None)),
      ph_CheckComplete = (\<lambda>c. fin), ph_Exit = (\<lambda>c. (c, None))\<rparr>"

section \<open>The default phases\<close>

definition Phase1aSessionInitiation :: "'s phase" where
  "Phase1aSessionInitiation = (bare_phase ''phase-1a-session-initiation'' StateInviting StateLocked True)
     \<lparr>ph_ConsumedMessageTypes := [''session.accept''],
      ph_Provides :=
        [(CtxParticipants, provides ''[]string''),
         (CtxCryptoContract, with_constraints
            [(''depth'', VInt KInt 30), (''ring_dim'', VInt KInt 4096), (''scaling_mod_size'', VInt KInt 50)]
            (provides ''OpenFHEContract''))]\<rparr>"

definition Phase0aThresholdKeygen :: "'s phase" where
  "Phase0aThresholdKeygen = (bare_phase ''phase-0a-threshold-keygen'' StateLocked StateGossip False)
     \<lparr>ph_InternalStates := [StateKeygen],
      ph_ConsumedMessageTypes := [''keygen.share'', ''keygen.eval_round1'', ''keygen.eval_share''],
      ph_Requires :=
        [(CtxParticipants, requires ''[]string''),
         (CtxCryptoContract, with_constraints [(''depth_min'', VInt KInt 4)] (requires ''OpenFHEContract''))],
      ph_Provides :=
        [(CtxCollectivePublicKey, with_constraints [(''topology'', VString ''threshold'')] (provides ''[]byte'')),
         (CtxSecretShares, with_constraints [(''topology'', VString ''threshold'')] (provides ''map[string][]byte'')),
         (CtxEvalKeys, provides ''OpenFHEEvalKeys'')]\<rparr>"

definition Phase0bRegistration :: "'s phase" where
  "Phase0bRegistration = (bare_phase ''phase-0b-registration'' StateNone StateNone True)
     \<lparr>ph_Lifetime := LifetimePersistent, ph_RunsAt := RunsAtRegistration,
      ph_Provides := [(''participant_identity'', provides ''ParticipantIdentity'')]\<rparr>"

definition Phase3ThresholdDecrypt :: "'s phase" where
  "Phase3ThresholdDecrypt = (bare_phase ''phase-3-threshold-decrypt'' StateDecrypting StateBroadcasting False)
     \<lparr>ph_ConsumedMessageTypes := [''decrypt.partial''],
      ph_Requires :=
        [(CtxParticipants, requires ''[]string''),
         (CtxSecretShares, with_constraints [(''topology'', VString ''threshold'')] (requires ''map[string][]byte'')),
         (CtxResultCiphertext, requires ''[]byte'')],
      ph_Provides := [(CtxResultBytes, provides ''[]byte'')]\<rparr>"

section \<open>Key-generation variants\<close>

definition SinglePartyKeygenPhase :: "'s phase" where
  "SinglePartyKeygenPhase = (bare_phase ''keygen-single-party'' StateLocked StateGossip True)
     \<lparr>ph_InternalStates := [StateKeygen],
      ph_Requires :=
        [(CtxParticipants, requires ''[]string''),
         (CtxCryptoContract, with_constraints [(''depth_min'', VInt KInt 4)] (requires ''OpenFHEContract''))],
      ph_Provides :=
        [(CtxCollectivePublicKey, provides ''[]byte''),
         (CtxSecretShares, with_constraints [(''topology'', VString ''single_party'')] (provides ''map[string][]byte'')),
         (CtxEvalKeys, provides ''OpenFHEEvalKeys'')]\<rparr>"

definition PlaintextKeygenPhase :: "'s phase" where
  "PlaintextKeygenPhase = (bare_phase ''keygen-plaintext'' StateLocked StateGossip True)
     \<lparr>ph_InternalStates := [StateKeygen],
      ph_Requires := [(CtxParticipants, requires ''[]string'')],
      ph_Provides :=
        [(CtxCollectivePublicKey, with_constraints [(''topology'', VString ''plaintext'')] (provides ''[]byte'')),
         (CtxSecretShares, with_constraints [(''topology'', VString ''plaintext'')] (provides ''[]byte'')),
         (CtxEvalKeys, provides ''OpenFHEEvalKeys'')]\<rparr>"

definition MissingContextError :: "string \<Rightarrow> string \<Rightarrow> string" where
  "MissingContextError key ph = ''phase: '' @ ph @ '' requires context key '' @ key @ '' which is not set''"

fun first_missing :: "'s sctx \<Rightarrow> string list \<Rightarrow> string option" where
  "first_missing c [] = None"
| "first_missing c (k # ks) = (if \<not> ctx_Has c k then Some k else first_missing c ks)"

definition PreSharedKeygen_Enter :: "'s hook" where
  "PreSharedKeygen_Enter c =
     (case first_missing c [CtxCollectivePublicKey, CtxSecretShares, CtxEvalKeys] of
        Some key \<Rightarrow> (c, Some (MissingContextError key ''keygen-preshared''))
      | None \<Rightarrow> (c, None))"

definition PreSharedKeygenPhase :: "'s phase" where
  "PreSharedKeygenPhase = (bare_phase ''keygen-preshared'' StateLocked StateGossip True)
     \<lparr>ph_Lifetime := LifetimePerCohort,
      ph_InternalStates := [StateKeygen],
      ph_Requires :=
        [(CtxParticipants, requires ''[]string''),
         (CtxCollectivePublicKey, requires ''[]byte''),
         (CtxSecretShares, with_constraints [(''topology'', VString ''threshold'')] (requires ''map[string][]byte'')),
         (CtxEvalKeys, requires ''OpenFHEEvalKeys'')],
      ph_Enter := PreSharedKeygen_Enter\<rparr>"

lemmas keygen_variants = SinglePartyKeygenPhase_def PlaintextKeygenPhase_def PreSharedKeygenPhase_def Phase0aThresholdKeygen_def

lemma PreSharedKeygen_Enter_ok:
  "snd (PreSharedKeygen_Enter c) = None
     \<longleftrightarrow> ctx_Has c CtxCollectivePublicKey \<and> ctx_Has c CtxSecretShares \<and> ctx_Has c CtxEvalKeys"
  by (simp add: PreSharedKeygen_Enter_def)

section \<open>Which variants threshold decryption accepts\<close>

text \<open>An application's scoring phase as the default pipeline expects it: it takes the session from GOSSIP to
  DECRYPTING and provides the result ciphertext.\<close>

definition scoring_phase :: "'s phase \<Rightarrow> bool" where
  "scoring_phase p \<longleftrightarrow> ph_RunsAt p = RunsAtInline \<and> ph_EntryState p = StateGossip \<and> ph_ExitState p = StateDecrypting
     \<and> ph_InternalStates p = [] \<and> ph_Requires p = [] \<and> ph_Provides p = [(CtxResultCiphertext, provides ''[]byte'')]
     \<and> ph_Name p \<notin> {[], ''phase-1a-session-initiation'', ''phase-0a-threshold-keygen'', ''keygen-single-party'',
          ''keygen-plaintext'', ''keygen-preshared'', ''phase-3-threshold-decrypt''}"

lemma depth_30: "atLeast (VInt KInt 30) (VInt KInt 4) = Some True"
  by code_simp

lemmas compose_eval = Let_def Compose_def new_runner_def bare_phase_def state_labels default_keys schema_shapes
  add_provides_def add_inline_def is_min_name_def depth_30 equalConstraint_def


definition demo_scoring :: "'s phase" where
  "demo_scoring = (bare_phase ''score'' StateGossip StateDecrypting True)\<lparr>ph_Provides := [(CtxResultCiphertext, provides ''[]byte'')]\<rparr>"


end
