(* ===== verification/Collecting.thy ===== *)
theory Collecting
  imports Session_Props Defaults
begin

text \<open>
  The shape most application phases share: messages are accumulated in one bucket of the session context by
  sender, and the phase is complete when the bucket holds as many senders as the session has participants.
  The locale states that shape once; the phases of the applications interpret it.
\<close>

text \<open>Reading the fields of a struct value.\<close>

definition as_int :: "anyv \<Rightarrow> int option" where
  "as_int v = (case v of VInt k i \<Rightarrow> Some i | _ \<Rightarrow> None)"

definition as_float :: "anyv \<Rightarrow> f64 option" where
  "as_float v = (case v of VFloat x \<Rightarrow> Some x | _ \<Rightarrow> None)"

definition field :: "(anyv \<Rightarrow> 't option) \<Rightarrow> string \<Rightarrow> (string \<times> anyv) list \<Rightarrow> 't option" where
  "field as_T name fs = Option.bind (map_of fs name) as_T"

lemmas value_reads = as_int_def as_float_def as_string_def as_struct_def as_map_of_def as_strings_def as_bytes_def as_bucket_def field_def

definition quorum_of :: "string \<Rightarrow> string \<Rightarrow> 's sctx \<Rightarrow> bool" where
  "quorum_of pkey bucket c =
     (case TryGet as_strings c pkey of
        None \<Rightarrow> False
      | Some participants \<Rightarrow> QuorumReached c bucket (int (length participants)))"

definition deliver :: "'s phase \<Rightarrow> string \<Rightarrow> (string \<times> bytes) list \<Rightarrow> 's sctx \<Rightarrow> 's sctx" where
  "deliver p mt msgs c = fold (\<lambda>(from, payload) c. fst (ph_OnMessage p mt from payload c)) msgs c"

locale collecting =
  fixes p :: "'s phase" and mt bucket pkey :: string
  assumes on_message: "ph_OnMessage p mt from payload c = (AccumulateMessage bucket from payload c, None)"
    and check_complete: "ph_CheckComplete p c = quorum_of pkey bucket c"
    and apart: "pkey \<noteq> bucket"
begin

lemma deliver_accumulates: "deliver p mt msgs c = accumulate_all bucket msgs c"
  by (simp add: deliver_def accumulate_all_def on_message)

lemma complete_iff:
  assumes "ctx_Get c bucket = None" "ctx_Get c pkey = Some (VStrings ps)"
  shows "ph_CheckComplete p (deliver p mt msgs c) \<longleftrightarrow> length ps \<le> card (fst ` set msgs)"
  using accumulator_quorum_of [OF assms(1), of msgs "int (length ps)" pkey] assms(2) apart
  by (simp add: check_complete quorum_of_def deliver_accumulates TryGet_def as_strings_def)

lemma collected:
  assumes "ctx_Get c bucket = None"
  shows "gomap_wf (AccumulatedMessages (deliver p mt msgs c) bucket)
    \<and> map_of (AccumulatedMessages (deliver p mt msgs c) bucket) = map_of (rev msgs)"
  using accumulate_all_spec [OF assms, of msgs] by (simp add: deliver_accumulates)

lemma elsewhere:
  assumes "ctx_Get c bucket = None" "key \<noteq> bucket"
  shows "ctx_Get (deliver p mt msgs c) key = ctx_Get c key"
  using accumulate_all_spec [OF assms(1), of msgs key] assms(2) by (simp add: deliver_accumulates)

lemma incomplete_without_participants:
  "ctx_Get c pkey = None \<Longrightarrow> \<not> ph_CheckComplete p c"
  by (simp add: check_complete quorum_of_def TryGet_def)

end

end
