(* ===== verification/App_Sessions.thy ===== *)
theory App_Sessions
  imports Collecting Runner_Inv
begin

text \<open>
  Driving an application's session through the runner, without lineage: what one hop does, and what a sequence of
  messages does to a session whose phase collects them.
\<close>

section \<open>Sessions in a phase\<close>

definition at_phase :: "'s runner \<Rightarrow> string \<Rightarrow> 's phase \<Rightarrow> 's sctx \<Rightarrow> bool" where
  "at_phase r sid p c \<longleftrightarrow> r_store r = None \<and> c_store c = None
     \<and> (\<exists>t. map_of (r_sessions r) sid = Some t \<and> t_current t = Some p \<and> t_state t = ph_EntryState p \<and> t_ctx t = c)"

definition finished_with :: "'s runner \<Rightarrow> string \<Rightarrow> 's sctx \<Rightarrow> bool" where
  "finished_with r sid c \<longleftrightarrow> r_store r = None
     \<and> (\<exists>t. map_of (r_sessions r) sid = Some t \<and> t_current t = None \<and> t_state t = StateNone \<and> t_ctx t = c)"

fun send_all :: "'s store_ops \<Rightarrow> int \<Rightarrow> string \<Rightarrow> string \<Rightarrow> (string \<times> bytes) list \<Rightarrow> 's runner \<Rightarrow> 's runner option" where
  "send_all ops now sid mt [] r = Some r"
| "send_all ops now sid mt ((from, payload) # msgs) r =
     (case HandleMessage ops now sid mt from payload r of
        None \<Rightarrow> None
      | Some (r', moved, err) \<Rightarrow> send_all ops now sid mt msgs r')"

lemma send_all_snoc:
  "send_all ops now sid mt (msgs @ [(from, payload)]) r =
     (case send_all ops now sid mt msgs r of
        None \<Rightarrow> None
      | Some r1 \<Rightarrow> map_option fst (HandleMessage ops now sid mt from payload r1))"
  by (induction msgs arbitrary: r) (auto split: option.split)

section \<open>Freshly composed pipelines\<close>

definition ready :: "'s phase list \<Rightarrow> 's runner \<Rightarrow> bool" where
  "ready phases r \<longleftrightarrow> r_store r = None \<and> r_sessions r = [] \<and> r_phases r = phases
     \<and> r_initialState r = ph_EntryState (hd phases)
     \<and> (\<forall>p\<in>set phases. map_of (r_byEntryState r) (ph_EntryState p) = Some p)"

lemma Compose_ready:
  assumes "Compose ff phases = Inr r" "list_all (\<lambda>p. ph_RunsAt p = RunsAtInline) phases"
  shows "ready phases r"
proof -
  have inl: "inlines phases = phases" using assms(2) by (induction phases) (auto simp: inlines_def)
  have "phases \<noteq> []" using assms(1) by (auto simp: Compose_def)
  obtain prev provided where inv: "compose_inv phases prev provided r" using Compose_inv [OF assms(1)] by blast
  then show ?thesis
    using Compose_composed [OF assms(1)] Compose_parts(3) [OF assms(1)] \<open>phases \<noteq> []\<close> inl
    by (auto simp: ready_def compose_inv_def)
qed

section \<open>Hops without lineage\<close>

lemma c_store_None: "c_store c = None \<Longrightarrow> c\<lparr>c_store := None\<rparr> = c"
  by (cases c) simp

lemma hop_quiet:
  assumes "c_store (t_ctx t) = None" "ph_Exit cur (t_ctx t) = (c1, None)" "c_store c1 = None" "ph_ExitState cur \<noteq> StateNone"
    "map_of (r_byEntryState r) (ph_ExitState cur) = Some nxt" "ph_Enter nxt c1 = (c2, None)" "c_store c2 = None"
  shows "hop ops now r None t cur =
    Entered None (t\<lparr>t_ctx := c2, t_state := ph_ExitState cur, t_current := Some nxt, t_entered := True\<rparr>) nxt"
  using assms by (simp add: hop_def run_hook_def commitPhaseOutputsIfEnabled_def c_store_None)

lemma hop_final:
  assumes "c_store (t_ctx t) = None" "ph_Exit cur (t_ctx t) = (c1, None)" "c_store c1 = None" "ph_ExitState cur = StateNone"
  shows "hop ops now r None t cur = Finished None (t\<lparr>t_ctx := c1\<rparr>)"
  using assms by (simp add: hop_def run_hook_def commitPhaseOutputsIfEnabled_def c_store_None)

lemma c_store_simps [simp]:
  "c_store (ctx_Set k v c) = c_store c" "c_store (AccumulateMessage b from payload c) = c_store c"
  by (simp_all add: ctx_Set_def AccumulateMessage_def ctx_Update_def Let_def)

lemma c_store_accumulate_all [simp]: "c_store (accumulate_all b msgs c) = c_store c"
  by (induction msgs rule: rev_induct) auto

section \<open>Starting and advancing\<close>

lemma begin_at_phase:
  assumes "ready phases r" "phases \<noteq> []" "sid \<noteq> []" "\<And>c. ph_Enter (hd phases) c = (c, None)"
  shows "\<exists>r1 c. BeginSession sid cohort r = (r1, Inr c) \<and> at_phase r1 sid (hd phases) c \<and> same_setup r r1 \<and> c_values c = [] \<and> c_SessionID c = sid"
proof -
  let ?c = "(NewSessionContext sid)\<lparr>c_CohortID := cohort, c_store := r_store r, c_signer := r_signer r\<rparr>"
  have r: "r_store r = None" "r_sessions r = []" "map_of (r_byEntryState r) (r_initialState r) = Some (hd phases)"
    "r_initialState r = ph_EntryState (hd phases)" using assms(1,2) by (auto simp: ready_def)
  have eq: "\<exists>r1. BeginSession sid cohort r = (r1, Inr ?c) \<and> at_phase r1 sid (hd phases) ?c \<and> same_setup r r1"
    using r assms(3,4)
    by (auto simp: BeginSession_def Let_def run_hook_def at_phase_def put_session_def gomap_simps same_setup_def NewSessionContext_def)
  then show ?thesis by (auto simp: NewSessionContext_def)
qed

text \<open>A walk from phase to phase, each with hooks that succeed.\<close>

fun quiet_path :: "'s runner \<Rightarrow> 's phase list \<Rightarrow> 's sctx \<Rightarrow> 's sctx \<Rightarrow> bool" where
  "quiet_path r [] c c' \<longleftrightarrow> False"
| "quiet_path r [p] c c' \<longleftrightarrow> c' = c"
| "quiet_path r (p # q # ps) c c' \<longleftrightarrow>
     (\<exists>c1 c2. ph_Exit p c = (c1, None) \<and> c_store c1 = None \<and> ph_ExitState p = ph_EntryState q \<and> ph_EntryState q \<noteq> StateNone
        \<and> map_of (r_byEntryState r) (ph_EntryState q) = Some q \<and> ph_Enter q c1 = (c2, None) \<and> c_store c2 = None
        \<and> quiet_path r (q # ps) c2 c')"

lemma walk_quiet:
  assumes "quiet_path r ps c c'" "t_ctx t = c" "c_store c = None" "t_current t = Some (hd ps)" "t_state t = ph_EntryState (hd ps)"
    "target \<notin> ph_EntryState ` set (butlast ps)" "ph_EntryState (last ps) = target" "length ps \<le> n"
  shows "\<exists>t'. walk_hops ops now sid target r n None t = (None, t', None)
    \<and> t_ctx t' = c' \<and> c_store c' = None \<and> t_current t' = Some (last ps) \<and> t_state t' = target"
  using assms
proof (induction r ps c c' arbitrary: t n rule: quiet_path.induct)
  case (2 r p c c')
  then show ?case by (cases n) (auto simp: walk_hops_hop)
next
  case (3 r p q ps c c')
  then obtain c1 c2 where h: "ph_Exit p c = (c1, None)" "c_store c1 = None" "ph_ExitState p = ph_EntryState q" "ph_EntryState q \<noteq> StateNone"
    "map_of (r_byEntryState r) (ph_EntryState q) = Some q" "ph_Enter q c1 = (c2, None)" "c_store c2 = None" "quiet_path r (q # ps) c2 c'"
    by auto
  obtain m where n: "n = Suc m" "length (q # ps) \<le> m" using 3(9) by (cases n) auto
  let ?t = "t\<lparr>t_ctx := c2, t_state := ph_ExitState p, t_current := Some q, t_entered := True\<rparr>"
  have "hop ops now r None t p = Entered None ?t q" by (rule hop_quiet) (use h 3(3,4) in simp_all)
  moreover have "t_state t \<noteq> target" using 3(6,7) by auto
  ultimately have "walk_hops ops now sid target r n None t = walk_hops ops now sid target r m None ?t"
    using 3(5) by (simp add: n walk_hops_hop)
  moreover have "\<exists>t'. walk_hops ops now sid target r m None ?t = (None, t', None)
    \<and> t_ctx t' = c' \<and> c_store c' = None \<and> t_current t' = Some (last (q # ps)) \<and> t_state t' = target"
    by (rule 3(1) [OF h(8)]) (use h 3(7,8) n(2) in \<open>auto split: if_splits\<close>)
  ultimately show ?case by simp
qed simp

lemma advance_at_phase:
  assumes "at_phase r sid p c" "quiet_path r (p # q # ps) c c'" "target \<notin> ph_EntryState ` set (butlast (p # q # ps))"
    "ph_EntryState (last (q # ps)) = target" "target \<notin> set (ph_InternalStates p)" "Suc (length ps) \<le> length (r_phases r)"
  shows "\<exists>r'. AdvanceToState ops now sid target r = (r', None) \<and> at_phase r' sid (last (q # ps)) c' \<and> same_setup r r'"
proof -
  obtain t where t: "map_of (r_sessions r) sid = Some t" "t_current t = Some p" "t_state t = ph_EntryState p" "t_ctx t = c"
    "r_store r = None" "c_store c = None" using assms(1) by (auto simp: at_phase_def)
  obtain t' where "walk_hops ops now sid target r (length (r_phases r) + 1) None t = (None, t', None)"
    "t_ctx t' = c'" "c_store c' = None" "t_current t' = Some (last (q # ps))" "t_state t' = target"
    using walk_quiet [OF assms(2) t(4,6), of target "length (r_phases r) + 1" ops now sid] t assms(3,4,6) by auto
  moreover have "t_state t \<noteq> target" using t(3) assms(3) by auto
  ultimately have "AdvanceToState ops now sid target r = (put_session sid None t' r, None)"
    using t assms(5) by (simp add: AdvanceToState_def)
  then show ?thesis
    using \<open>t_ctx t' = c'\<close> \<open>c_store c' = None\<close> \<open>t_current t' = Some (last (q # ps))\<close> \<open>t_state t' = target\<close> assms(4)
    by (auto simp: at_phase_def put_session_def gomap_simps intro: same_setup_def [THEN iffD2])
qed

text \<open>What \<open>advance\<close> does along a path: it passes the phases that need no message, and stops at the first that
  does or at the end of the pipeline.\<close>

definition passes :: "'s phase \<Rightarrow> bool" where
  "passes p \<longleftrightarrow> ph_ConsumedMessageTypes p = [] \<and> (\<forall>c. ph_CheckComplete p c)"

lemma advance_hop_quiet:
  assumes "quiet_path r (p # q # ps) c c'" "t_ctx t = c" "c_store c = None" "t_current t = Some p"
  obtains c2 t2 where "advance_hops ops now r (Suc n) None t =
      (if ph_ConsumedMessageTypes q \<noteq> [] \<or> \<not> ph_CheckComplete q c2 then Some (None, t2, True, None) else advance_hops ops now r n None t2)"
    "quiet_path r (q # ps) c2 c'" "t_ctx t2 = c2" "c_store c2 = None" "t_current t2 = Some q" "t_state t2 = ph_EntryState q"
proof -
  obtain c1 c2 where h: "ph_Exit p c = (c1, None)" "c_store c1 = None" "ph_ExitState p = ph_EntryState q" "ph_EntryState q \<noteq> StateNone"
    "map_of (r_byEntryState r) (ph_EntryState q) = Some q" "ph_Enter q c1 = (c2, None)" "c_store c2 = None" "quiet_path r (q # ps) c2 c'"
    using assms(1) by auto
  let ?t = "t\<lparr>t_ctx := c2, t_state := ph_ExitState p, t_current := Some q, t_entered := True\<rparr>"
  have "hop ops now r None t p = Entered None ?t q" by (rule hop_quiet) (use h assms(2,3) in simp_all)
  then have "advance_hops ops now r (Suc n) None t =
      (if ph_ConsumedMessageTypes q \<noteq> [] \<or> \<not> ph_CheckComplete q c2 then Some (None, ?t, True, None) else advance_hops ops now r n None ?t)"
    using assms(4) by (simp add: advance_hops_hop)
  then show ?thesis by (rule that) (use h in simp_all)
qed

lemma advance_finish:
  "quiet_path r ps c c' \<Longrightarrow> t_ctx t = c \<Longrightarrow> c_store c = None \<Longrightarrow> t_current t = Some (hd ps) \<Longrightarrow> list_all passes (tl ps) \<Longrightarrow>
   ph_ExitState (last ps) = StateNone \<Longrightarrow> ph_Exit (last ps) c' = (c'', None) \<Longrightarrow> c_store c'' = None \<Longrightarrow> length ps \<le> n \<Longrightarrow>
   \<exists>t'. advance_hops ops now r n None t = Some (None, t', True, None) \<and> t_ctx t' = c'' \<and> t_current t' = None \<and> t_state t' = StateNone"
proof (induction ps arbitrary: c t n)
  case (Cons p qs)
  obtain m where n: "n = Suc m" "length qs \<le> m" using Cons.prems(9) by (cases n) auto
  show ?case
  proof (cases qs)
    case Nil
    then have "c' = c" "hop ops now r None t p = Finished None (t\<lparr>t_ctx := c''\<rparr>)"
      using Cons.prems by (auto intro!: hop_final)
    then show ?thesis using Cons.prems(4) by (simp add: n advance_hops_hop)
  next
    case (Cons q ps)
    have path: "quiet_path r (p # q # ps) c c'" "t_current t = Some p" using Cons.prems(1,4) Cons by simp_all
    show ?thesis
    proof (rule advance_hop_quiet [OF path(1) Cons.prems(2,3) path(2), of ops now m])
      fix c2 t2
      assume step: "advance_hops ops now r (Suc m) None t =
          (if ph_ConsumedMessageTypes q \<noteq> [] \<or> \<not> ph_CheckComplete q c2 then Some (None, t2, True, None) else advance_hops ops now r m None t2)"
        and t2: "quiet_path r (q # ps) c2 c'" "t_ctx t2 = c2" "c_store c2 = None" "t_current t2 = Some q" "t_state t2 = ph_EntryState q"
      have "advance_hops ops now r n None t = advance_hops ops now r m None t2"
        using step Cons.prems(5) Cons n(1) by (auto simp: passes_def)
      then show ?thesis using Cons.IH [of c2 t2 m] t2 Cons.prems(5-8) Cons n(2) by simp
    qed
  qed
qed simp

lemma advance_enter:
  assumes "quiet_path r [p, q] c c'" "t_ctx t = c" "c_store c = None" "t_current t = Some p" "ph_ConsumedMessageTypes q \<noteq> [] \<or> \<not> ph_CheckComplete q c'"
  shows "\<exists>t'. advance ops now r None t = Some (None, t', True, None) \<and> t_ctx t' = c' \<and> c_store c' = None \<and> t_current t' = Some q
    \<and> t_state t' = ph_EntryState q"
proof (rule advance_hop_quiet [OF assms(1-4), of ops now "length (r_phases r)"])
  fix c2 t2
  assume step: "advance_hops ops now r (Suc (length (r_phases r))) None t =
      (if ph_ConsumedMessageTypes q \<noteq> [] \<or> \<not> ph_CheckComplete q c2 then Some (None, t2, True, None) else advance_hops ops now r (length (r_phases r)) None t2)"
    and t2: "quiet_path r [q] c2 c'" "t_ctx t2 = c2" "c_store c2 = None" "t_current t2 = Some q" "t_state t2 = ph_EntryState q"
  then show ?thesis using assms(5) by (auto simp: advance_def)
qed

section \<open>Collecting phases\<close>

context collecting
begin

lemma message_step:
  assumes "at_phase r sid p c" "phaseConsumes p mt"
  shows "\<exists>t. map_of (r_sessions r) sid = Some t \<and> t_current t = Some p \<and> t_state t = ph_EntryState p
    \<and> HandleMessage ops now sid mt from payload r =
        (let c' = AccumulateMessage bucket from payload c; t' = t\<lparr>t_ctx := c'\<rparr> in
         if \<not> quorum_of pkey bucket c' then Some (put_session sid None t' r, False, None)
         else map_option (\<lambda>(lin, t2, moved, e). (put_session sid lin t2 r, moved, e)) (advance ops now r None t'))"
proof -
  obtain t where t: "map_of (r_sessions r) sid = Some t" "t_current t = Some p" "t_state t = ph_EntryState p" "t_ctx t = c"
    "r_store r = None" "c_store c = None" using assms(1) by (auto simp: at_phase_def)
  then show ?thesis using assms(2)
    by (auto simp: HandleMessage_def run_hook_def c_store_None on_message check_complete Let_def split: option.split)
qed

lemma message_stays:
  assumes "at_phase r sid p c" "phaseConsumes p mt" "\<not> quorum_of pkey bucket (AccumulateMessage bucket from payload c)"
  shows "\<exists>r'. HandleMessage ops now sid mt from payload r = Some (r', False, None)
    \<and> at_phase r' sid p (AccumulateMessage bucket from payload c) \<and> same_setup r r'"
proof -
  obtain t where t: "map_of (r_sessions r) sid = Some t" "t_current t = Some p" "t_state t = ph_EntryState p"
    "HandleMessage ops now sid mt from payload r = Some (put_session sid None (t\<lparr>t_ctx := AccumulateMessage bucket from payload c\<rparr>) r, False, None)"
    using message_step [OF assms(1,2), of ops now "from" payload] assms(3) by (auto simp: Let_def)
  then have "same_setup r (put_session sid None (t\<lparr>t_ctx := AccumulateMessage bucket from payload c\<rparr>) r)"
    using HandleMessage_setup by blast
  then show ?thesis using t assms(1) by (auto simp: at_phase_def put_session_def gomap_simps)
qed

text \<open>Below the quorum a sequence of messages stays in the phase.\<close>

lemma below_quorum:
  assumes "at_phase r sid p c" "phaseConsumes p mt" "ctx_Get c bucket = None" "ctx_Get c pkey = Some (VStrings ps)"
  shows "card (fst ` set msgs) < length ps \<Longrightarrow>
    \<exists>r'. send_all ops now sid mt msgs r = Some r' \<and> at_phase r' sid p (accumulate_all bucket msgs c) \<and> same_setup r r'"
proof (induction msgs rule: rev_induct)
  case Nil
  then show ?case using assms(1) by (simp add: same_setup_intros)
next
  case (snoc m msgs)
  obtain f b where m: "m = (f, b)" by (cases m)
  have "card (fst ` set msgs) \<le> card (fst ` set (msgs @ [m]))" by (intro card_mono) auto
  then obtain r1 where r1: "send_all ops now sid mt msgs r = Some r1" "at_phase r1 sid p (accumulate_all bucket msgs c)" "same_setup r r1"
    using snoc by auto
  have "\<not> quorum_of pkey bucket (accumulate_all bucket (msgs @ [m]) c)"
    using complete_iff [OF assms(3,4), of "msgs @ [m]"] snoc.prems by (simp add: check_complete deliver_accumulates)
  then have "\<not> quorum_of pkey bucket (AccumulateMessage bucket f b (accumulate_all bucket msgs c))" by (simp add: m)
  from message_stays [OF r1(2) assms(2) this, of ops now] obtain r2 where
    "HandleMessage ops now sid mt f b r1 = Some (r2, False, None)"
    "at_phase r2 sid p (AccumulateMessage bucket f b (accumulate_all bucket msgs c))" "same_setup r1 r2" by blast
  then show ?case using r1 same_setup_trans by (auto simp: m send_all_snoc)
qed

lemma at_quorum:
  assumes "ctx_Get (c :: 's sctx) bucket = None" "ctx_Get c pkey = Some (VStrings ps)" "length ps \<le> card (fst ` set (msgs @ [(from, payload)]))"
  shows "quorum_of pkey bucket (AccumulateMessage bucket from payload (accumulate_all bucket msgs c))"
  using complete_iff [OF assms(1,2), of "msgs @ [(from, payload)]"] assms(3) by (simp add: check_complete deliver_accumulates)

end

end
