(* ===== verification/Onion.thy ===== *)
theory Onion
  imports Sha256 "HOL-Library.Multiset"
begin

text \<open>
  Slot anonymisation (pkg/ares/onion): the slot permutation drawn from a SHA-256 keystream
  (permutation.go), the ECIES envelope (ecies.go) and the onion construction (onion.go).

  The rejection sampling of \<open>intn\<close> is a loop without a bound: it is a partial function whose value is
  \<open>None\<close> when it runs forever. X25519, HKDF and AES-GCM are a record of functions; the random bytes an
  encryption draws are an argument.
\<close>

section \<open>The slot permutation\<close>

record seed_stream =
  ss_seed :: bytes
  ss_counter :: "64 word"
  ss_buf :: bytes
  ss_off :: nat

definition next_byte :: "seed_stream \<Rightarrow> seed_stream \<times> char" where
  "next_byte s =
     (let s1 = (if length (ss_buf s) \<le> ss_off s
                then s\<lparr>ss_counter := ss_counter s + 1, ss_buf := sha256 (ss_seed s @ be64 (ss_counter s)), ss_off := 0\<rparr>
                else s)
      in (s1\<lparr>ss_off := ss_off s1 + 1\<rparr>, ss_buf s1 ! ss_off s1))"

definition next_word :: "seed_stream \<Rightarrow> seed_stream \<times> w32" where
  "next_word s =
     (let (s1, a) = next_byte s; (s2, b) = next_byte s1; (s3, c) = next_byte s2; (s4, d) = next_byte s3
      in (s4, word_of_int (of_char a * 16777216 + of_char b * 65536 + of_char c * 256 + of_char d)))"

partial_function (option) draw :: "w32 \<Rightarrow> w32 \<Rightarrow> seed_stream \<Rightarrow> (seed_stream \<times> int) option" where
  "draw limit m s = (let (s', v) = next_word s in if v < limit then Some (s', uint (v mod m)) else draw limit m s')"

declare draw.simps [code]

definition draw_limit :: "int \<Rightarrow> w32" where
  "draw_limit m = (- 1 div word_of_int m) * word_of_int m"

definition intn :: "int \<Rightarrow> seed_stream \<Rightarrow> (seed_stream \<times> int) option" where
  "intn m s = (if m \<le> 1 then Some (s, 0) else draw (draw_limit m) (word_of_int m) s)"

fun shuffle_from :: "nat \<Rightarrow> seed_stream \<Rightarrow> int list \<Rightarrow> int list option" where
  "shuffle_from 0 s perm = Some perm"
| "shuffle_from (Suc i) s perm =
     (case intn (int (Suc i) + 1) s of
        None \<Rightarrow> None
      | Some (s', j) \<Rightarrow> shuffle_from i s' (perm[Suc i := perm ! nat j, nat j := perm ! Suc i]))"

definition SlotPermutation :: "bytes \<Rightarrow> nat \<Rightarrow> int list option" where
  "SlotPermutation seed n =
     shuffle_from (n - 1) \<lparr>ss_seed = seed, ss_counter = 0, ss_buf = [], ss_off = 0\<rparr> (map int [0..<n])"

lemma draw_bound:
  assumes "draw limit m s = Some y" "m \<noteq> 0"
  shows "0 \<le> snd y \<and> snd y < uint m"
proof -
  have pos: "0 < uint m" using assms(2) by (simp add: word_neq_0_conv flip: word_less_iff_unsigned [of 0 m, simplified])
  show ?thesis
    by (rule draw.raw_induct [where P = "\<lambda>_ m' _ y. 0 < uint m' \<longrightarrow> 0 \<le> snd y \<and> snd y < uint m'", OF _ assms(1), rule_format, OF _ pos])
       (auto simp: Let_def uint_mod split: prod.splits if_splits)
qed

lemma intn_bound:
  assumes "intn m s = Some (s', j)" "1 \<le> m" "m < 2 ^ 32"
  shows "0 \<le> j \<and> j < m"
proof (cases "m \<le> 1")
  case True
  then show ?thesis using assms by (simp add: intn_def)
next
  case False
  have u: "uint (word_of_int m :: w32) = m" using assms by (simp add: uint_word_of_int)
  then have "(word_of_int m :: w32) \<noteq> 0" using False by auto
  then show ?thesis using draw_bound [of "draw_limit m" "word_of_int m" s "(s', j)"] assms(1) False u by (simp add: intn_def)
qed

text \<open>A draw returns as soon as some word of the stream is below the limit.\<close>

lemma draw_returns:
  "snd (next_word (((\<lambda>s. fst (next_word s)) ^^ k) s)) < limit \<Longrightarrow> \<exists>r. draw limit m s = Some r"
proof (induction k arbitrary: s)
  case 0
  then show ?case by (subst draw.simps) (simp add: case_prod_beta Let_def)
next
  case (Suc k)
  then have "\<exists>r. draw limit m (fst (next_word s)) = Some r" using Suc.IH [of "fst (next_word s)"] by (simp only: funpow_Suc_right comp_def)
  then show ?case by (subst draw.simps) (simp add: case_prod_beta Let_def)
qed

lemma mset_exchange:
  "i < length xs \<Longrightarrow> j < length xs \<Longrightarrow> mset (xs[i := xs ! j, j := xs ! i]) = mset xs"
  by (metis mset_swap)

lemma shuffle_from_mset:
  "shuffle_from i s perm = Some perm' \<Longrightarrow> i < length perm \<Longrightarrow> length perm < 2 ^ 32 \<Longrightarrow> mset perm' = mset perm"
proof (induction i arbitrary: s perm)
  case (Suc i)
  then obtain s1 j where d: "intn (int (Suc i) + 1) s = Some (s1, j)"
    and r: "shuffle_from i s1 (perm[Suc i := perm ! nat j, nat j := perm ! Suc i]) = Some perm'"
    by (auto split: option.splits)
  have "0 \<le> j \<and> j < int (Suc i) + 1" by (rule intn_bound [OF d]) (use Suc.prems(2,3) in simp_all)
  then have j: "nat j < length perm" using Suc.prems(2) by linarith
  show ?case using Suc.IH [OF r] Suc.prems(2,3) mset_exchange [OF Suc.prems(2) j] by simp
qed simp


definition stream_start :: "bytes \<Rightarrow> seed_stream" where
  "stream_start seed = \<lparr>ss_seed = seed, ss_counter = 0, ss_buf = [], ss_off = 0\<rparr>"

definition stream_at :: "bytes \<Rightarrow> nat \<Rightarrow> seed_stream" where
  "stream_at seed k = ((\<lambda>s. fst (next_word s)) ^^ k) (stream_start seed)"

definition stream_word :: "bytes \<Rightarrow> nat \<Rightarrow> w32" where
  "stream_word seed k = snd (next_word (stream_at seed k))"

lemma stream_at_Suc: "fst (next_word (stream_at seed k)) = stream_at seed (Suc k)"
  by (simp add: stream_at_def)

lemma draw_stays:
  assumes "draw limit m s = Some y"
  shows "\<forall>k. s = stream_at seed k \<longrightarrow> (\<exists>k'. fst y = stream_at seed k')"
  by (rule draw.raw_induct [where P = "\<lambda>_ _ s y. \<forall>k. s = stream_at seed k \<longrightarrow> (\<exists>k'. fst y = stream_at seed k')", OF _ assms])
     (auto simp: Let_def case_prod_beta stream_at_Suc split: if_splits, blast)

lemma intn_stays:
  assumes "intn m (stream_at seed k) = Some (s', j)"
  shows "\<exists>k'. s' = stream_at seed k'"
  using assms draw_stays [of "draw_limit m" "word_of_int m" "stream_at seed k" "(s', j)" seed]
  by (auto simp: intn_def split: if_splits)

text \<open>The limit is the greatest multiple of \<open>m\<close> in range, and more than half of all words are below it.\<close>

lemma draw_limit_uint:
  assumes "2 \<le> m" "m < 2 ^ 32"
  shows "uint (draw_limit m) = (2 ^ 32 - 1) div m * m"
proof -
  have u: "uint (word_of_int m :: w32) = m" using assms by (simp add: uint_word_of_int)
  have "(2 ^ 32 - 1) div m * m \<le> (2 ^ 32 - 1 :: int)"
    using div_mult_mod_eq [of "2 ^ 32 - 1" m] pos_mod_sign [of m "2 ^ 32 - 1"] assms by linarith
  moreover have "0 \<le> (2 ^ 32 - 1) div m * m" using assms by (simp add: pos_imp_zdiv_nonneg_iff)
  ultimately show ?thesis using u by (simp add: draw_limit_def uint_word_ariths uint_div unsigned_minus_1_eq_mask mask_eq_exp_minus_1)
qed

lemma draw_limit_half:
  assumes "2 \<le> m" "m < 2 ^ 32"
  shows "2 ^ 31 \<le> uint (draw_limit m)"
proof -
  let ?M = "2 ^ 32 - 1 :: int"
  have q: "1 \<le> ?M div m" using zdiv_mono1 [of m ?M m] assms by simp
  have "?M = ?M div m * m + ?M mod m" by simp
  moreover have "?M mod m < m" using assms by simp
  moreover have "m \<le> ?M div m * m" using q assms by simp
  ultimately have "?M < 2 * (?M div m * m)" by linarith
  then show ?thesis using draw_limit_uint [OF assms] by simp
qed

lemma draw_None:
  assumes "draw limit m (stream_at seed k) = None"
  shows "\<forall>i\<ge>k. limit \<le> stream_word seed i"
proof (intro allI impI)
  fix i assume "k \<le> i"
  then have "stream_at seed i = ((\<lambda>s. fst (next_word s)) ^^ (i - k)) (stream_at seed k)"
    unfolding stream_at_def by (simp flip: funpow_add [THEN fun_cong, unfolded comp_def])
  then show "limit \<le> stream_word seed i"
    using draw_returns [of "i - k" "stream_at seed k" limit m] assms by (auto simp: stream_word_def not_less [symmetric])
qed

lemma shuffle_from_None:
  "shuffle_from i (stream_at seed k) perm = None \<Longrightarrow> int i + 1 < 2 ^ 32 \<Longrightarrow>
   \<exists>k'. \<forall>j\<ge>k'. 2 ^ 31 \<le> uint (stream_word seed j)"
proof (induction i arbitrary: k perm)
  case (Suc i)
  let ?m = "int (Suc i) + 1"
  show ?case
  proof (cases "intn ?m (stream_at seed k)")
    case None
    then have "\<forall>j\<ge>k. draw_limit ?m \<le> stream_word seed j" using draw_None by (auto simp: intn_def split: if_splits)
    moreover have "2 ^ 31 \<le> uint (draw_limit ?m)" by (rule draw_limit_half) (use Suc.prems in simp_all)
    ultimately show ?thesis unfolding word_le_def by (blast intro: order_trans)
  next
    case (Some r)
    then obtain s' j k' where r: "r = (s', j)" "s' = stream_at seed k'" by (metis intn_stays surj_pair)
    show ?thesis using Suc.IH [of k'] Suc.prems Some r by (auto split: option.splits)
  qed
qed simp

lemma SlotPermutation_mset:
  assumes "SlotPermutation seed n = Some perm" "int n < 2 ^ 32"
  shows "mset perm = mset (map int [0..<n])"
proof (cases n)
  case 0
  then show ?thesis using assms(1) by (simp add: SlotPermutation_def)
next
  case (Suc i)
  show ?thesis by (rule shuffle_from_mset [OF assms(1) [unfolded SlotPermutation_def]]) (use Suc assms(2) in auto)
qed

text \<open>C32. \<open>SlotPermutation\<close> of n slots (n below 2^32) returns a rearrangement of 0..n-1. The rejection sampling
  fails to return only when from some word on the top bit of every word of the keystream is set: every word
  below 2^31 is accepted, whatever the modulus.\<close>

theorem slot_permutation:
  assumes "int n < 2 ^ 32"
  shows "case SlotPermutation seed n of
           Some perm \<Rightarrow> mset perm = mset (map int [0..<n]) \<and> distinct perm \<and> set perm = {0..<int n}
         | None \<Rightarrow> \<exists>k. \<forall>i. 2 ^ 31 \<le> uint (stream_word seed (k + i))"
proof -
  have start: "SlotPermutation seed n = shuffle_from (n - 1) (stream_at seed 0) (map int [0..<n])"
    by (simp add: SlotPermutation_def stream_at_def stream_start_def)
  show ?thesis
  proof (cases "SlotPermutation seed n")
    case None
    then have "shuffle_from (n - 1) (stream_at seed 0) (map int [0..<n]) = None" using start by simp
    moreover have "int (n - 1) + 1 < 2 ^ 32" using assms by simp
    ultimately obtain k where "\<forall>j\<ge>k. 2 ^ 31 \<le> uint (stream_word seed j)" by (blast dest: shuffle_from_None)
    then have "\<forall>i. 2 ^ 31 \<le> uint (stream_word seed (k + i))" by (blast intro: le_add1)
    then show ?thesis unfolding None option.case by blast
  next
    case (Some perm)
    have m: "mset perm = mset (map int [0..<n])" by (rule SlotPermutation_mset [OF Some assms])
    have "set perm = {0..<int n}" using mset_eq_setD [OF m] by (simp add: image_int_atLeastLessThan)
    moreover have "distinct perm" using mset_eq_imp_distinct_iff [OF m] by (simp add: distinct_map)
    ultimately show ?thesis using m Some by simp
  qed
qed

lemma slot_permutation_witness:
  "case SlotPermutation ''seed'' 5 of
     Some perm \<Rightarrow> mset perm = mset (map int [0..<5]) \<and> distinct perm \<and> set perm = {0..<int 5}
   | None \<Rightarrow> \<exists>k. \<forall>i. 2 ^ 31 \<le> uint (stream_word ''seed'' (k + i))"
  by (rule slot_permutation) simp

text \<open>The rejection sampling of \<open>intn\<close> is unbiased: for every modulus m from 2 to 2^32-1, each remainder
  below m is the value of exactly (2^32-1) div m of the accepted 32-bit words.\<close>

theorem intn_unbiased:
  assumes "2 \<le> m" "m < 2 ^ 32" "0 \<le> r" "r < m"
  shows "card {v. v < draw_limit m \<and> uint (v mod (word_of_int m :: w32)) = r} = nat ((2 ^ 32 - 1) div m)"
proof -
  let ?q = "(2 ^ 32 - 1) div m" and ?A = "{v. v < draw_limit m \<and> uint (v mod (word_of_int m :: w32)) = r}"
  have u: "uint (word_of_int m :: w32) = m" using assms by (simp add: uint_word_of_int)
  have L: "uint (draw_limit m) = ?q * m" by (rule draw_limit_uint) (use assms in simp_all)
  have lt: "k * m + r < ?q * m" if "k < ?q" for k :: int
    using mult_right_mono [of "k + 1" ?q m] that assms by (simp add: algebra_simps)
  have top: "?q * m < 2 ^ 32" using uint_bounded [of "draw_limit m"] L by simp
  define f :: "int \<Rightarrow> w32" where "f k = word_of_int (k * m + r)" for k
  have val: "uint (f k) = k * m + r" if "0 \<le> k" "k < ?q" for k
  proof -
    have "0 \<le> k * m + r" "k * m + r < 2 ^ 32" using lt [OF that(2)] that(1) top assms by simp_all
    then show ?thesis unfolding f_def uint_word_of_int by simp
  qed
  have "bij_betw f {0..<?q} ?A"
  proof (rule bij_betw_byWitness [where f' = "\<lambda>v. uint v div m"])
    show "\<forall>k\<in>{0..<?q}. uint (f k) div m = k" using val assms by simp
    have "uint v div m * m + r = uint v" if "v \<in> ?A" for v
      using that u div_mult_mod_eq [of "uint v" m] by (simp add: uint_mod)
    then show "\<forall>v\<in>?A. f (uint v div m) = v" unfolding f_def by simp
    show "f ` {0..<?q} \<subseteq> ?A"
      using val lt L u assms by (auto simp: word_less_def uint_mod)
    have "uint v div m < ?q" if "v \<in> ?A" for v
    proof (rule ccontr)
      assume "\<not> uint v div m < ?q"
      then have "?q * m \<le> uint v div m * m" using assms(1) by (intro mult_right_mono) simp_all
      then have "?q * m \<le> uint v"
        using div_mult_mod_eq [of "uint v" m] pos_mod_sign [of m "uint v"] assms(1) by linarith
      then show False using that L by (simp add: word_less_def)
    qed
    then show "(\<lambda>v. uint v div m) ` ?A \<subseteq> {0..<?q}"
      using assms by (auto simp: pos_imp_zdiv_nonneg_iff)
  qed
  then show ?thesis using bij_betw_same_card by fastforce
qed

lemma intn_unbiased_witness:
  "card {v. v < draw_limit 3 \<and> uint (v mod (word_of_int 3 :: w32)) = 2} = 1431655765"
  using intn_unbiased [of 3 2] by simp

section \<open>The ECIES envelope\<close>

text \<open>The primitives: the X25519 public key of a private key, the shared secret (\<open>None\<close> when the Go library
  rejects the low-order result), HKDF-SHA256 with the info string, and AES-GCM sealing and opening.
  Keys are raw byte strings; the curve accepts exactly those of 32 bytes.\<close>

record primitives =
  x_pub :: "bytes \<Rightarrow> bytes"
  x_dh :: "bytes \<Rightarrow> bytes \<Rightarrow> bytes option"
  x_hkdf :: "bytes \<Rightarrow> string \<Rightarrow> bytes"
  x_seal :: "bytes \<Rightarrow> bytes \<Rightarrow> bytes \<Rightarrow> bytes"
  x_open :: "bytes \<Rightarrow> bytes \<Rightarrow> bytes \<Rightarrow> bytes option"

datatype onion_error =
    BadRecipientPub
  | BadRecipientPriv
  | BadEphemeralPub
  | EcdhFailed
  | EnvelopeTooShort
  | AeadOpen
  | SelfIndexRange int nat
  | WrapLayer nat onion_error
  | PeelItem nat onion_error
  | MemoUnmatched

definition x25519KeyLen :: nat where
  "x25519KeyLen = 32"

definition gcmNonceLen :: nat where
  "gcmNonceLen = 12"

definition hkdfInfo :: string where
  "hkdfInfo = ''ares_onion_v1''"

text \<open>A slot key is the private key drawn and its public key.\<close>

definition GenerateSlotKey :: "primitives \<Rightarrow> bytes \<Rightarrow> bytes \<times> bytes" where
  "GenerateSlotKey P k = (k, x_pub P k)"

definition deriveKey :: "primitives \<Rightarrow> bytes \<Rightarrow> bytes" where
  "deriveKey P shared = x_hkdf P shared hkdfInfo"

text \<open>The random source of one encryption gives the ephemeral private key and the nonce.\<close>

definition ECIESEncrypt :: "primitives \<Rightarrow> bytes \<times> bytes \<Rightarrow> bytes \<Rightarrow> bytes \<Rightarrow> onion_error + bytes" where
  "ECIESEncrypt P rnd recipientPub plaintext =
     (if length recipientPub \<noteq> x25519KeyLen then Inl BadRecipientPub
      else let (eph, nonce) = rnd in
        case x_dh P eph recipientPub of
          None \<Rightarrow> Inl EcdhFailed
        | Some shared \<Rightarrow> Inr (x_pub P eph @ nonce @ x_seal P (deriveKey P shared) nonce plaintext))"

definition ECIESDecrypt :: "primitives \<Rightarrow> bytes \<Rightarrow> bytes \<Rightarrow> onion_error + bytes" where
  "ECIESDecrypt P recipientPriv envelope =
     (if length envelope < x25519KeyLen + gcmNonceLen then Inl EnvelopeTooShort
      else if length recipientPriv \<noteq> x25519KeyLen then Inl BadRecipientPriv
      else let ephPub = take x25519KeyLen envelope;
               nonce = take gcmNonceLen (drop x25519KeyLen envelope);
               ct = drop (x25519KeyLen + gcmNonceLen) envelope in
        case x_dh P recipientPriv ephPub of
          None \<Rightarrow> Inl EcdhFailed
        | Some shared \<Rightarrow>
            (case x_open P (deriveKey P shared) nonce ct of None \<Rightarrow> Inl AeadOpen | Some pt \<Rightarrow> Inr pt))"

section \<open>The onion\<close>

fun wrap_layers :: "primitives \<Rightarrow> (nat \<Rightarrow> bytes \<times> bytes) \<Rightarrow> bytes list \<Rightarrow> int \<Rightarrow> nat \<Rightarrow> bytes \<Rightarrow> bytes option
    \<Rightarrow> onion_error + bytes \<times> bytes option" where
  "wrap_layers P rnd pubs selfIndex 0 data memo = Inr (data, memo)"
| "wrap_layers P rnd pubs selfIndex (Suc i) data memo =
     (case ECIESEncrypt P (rnd i) (pubs ! i) data of
        Inl e \<Rightarrow> Inl (WrapLayer i e)
      | Inr enc \<Rightarrow> wrap_layers P rnd pubs selfIndex i enc (if int i = selfIndex then Some enc else memo))"

definition BuildOnion :: "primitives \<Rightarrow> (nat \<Rightarrow> bytes \<times> bytes) \<Rightarrow> bytes \<Rightarrow> bytes list \<Rightarrow> int \<Rightarrow> onion_error + bytes \<times> bytes option" where
  "BuildOnion P rnd payload pubs selfIndex =
     (if selfIndex < 0 \<or> int (length pubs) \<le> selfIndex then Inl (SelfIndexRange selfIndex (length pubs))
      else wrap_layers P rnd pubs selfIndex (length pubs) payload None)"

fun peel_items :: "primitives \<Rightarrow> bytes \<Rightarrow> bytes option \<Rightarrow> nat \<Rightarrow> bytes list \<Rightarrow> int \<Rightarrow> onion_error + bytes list \<times> int" where
  "peel_items P myPriv selfMemo i [] own = Inr ([], own)"
| "peel_items P myPriv selfMemo i (o1 # os) own =
     (let own' = (if selfMemo = Some o1 then int i else own) in
      case ECIESDecrypt P myPriv o1 of
        Inl e \<Rightarrow> Inl (PeelItem i e)
      | Inr inner \<Rightarrow>
          (case peel_items P myPriv selfMemo (Suc i) os own' of
             Inl e \<Rightarrow> Inl e
           | Inr (peeled, ownIndex) \<Rightarrow> Inr (inner # peeled, ownIndex)))"

definition PeelBatch :: "primitives \<Rightarrow> bytes \<Rightarrow> bytes option \<Rightarrow> bytes list \<Rightarrow> onion_error + bytes list \<times> int" where
  "PeelBatch P myPriv selfMemo onions =
     (case peel_items P myPriv selfMemo 0 onions (- 1) of
        Inl e \<Rightarrow> Inl e
      | Inr (peeled, ownIndex) \<Rightarrow>
          if selfMemo \<noteq> None \<and> ownIndex < 0 then Inl MemoUnmatched else Inr (peeled, ownIndex))"

section \<open>What the primitives promise\<close>

text \<open>Public keys have 32 bytes, both sides of a key agreement compute the same secret, and opening what was
  sealed with the same key and nonce gives the plaintext.\<close>

definition primitives_ok :: "primitives \<Rightarrow> bool" where
  "primitives_ok P \<longleftrightarrow>
     (\<forall>k. length k = 32 \<longrightarrow> length (x_pub P k) = 32)
     \<and> (\<forall>a b. length a = 32 \<longrightarrow> length b = 32 \<longrightarrow> x_dh P a (x_pub P b) = x_dh P b (x_pub P a))
     \<and> (\<forall>a b. length a = 32 \<longrightarrow> length b = 32 \<longrightarrow> x_dh P a (x_pub P b) \<noteq> None)
     \<and> (\<forall>k n p. x_open P k n (x_seal P k n p) = Some p)"

definition fresh :: "bytes \<times> bytes \<Rightarrow> bool" where
  "fresh rnd \<longleftrightarrow> length (fst rnd) = 32 \<and> length (snd rnd) = 12"

lemma ecies_roundtrip:
  assumes "primitives_ok P" "fresh rnd" "length priv = 32"
  shows "\<exists>env. ECIESEncrypt P rnd (x_pub P priv) pt = Inr env \<and> ECIESDecrypt P priv env = Inr pt"
proof -
  obtain eph nonce where rnd: "rnd = (eph, nonce)" by (cases rnd)
  have len: "length eph = 32" "length nonce = 12" using assms(2) rnd by (simp_all add: fresh_def)
  have laws: "length (x_pub P priv) = 32" "length (x_pub P eph) = 32" "x_dh P eph (x_pub P priv) \<noteq> None"
    "x_dh P priv (x_pub P eph) = x_dh P eph (x_pub P priv)" "x_open P k n (x_seal P k n pt) = Some pt" for k n
    using assms(1,3) len by (auto simp: primitives_ok_def)
  then obtain sh where "x_dh P eph (x_pub P priv) = Some sh" by blast
  then show ?thesis
    using laws len rnd assms(3) by (simp add: ECIESEncrypt_def ECIESDecrypt_def x25519KeyLen_def gcmNonceLen_def)
qed

text \<open>An envelope of fewer than 44 bytes, and one the cipher does not open, is an error.\<close>

lemma ECIESDecrypt_short: "length env < 44 \<Longrightarrow> ECIESDecrypt P priv env = Inl EnvelopeTooShort"
  by (simp add: ECIESDecrypt_def x25519KeyLen_def gcmNonceLen_def)

section \<open>Layers\<close>

text \<open>The payload under \<open>d\<close> layers, those of the last \<open>d\<close> peelers.\<close>

fun layered :: "primitives \<Rightarrow> (nat \<Rightarrow> bytes \<times> bytes) \<Rightarrow> bytes list \<Rightarrow> bytes \<Rightarrow> nat \<Rightarrow> bytes" where
  "layered P rnd pubs payload 0 = payload"
| "layered P rnd pubs payload (Suc d) =
     (let i = length pubs - Suc d in projr (ECIESEncrypt P (rnd i) (pubs ! i) (layered P rnd pubs payload d)))"

lemma layered_step:
  assumes "primitives_ok P" "\<forall>i. fresh (rnd i)" "\<forall>k\<in>set privs. length k = 32" "i < length privs"
  shows "ECIESEncrypt P (rnd i) (x_pub P (privs ! i)) (layered P rnd (map (x_pub P) privs) payload (length privs - Suc i))
           = Inr (layered P rnd (map (x_pub P) privs) payload (length privs - i))
       \<and> ECIESDecrypt P (privs ! i) (layered P rnd (map (x_pub P) privs) payload (length privs - i))
           = Inr (layered P rnd (map (x_pub P) privs) payload (length privs - Suc i))"
proof -
  have d: "length privs - i = Suc (length privs - Suc i)" "length privs - Suc (length privs - Suc i) = i" using assms(4) by simp_all
  show ?thesis
    using ecies_roundtrip [OF assms(1), of "rnd i" "privs ! i" "layered P rnd (map (x_pub P) privs) payload (length privs - Suc i)"] assms(2-4) d
    by (auto simp: Let_def)
qed

lemma wrap_layers_layered:
  assumes "primitives_ok P" "\<forall>i. fresh (rnd i)" "\<forall>k\<in>set privs. length k = 32"
  shows "i \<le> length privs \<Longrightarrow>
    wrap_layers P rnd (map (x_pub P) privs) self i (layered P rnd (map (x_pub P) privs) payload (length privs - i)) memo
      = Inr (layered P rnd (map (x_pub P) privs) payload (length privs),
             if 0 \<le> self \<and> self < int i then Some (layered P rnd (map (x_pub P) privs) payload (length privs - nat self)) else memo)"
proof (induction i arbitrary: memo)
  case (Suc i)
  then have "i < length privs" by simp
  then show ?case using Suc.IH layered_step [OF assms \<open>i < length privs\<close>] by auto
qed auto

lemma BuildOnion_layered:
  assumes "primitives_ok P" "\<forall>i. fresh (rnd i)" "\<forall>k\<in>set privs. length k = 32" "self < length privs"
  shows "BuildOnion P rnd payload (map (x_pub P) privs) (int self)
           = Inr (layered P rnd (map (x_pub P) privs) payload (length privs),
                  Some (layered P rnd (map (x_pub P) privs) payload (length privs - self)))"
  using wrap_layers_layered [OF assms(1-3), of "length privs" "int self" payload None] assms(4) by (simp add: BuildOnion_def)

lemma peel_items_all:
  assumes "\<forall>x\<in>set os. ECIESDecrypt P priv x = Inr (f x)"
  shows "\<exists>own'. peel_items P priv memo i os own = Inr (map f os, own') \<and> (0 \<le> own \<or> memo \<in> Some ` set os \<longrightarrow> 0 \<le> own')
           \<and> (own' = own \<or> (int i \<le> own' \<and> own' < int (i + length os) \<and> memo = Some (os ! nat (own' - int i))))"
  using assms
proof (induction os arbitrary: i own)
  case (Cons x os)
  let ?own = "if memo = Some x then int i else own"
  obtain own' where r: "peel_items P priv memo (Suc i) os ?own = Inr (map f os, own')"
    "0 \<le> ?own \<or> memo \<in> Some ` set os \<longrightarrow> 0 \<le> own'"
    "own' = ?own \<or> (int (Suc i) \<le> own' \<and> own' < int (Suc i + length os) \<and> memo = Some (os ! nat (own' - int (Suc i))))"
    using Cons.IH [of "Suc i" ?own] Cons.prems by auto
  have "own' = own \<or> (int i \<le> own' \<and> own' < int (i + length (x # os)) \<and> memo = Some ((x # os) ! nat (own' - int i)))"
  proof (cases "own' = ?own")
    case True
    then show ?thesis by (auto split: if_splits)
  next
    case False
    then have c: "int (Suc i) \<le> own'" "own' < int (Suc i + length os)" "memo = Some (os ! nat (own' - int (Suc i)))" using r(3) by auto
    then have "nat (own' - int i) = Suc (nat (own' - int (Suc i)))" by simp
    then show ?thesis using c by simp
  qed
  moreover have "0 \<le> own \<or> memo \<in> Some ` set (x # os) \<longrightarrow> 0 \<le> own'" using r(2) by (auto split: if_splits)
  ultimately show ?case using r(1) Cons.prems by (auto simp: Let_def)
qed simp

text \<open>A batch that is fully addressed to the peeler and holds its own item is peeled completely.\<close>

lemma PeelBatch_all:
  assumes "\<forall>x\<in>set os. ECIESDecrypt P priv x = Inr (f x)" "m \<in> set os"
  shows "\<exists>own. PeelBatch P priv (Some m) os = Inr (map f os, int own) \<and> own < length os \<and> os ! own = m"
proof -
  obtain own where r: "peel_items P priv (Some m) 0 os (- 1) = Inr (map f os, own)" "0 \<le> own"
    "own = - 1 \<or> (0 \<le> own \<and> own < int (length os) \<and> Some m = Some (os ! nat own))"
    using peel_items_all [OF assms(1), of "Some m" 0 "- 1"] assms(2) by auto
  then have "nat own < length os" "os ! nat own = m" "own = int (nat own)" by auto
  then show ?thesis using r(1,2) by (intro exI [of _ "nat own"]) (simp add: PeelBatch_def)
qed

section \<open>A shuffle round trip\<close>

text \<open>The peelers take turns: each peels the batch it received and forwards it in an order of its choice.\<close>

fun mix :: "primitives \<Rightarrow> (nat \<Rightarrow> bytes list \<Rightarrow> bytes list) \<Rightarrow> (bytes \<times> bytes option) list \<Rightarrow> bytes list \<Rightarrow> onion_error + bytes list" where
  "mix P reorder [] batch = Inr batch"
| "mix P reorder ((priv, memo) # ps) batch =
     (case PeelBatch P priv memo batch of
        Inl e \<Rightarrow> Inl e
      | Inr (peeled, own) \<Rightarrow> mix P reorder ps (reorder (length ps) peeled))"

lemma mix_layers:
  assumes ok: "primitives_ok P" "\<forall>j i. fresh (rnd j i)" "\<forall>k\<in>set privs. length k = 32"
    and reorder: "\<forall>k xs. mset (reorder k xs) = mset xs"
    and n: "length payloads = length privs"
    and item: "item = (\<lambda>d j. layered P (rnd j) (map (x_pub P) privs) (payloads ! j) d)"
    and peelers: "peelers = map (\<lambda>j. (privs ! j, Some (item (length privs - j) j))) [0..<length privs]"
  shows "i \<le> length privs \<Longrightarrow> mset batch = mset (map (item (length privs - i)) [0..<length privs]) \<Longrightarrow>
    \<exists>out. mix P reorder (drop i peelers) batch = Inr out \<and> mset out = mset payloads"
proof (induction "length privs - i" arbitrary: i batch)
  case 0
  then have "i = length privs" by simp
  moreover have "map (item 0) [0..<length privs] = payloads" unfolding item n [symmetric] layered.simps by (rule map_nth)
  ultimately show ?case using 0 by (simp add: peelers)
next
  case (Suc d)
  let ?f = "\<lambda>x. projr (ECIESDecrypt P (privs ! i) x)"
  have i: "i < length privs" using Suc.hyps(2) by simp
  have dec: "ECIESDecrypt P (privs ! i) (item (length privs - i) j) = Inr (item (length privs - Suc i) j)" for j
    using layered_step [OF ok(1) _ ok(3) i] ok(2) by (simp add: item)
  have set: "set batch = item (length privs - i) ` {..<length privs}"
    using mset_eq_setD [OF Suc.prems(2)] by (simp add: atLeast0LessThan)
  obtain own where peel: "PeelBatch P (privs ! i) (Some (item (length privs - i) i)) batch = Inr (map ?f batch, own)"
    using PeelBatch_all [of batch P "privs ! i" ?f "item (length privs - i) i"] dec i unfolding set by auto
  have "mset (map ?f batch) = mset (map (item (length privs - Suc i)) [0..<length privs])"
    using arg_cong [OF Suc.prems(2), of "image_mset ?f"] by (simp add: multiset.map_comp comp_def dec)
  then have "\<exists>out. mix P reorder (drop (Suc i) peelers) (reorder (length (drop (Suc i) peelers)) (map ?f batch)) = Inr out \<and> mset out = mset payloads"
    using Suc.hyps i reorder by simp
  moreover have "drop i peelers = (privs ! i, Some (item (length privs - i) i)) # drop (Suc i) peelers"
    using i by (subst Cons_nth_drop_Suc [symmetric]) (simp_all add: peelers)
  ultimately show ?case using peel by simp
qed

text \<open>C29. The onion shuffle delivers every payload: when each of n participants wraps its payload for the same peel
  order, its own layer included, and the peelers in turn peel the batch and forward it in any order, every
  peeler recognises its own item, no peel fails, and the final batch is a rearrangement of the payloads.
  The primitives are assumed to agree on shared secrets and to open what they sealed.\<close>

theorem onion_mix:
  assumes "primitives_ok P" "\<forall>j i. fresh (rnd j i)" "\<forall>k\<in>set privs. length k = 32"
    and "\<forall>k xs. mset (reorder k xs) = mset xs"
    and "length payloads = length privs"
  shows "\<exists>onions memos out.
      map (\<lambda>j. BuildOnion P (rnd j) (payloads ! j) (map (x_pub P) privs) (int j)) [0..<length privs]
        = map Inr (zip onions (map Some memos))
      \<and> length onions = length privs \<and> length memos = length privs
      \<and> mix P reorder (zip privs (map Some memos)) onions = Inr out \<and> mset out = mset payloads"
proof -
  define item where "item = (\<lambda>d j. layered P (rnd j) (map (x_pub P) privs) (payloads ! j) d)"
  let ?n = "length privs"
  let ?onions = "map (item ?n) [0..<?n]" and ?memos = "map (\<lambda>j. item (?n - j) j) [0..<?n]"
  let ?peelers = "map (\<lambda>j. (privs ! j, Some (item (?n - j) j))) [0..<?n]"
  have "map (\<lambda>j. BuildOnion P (rnd j) (payloads ! j) (map (x_pub P) privs) (int j)) [0..<?n] = map Inr (zip ?onions (map Some ?memos))"
    using BuildOnion_layered [OF assms(1) _ assms(3)] assms(2) by (auto simp: item_def intro!: nth_equalityI)
  moreover have "zip privs (map Some ?memos) = ?peelers" by (auto intro!: nth_equalityI)
  moreover obtain out where "mix P reorder (drop 0 ?peelers) ?onions = Inr out" "mset out = mset payloads"
    using mix_layers [OF assms item_def refl, of 0 ?onions] by auto
  ultimately have "map (\<lambda>j. BuildOnion P (rnd j) (payloads ! j) (map (x_pub P) privs) (int j)) [0..<?n] = map Inr (zip ?onions (map Some ?memos))
      \<and> length ?onions = ?n \<and> length ?memos = ?n
      \<and> mix P reorder (zip privs (map Some ?memos)) ?onions = Inr out \<and> mset out = mset payloads"
    by simp
  then show ?thesis by blast
qed

definition demo_primitives :: primitives where
  "demo_primitives = \<lparr>x_pub = (\<lambda>k. k), x_dh = (\<lambda>a b. Some (map2 (\<lambda>x y. char_of (of_char x + of_char y :: nat)) a b)),
     x_hkdf = (\<lambda>s info. s @ info), x_seal = (\<lambda>k n p. p @ take 16 k),
     x_open = (\<lambda>k n c. if drop (length c - length (take 16 k)) c = take 16 k then Some (take (length c - length (take 16 k)) c) else None)\<rparr>"

lemma demo_primitives_ok: "primitives_ok demo_primitives"
proof -
  have comm: "map2 (\<lambda>x y. char_of (of_char x + of_char y :: nat)) a b
      = map2 (\<lambda>x y. char_of (of_char x + of_char y :: nat)) b (a :: bytes)" for a b
    by (subst zip_commute) (simp add: comp_def case_prod_beta add.commute)
  show ?thesis unfolding primitives_ok_def demo_primitives_def by (auto simp: comm)
qed

lemma onion_mix_witness:
  "\<exists>onions memos out.
      map (\<lambda>j. BuildOnion demo_primitives (\<lambda>_. (replicate 32 CHR ''e'', replicate 12 CHR ''n'')) ([''one'', ''two''] ! j)
        (map (x_pub demo_primitives) [replicate 32 CHR ''a'', replicate 32 CHR ''b'']) (int j)) [0..<2]
        = map Inr (zip onions (map Some memos))
      \<and> length onions = 2 \<and> length memos = 2
      \<and> mix demo_primitives (\<lambda>_. rev) (zip [replicate 32 CHR ''a'', replicate 32 CHR ''b''] (map Some memos)) onions = Inr out
      \<and> mset out = mset [''one'', ''two'']"
  using onion_mix [of demo_primitives "\<lambda>_ _. (replicate 32 CHR ''e'', replicate 12 CHR ''n'')"
      "[replicate 32 CHR ''a'', replicate 32 CHR ''b'']" "\<lambda>_. rev" "[''one'', ''two'']"] demo_primitives_ok
  by (simp add: fresh_def numeral_2_eq_2)

end
