(* ===== verification/Anon.thy ===== *)
theory Anon
  imports App_Sessions Onion Codec
begin

text \<open>
  The anonymisation phases (pkg/ares/phase/anon): a participant's shuffle state (participant.go), the phase that
  counts the peel rounds (shuffle.go) and the phase that assembles the slot list (verify.go).

  The JSON text of a slot entry and of the assembled list is given by a record of functions; the list a map is
  represented by is the order in which the code happens to iterate over it.
\<close>

section \<open>Keys, messages and buckets\<close>

definition anon_CtxParticipants :: string where
  "anon_CtxParticipants = ''anon.participants''"

definition CtxPeelRounds :: string where
  "CtxPeelRounds = ''anon.peel_rounds''"

definition CtxAssembledSlotList :: string where
  "CtxAssembledSlotList = ''anon.assembled_slot_list''"

definition RoleSlotSubmission :: string where
  "RoleSlotSubmission = ''slot-submission''"

definition MsgOnionBatch :: string where
  "MsgOnionBatch = ''onion.batch''"

definition MsgPeelForward :: string where
  "MsgPeelForward = ''onion.peel_forward''"

definition MsgSlotSubmit :: string where
  "MsgSlotSubmit = ''slot.submit''"

definition bucketOnions :: string where
  "bucketOnions = ''anon.bucket.onions''"

definition bucketPeels :: string where
  "bucketPeels = ''anon.bucket.peels''"

definition bucketSlots :: string where
  "bucketSlots = ''anon.bucket.slots''"

lemmas anon_names = anon_CtxParticipants_def CtxPeelRounds_def CtxAssembledSlotList_def RoleSlotSubmission_def
  MsgOnionBatch_def MsgPeelForward_def MsgSlotSubmit_def bucketOnions_def bucketPeels_def bucketSlots_def

definition AccumulatedOnions :: "'s sctx \<Rightarrow> (string, bytes) gomap" where
  "AccumulatedOnions c = AccumulatedMessages c bucketOnions"

section \<open>Slot entries\<close>

record slot_entry =
  se_SlotIndex :: int
  se_SlotDKPubHex :: string

record slot_codec =
  sc_entry :: "slot_entry \<Rightarrow> bytes"
  sc_decode :: "bytes \<Rightarrow> string + slot_entry"
  sc_list :: "slot_entry list \<Rightarrow> bytes"

section \<open>A participant\<close>

record participant =
  pt_SlotIndex :: int
  pt_SlotPub :: bytes
  pt_slotPriv :: bytes
  pt_sigSigner :: signer

text \<open>\<open>key\<close> and \<open>sig\<close> are the slot key and the signer drawn; \<open>None\<close> is the panic on an index outside the
  permutation (or a permutation that never comes).\<close>

definition NewParticipant :: "primitives \<Rightarrow> bytes \<Rightarrow> signer \<Rightarrow> bytes \<Rightarrow> nat \<Rightarrow> int \<Rightarrow> participant option" where
  "NewParticipant P key sig seed n selfIndex =
     (let (priv, pub) = GenerateSlotKey P key in
      case SlotPermutation seed n of
        None \<Rightarrow> None
      | Some perm \<Rightarrow>
          if selfIndex < 0 \<or> int (length perm) \<le> selfIndex then None
          else Some \<lparr>pt_SlotIndex = perm ! nat selfIndex, pt_SlotPub = pub, pt_slotPriv = priv, pt_sigSigner = sig\<rparr>)"

definition entry_of :: "participant \<Rightarrow> slot_entry" where
  "entry_of p = \<lparr>se_SlotIndex = pt_SlotIndex p, se_SlotDKPubHex = hex_encode (pt_SlotPub p)\<rparr>"

definition slot_payload :: "slot_codec \<Rightarrow> participant \<Rightarrow> bytes" where
  "slot_payload sc p = sc_entry sc (entry_of p)"

definition pt_BuildOnion :: "primitives \<Rightarrow> slot_codec \<Rightarrow> (nat \<Rightarrow> bytes \<times> bytes) \<Rightarrow> bytes list \<Rightarrow> int \<Rightarrow> participant
    \<Rightarrow> onion_error + bytes \<times> bytes option" where
  "pt_BuildOnion P sc draws peelOrderPubs selfPeelIndex p = BuildOnion P draws (slot_payload sc p) peelOrderPubs selfPeelIndex"

definition Peel :: "primitives \<Rightarrow> bytes option \<Rightarrow> bytes list \<Rightarrow> participant \<Rightarrow> onion_error + bytes list \<times> int" where
  "Peel P selfMemo onions p = PeelBatch P (pt_slotPriv p) selfMemo onions"

definition SlotSubmission :: "slot_codec \<Rightarrow> int \<Rightarrow> string \<Rightarrow> participant \<Rightarrow> string + bytes \<times> dag_node" where
  "SlotSubmission sc now sessionID p =
     (let payload = slot_payload sc p in
      case Commit now sessionID ''anon-g-verify'' RoleSlotSubmission payload [] (Some (pt_sigSigner p)) of
        Inl e \<Rightarrow> Inl (''anon: sign submission: '' @ e)
      | Inr node \<Rightarrow> Inr (payload, node))"

section \<open>The shuffle phase\<close>

definition GShuffle_OnMessage :: "string \<Rightarrow> string \<Rightarrow> bytes \<Rightarrow> 's hook" where
  "GShuffle_OnMessage msgType from payload c =
     (if msgType = MsgOnionBatch then (AccumulateMessage bucketOnions from payload c, None)
      else if msgType = MsgPeelForward then (AccumulateMessage bucketPeels from payload c, None)
      else (c, None))"

definition GShuffle_Exit :: "'s hook" where
  "GShuffle_Exit c = (ctx_Set CtxPeelRounds (VInt KInt (int (length (AccumulatedMessages c bucketPeels)))) c, None)"

definition PhaseGShuffle :: "'s phase" where
  "PhaseGShuffle = (bare_phase ''anon-g-shuffle'' StateGossip StateVerifying False)
     \<lparr>ph_ConsumedMessageTypes := [MsgOnionBatch, MsgPeelForward],
      ph_Requires := [(anon_CtxParticipants, requires ''[]string'')],
      ph_Provides := [(CtxPeelRounds, provides ''int'')],
      ph_OnMessage := GShuffle_OnMessage,
      ph_CheckComplete := quorum_of anon_CtxParticipants bucketPeels,
      ph_Exit := GShuffle_Exit\<rparr>"

section \<open>The verification phase\<close>

fun slot_entries :: "slot_codec \<Rightarrow> int list \<Rightarrow> (string \<times> bytes) list \<Rightarrow> string + slot_entry list" where
  "slot_entries sc seen [] = Inr []"
| "slot_entries sc seen ((sender, payload) # raw) =
     (case sc_decode sc payload of
        Inl e \<Rightarrow> Inl (''anon: decode slot submission from '' @ sender @ '': '' @ e)
      | Inr entry \<Rightarrow>
          if List.member seen (se_SlotIndex entry) then Inl (''anon: duplicate slot index '' @ itoa (se_SlotIndex entry))
          else (case slot_entries sc (se_SlotIndex entry # seen) raw of
                  Inl e \<Rightarrow> Inl e
                | Inr entries \<Rightarrow> Inr (entry # entries)))"

definition GVerify_Exit :: "'s store_ops \<Rightarrow> slot_codec \<Rightarrow> (rerror \<Rightarrow> string) \<Rightarrow> int \<Rightarrow> 's hook" where
  "GVerify_Exit ops sc etext now c =
     (case slot_entries sc [] (AccumulatedMessages c bucketSlots) of
        Inl e \<Rightarrow> (c, Some e)
      | Inr entries \<Rightarrow>
          (let encoded = sc_list sc (sort_key se_SlotIndex entries);
               c1 = ctx_Set CtxAssembledSlotList (VBytes encoded) c;
               parents = filter (\<lambda>n. d_Role n = RoleSlotSubmission) (LineageDAG ops c1);
               (c2, res) = CommitArtifact ops now ''anon-g-verify'' CtxAssembledSlotList encoded parents c1
           in case res of
                Inr node \<Rightarrow> (c2, None)
              | Inl (Wrapped ErrPermanent why) \<Rightarrow> (c2, None)
              | Inl e \<Rightarrow> (c2, Some (''anon: commit assembled slot list: '' @ etext e))))"

definition PhaseGVerify :: "'s store_ops \<Rightarrow> slot_codec \<Rightarrow> (rerror \<Rightarrow> string) \<Rightarrow> int \<Rightarrow> session_state \<Rightarrow> 's phase" where
  "PhaseGVerify ops sc etext now exitState = (bare_phase ''anon-g-verify'' StateVerifying exitState False)
     \<lparr>ph_ConsumedMessageTypes := [MsgSlotSubmit],
      ph_Requires := [(anon_CtxParticipants, requires ''[]string'')],
      ph_Provides := [(CtxAssembledSlotList, (provides ''[]byte'')\<lparr>ck_NoLineage := True\<rparr>)],
      ph_OnMessage := (\<lambda>mt from payload c. (AccumulateMessage bucketSlots from payload c, None)),
      ph_CheckComplete := quorum_of anon_CtxParticipants bucketSlots,
      ph_Exit := GVerify_Exit ops sc etext now\<rparr>"

interpretation shuffle: collecting PhaseGShuffle MsgPeelForward bucketPeels anon_CtxParticipants
  by unfold_locales (simp_all add: PhaseGShuffle_def bare_phase_def GShuffle_OnMessage_def anon_names)

interpretation verify: collecting "PhaseGVerify ops sc etext now exit" MsgSlotSubmit bucketSlots anon_CtxParticipants
  by unfold_locales (simp_all add: PhaseGVerify_def bare_phase_def anon_names)

section \<open>Assembling the slot list\<close>

lemma GVerify_Exit_hook: "ph_Exit (PhaseGVerify ops sc etext now exit) = GVerify_Exit ops sc etext now"
  by (simp add: PhaseGVerify_def)

lemma slot_entries_Inr:
  "slot_entries sc seen raw = Inr entries \<longleftrightarrow>
     map (sc_decode sc \<circ> snd) raw = map Inr entries \<and> distinct (map se_SlotIndex entries)
     \<and> set seen \<inter> set (map se_SlotIndex entries) = {}"
proof (induction raw arbitrary: seen entries)
  case (Cons m raw)
  obtain sender payload where m: "m = (sender, payload)" by (cases m)
  show ?case
  proof (cases entries)
    case (Cons e es)
    show ?thesis using Cons.IH [of "se_SlotIndex e # seen" es] by (auto simp: m Cons split: sum.splits)
  qed (auto simp: m split: sum.splits)
qed auto

lemma sorted_slots:
  "map se_SlotIndex (sort_key se_SlotIndex entries) = sort (map se_SlotIndex entries)"
  by (rule properties_for_sort [symmetric]) simp_all

lemma CommitArtifact_values:
  "c_values (fst (CommitArtifact ops now ph role payload parents c)) = c_values c"
  by (auto simp: CommitArtifact_def Let_def split: option.splits sum.splits prod.splits store_error.splits)

text \<open>The exit hook writes the sorted list; only the commit to a lineage store can still fail.\<close>

lemma GVerify_Exit_list:
  assumes "slot_entries sc [] (AccumulatedMessages c bucketSlots) = Inr entries"
  shows "ctx_Get (fst (GVerify_Exit ops sc etext now c)) CtxAssembledSlotList = Some (VBytes (sc_list sc (sort_key se_SlotIndex entries)))
    \<and> (c_store c = None \<longrightarrow> snd (GVerify_Exit ops sc etext now c) = None)"
proof -
  let ?enc = "sc_list sc (sort_key se_SlotIndex entries)"
  let ?c1 = "ctx_Set CtxAssembledSlotList (VBytes ?enc) c"
  let ?commit = "CommitArtifact ops now ''anon-g-verify'' CtxAssembledSlotList ?enc (filter (\<lambda>n. d_Role n = RoleSlotSubmission) (LineageDAG ops ?c1)) ?c1"
  have "fst (GVerify_Exit ops sc etext now c) = fst ?commit"
    using assms by (simp add: GVerify_Exit_def Let_def case_prod_beta split: sum.split rerror.split sentinel.split)
  then have "ctx_Get (fst (GVerify_Exit ops sc etext now c)) CtxAssembledSlotList = ctx_Get ?c1 CtxAssembledSlotList"
    by (simp only: ctx_Get_def CommitArtifact_values)
  moreover have "snd (GVerify_Exit ops sc etext now c) = None" if "c_store c = None"
  proof -
    have "?commit = (?c1, Inl (Wrapped ErrPermanent LineageDisabled))" using that by (simp add: CommitArtifact_def ctx_Set_def)
    then show ?thesis using assms by (simp add: GVerify_Exit_def Let_def)
  qed
  ultimately show ?thesis by (simp add: ctx_Get_Set)
qed

lemma wf_same_map_mset:
  assumes "gomap_wf m" "distinct (map fst xs)" "map_of m = map_of (rev xs)"
  shows "mset m = mset xs"
proof -
  have d: "distinct (map fst (rev xs))" using assms(2) by (simp flip: rev_map)
  have "(k, v) \<in> set m \<longleftrightarrow> (k, v) \<in> set xs" for k v
    using map_of_eq_Some_iff [OF assms(1), of k v] map_of_eq_Some_iff [OF d, of k v] assms(3) by (metis set_rev)
  then have "set m = set xs" by auto
  moreover have "distinct m" "distinct xs" using assms(1,2) by (auto simp: distinct_map)
  ultimately show ?thesis by (simp add: set_eq_iff_mset_eq_distinct)
qed

lemma slots_of_permutation:
  assumes "SlotPermutation seed n = Some perm" "mset perm = mset (map int [0..<n])" "length pts = n"
    and "\<forall>j<n. NewParticipant P (slotkeys j) (sigs j) seed n (int j) = Some (pts ! j)"
  shows "map pt_SlotIndex pts = perm"
proof (rule nth_equalityI)
  have len: "length perm = n" using arg_cong [OF assms(2), of size] by simp
  then show "length (map pt_SlotIndex pts) = length perm" using assms(3) by simp
  fix j assume "j < length (map pt_SlotIndex pts)"
  then show "map pt_SlotIndex pts ! j = perm ! j"
    using assms(1,3) len assms(4) [rule_format, of j] by (auto simp: NewParticipant_def Let_def GenerateSlotKey_def dest: arg_cong [of _ _ pt_SlotIndex])
qed


definition demo_codec :: slot_codec where
  "demo_codec = \<lparr>sc_entry = (\<lambda>e. (if se_SlotIndex e < 0 then CHR ''-'' else CHR ''+'') # replicate (nat \<bar>se_SlotIndex e\<bar>) CHR ''i'' @ CHR '':'' # se_SlotDKPubHex e),
     sc_decode = (\<lambda>b. let m = int (length (takeWhile (\<lambda>x. x = CHR ''i'') (tl b))) in
        Inr \<lparr>se_SlotIndex = (if hd b = CHR ''-'' then - m else m), se_SlotDKPubHex = tl (dropWhile (\<lambda>x. x = CHR ''i'') (tl b))\<rparr>),
     sc_list = (\<lambda>es. concat (map se_SlotDKPubHex es))\<rparr>"

lemma demo_codec_ok: "sc_decode demo_codec (sc_entry demo_codec e) = Inr e"
  by (cases e) (simp add: demo_codec_def Let_def takeWhile_append dropWhile_append)

definition demo_sig :: signer where
  "demo_sig = \<lparr>sg_Sign = (\<lambda>m. Inr m), sg_Verify = (\<lambda>k m s. if s = m then None else Some ''bad''), sg_PublicKey = ''key'', sg_Algorithm = ''demo''\<rparr>"

definition demo_anon_ctx :: "mem_store sctx" where
  "demo_anon_ctx = ctx_Set anon_CtxParticipants (VStrings [''alice'']) (NewSessionContext ''s'')"

definition demo_pt :: participant where
  "demo_pt = \<lparr>pt_SlotIndex = 0, pt_SlotPub = replicate 32 CHR ''k'', pt_slotPriv = replicate 32 CHR ''k'', pt_sigSigner = demo_sig\<rparr>"


end
