(* ===== verification/App_Runs.thy ===== *)
theory App_Runs
  imports App_Sessions
begin

text \<open>
  Runs of a session through a phase that collects messages: the messages up to the one that completes the quorum
  stay in the phase, and that one carries the session through the phases that need no message, to the next
  collecting phase or to the end of the pipeline.
\<close>

definition completes :: "string list \<Rightarrow> (string \<times> bytes) list \<Rightarrow> bool" where
  "completes participants msgs \<longleftrightarrow> msgs \<noteq> [] \<and> card (fst ` set (butlast msgs)) < length participants
     \<and> length participants \<le> card (fst ` set msgs)"

lemma quiet_path_cong: "r_byEntryState r' = r_byEntryState r \<Longrightarrow> quiet_path r' ps c c' = quiet_path r ps c c'"
  by (induction r ps c c' rule: quiet_path.induct) auto

lemma advance_stop:
  "quiet_path r ps c c' \<Longrightarrow> t_ctx t = c \<Longrightarrow> c_store c = None \<Longrightarrow> t_current t = Some (hd ps) \<Longrightarrow> tl ps \<noteq> [] \<Longrightarrow>
   list_all passes (butlast (tl ps)) \<Longrightarrow> ph_ConsumedMessageTypes (last ps) \<noteq> [] \<Longrightarrow> length ps \<le> Suc n \<Longrightarrow>
   \<exists>t'. advance_hops ops now r n None t = Some (None, t', True, None) \<and> t_ctx t' = c' \<and> c_store c' = None
     \<and> t_current t' = Some (last ps) \<and> t_state t' = ph_EntryState (last ps)"
proof (induction ps arbitrary: c t n)
  case (Cons p qs)
  obtain q ps where qs: "qs = q # ps" using Cons.prems(5) by (cases qs) auto
  obtain m where n: "n = Suc m" "length qs \<le> Suc m" using Cons.prems(8) qs by (cases n) auto
  have path: "quiet_path r (p # q # ps) c c'" "t_current t = Some p" using Cons.prems(1,4) qs by simp_all
  show ?case
  proof (rule advance_hop_quiet [OF path(1) Cons.prems(2,3) path(2), of ops now m])
    fix c2 t2
    assume step: "advance_hops ops now r (Suc m) None t =
        (if ph_ConsumedMessageTypes q \<noteq> [] \<or> \<not> ph_CheckComplete q c2 then Some (None, t2, True, None) else advance_hops ops now r m None t2)"
      and t2: "quiet_path r (q # ps) c2 c'" "t_ctx t2 = c2" "c_store c2 = None" "t_current t2 = Some q" "t_state t2 = ph_EntryState q"
    show ?thesis
    proof (cases ps)
      case Nil
      then show ?thesis using step t2 Cons.prems(7) qs n(1) by simp
    next
      case (Cons q2 ps2)
      then have "passes q" using Cons.prems(6) qs by simp
      then have "advance_hops ops now r n None t = advance_hops ops now r m None t2" using step n(1) by (simp add: passes_def)
      moreover have "\<exists>t'. advance_hops ops now r m None t2 = Some (None, t', True, None) \<and> t_ctx t' = c' \<and> c_store c' = None
          \<and> t_current t' = Some (last qs) \<and> t_state t' = ph_EntryState (last qs)"
        using Cons.IH [of c2 t2 m] t2 Cons.prems(6,7) qs n(2) Cons by simp
      ultimately show ?thesis using qs by simp
    qed
  qed
qed simp

context collecting
begin

text \<open>What the completing message does: it advances from the accumulated context.\<close>

lemma collect_step:
  assumes "at_phase r sid p c" "phaseConsumes p mt" "ctx_Get c bucket = None" "ctx_Get c pkey = Some (VStrings ps)" "completes ps msgs"
  shows "\<exists>r1 t1. at_phase r1 sid p (accumulate_all bucket (butlast msgs) c) \<and> same_setup r r1 \<and> t_current t1 = Some p
    \<and> t_ctx t1 = accumulate_all bucket msgs c
    \<and> send_all ops now sid mt msgs r = map_option (\<lambda>(lin, t2, moved, e). put_session sid lin t2 r1) (advance ops now r1 None t1)"
proof -
  obtain ms f b where msgs: "msgs = ms @ [(f, b)]" using assms(5) by (metis append_butlast_last_id completes_def prod.collapse)
  obtain r1 where r1: "send_all ops now sid mt ms r = Some r1" "at_phase r1 sid p (accumulate_all bucket ms c)" "same_setup r r1"
    using below_quorum [OF assms(1-4), of ms] assms(5) by (auto simp: msgs completes_def)
  have "quorum_of pkey bucket (AccumulateMessage bucket f b (accumulate_all bucket ms c))"
    using at_quorum [OF assms(3,4), of ms f b] assms(5) by (simp add: msgs completes_def)
  then obtain t where t: "t_current t = Some p"
    "HandleMessage ops now sid mt f b r1 = map_option (\<lambda>(lin, t2, moved, e). (put_session sid lin t2 r1, moved, e))
       (advance ops now r1 None (t\<lparr>t_ctx := accumulate_all bucket msgs c\<rparr>))"
    using message_step [OF r1(2) assms(2), of ops now f b] by (auto simp: Let_def msgs)
  have "send_all ops now sid mt msgs r = map_option (\<lambda>(lin, t2, moved, e). put_session sid lin t2 r1)
      (advance ops now r1 None (t\<lparr>t_ctx := accumulate_all bucket msgs c\<rparr>))"
    by (simp add: msgs send_all_snoc r1(1) t(2) [unfolded msgs] option.map_comp comp_def split_def)
  then show ?thesis using r1(2,3) t(1) by (intro exI [of _ r1] exI [of _ "t\<lparr>t_ctx := accumulate_all bucket msgs c\<rparr>"]) (simp add: msgs)
qed

lemma collect_enter:
  assumes at: "at_phase r sid p c" "phaseConsumes p mt" "ctx_Get c bucket = None" "ctx_Get c pkey = Some (VStrings ps)" "completes ps msgs"
    and path: "quiet_path r (p # qs) (accumulate_all bucket msgs c) c'" "qs \<noteq> []" "list_all passes (butlast qs)"
      "ph_ConsumedMessageTypes (last qs) \<noteq> []" "length qs \<le> length (r_phases r)"
  shows "\<exists>r'. send_all ops now sid mt msgs r = Some r' \<and> at_phase r' sid (last qs) c' \<and> same_setup r r'"
proof -
  obtain r1 t1 where r1: "at_phase r1 sid p (accumulate_all bucket (butlast msgs) c)" "same_setup r r1" "t_current t1 = Some p"
    "t_ctx t1 = accumulate_all bucket msgs c"
    "send_all ops now sid mt msgs r = map_option (\<lambda>(lin, t2, moved, e). put_session sid lin t2 r1) (advance ops now r1 None t1)"
    using collect_step [OF at] by blast
  have st: "c_store (accumulate_all bucket msgs c) = None" "r_store r1 = None" using at(1) r1(1) by (simp_all add: at_phase_def)
  have "quiet_path r1 (p # qs) (accumulate_all bucket msgs c) c'" using path(1) quiet_path_cong same_setup_fields [OF r1(2)] by metis
  from advance_stop [OF this r1(4) st(1), of "Suc (length (r_phases r1))" ops now] obtain t2 where
    "advance ops now r1 None t1 = Some (None, t2, True, None)" "t_ctx t2 = c'" "c_store c' = None" "t_current t2 = Some (last qs)"
    "t_state t2 = ph_EntryState (last qs)"
    using path(2-5) r1(3) same_setup_fields [OF r1(2)] by (auto simp: advance_def)
  then show ?thesis using r1(2,5) st(2) by (auto simp: at_phase_def put_session_def gomap_simps same_setup_def)
qed

lemma collect_finish:
  assumes at: "at_phase r sid p c" "phaseConsumes p mt" "ctx_Get c bucket = None" "ctx_Get c pkey = Some (VStrings ps)" "completes ps msgs"
    and path: "quiet_path r (p # qs) (accumulate_all bucket msgs c) c'" "list_all passes qs"
      "ph_ExitState (last (p # qs)) = StateNone" "ph_Exit (last (p # qs)) c' = (c'', None)" "c_store c'' = None" "length qs < length (r_phases r)"
  shows "\<exists>r'. send_all ops now sid mt msgs r = Some r' \<and> finished_with r' sid c''"
proof -
  obtain r1 t1 where r1: "at_phase r1 sid p (accumulate_all bucket (butlast msgs) c)" "same_setup r r1" "t_current t1 = Some p"
    "t_ctx t1 = accumulate_all bucket msgs c"
    "send_all ops now sid mt msgs r = map_option (\<lambda>(lin, t2, moved, e). put_session sid lin t2 r1) (advance ops now r1 None t1)"
    using collect_step [OF at] by blast
  have st: "c_store (accumulate_all bucket msgs c) = None" "r_store r1 = None" using at(1) r1(1) by (simp_all add: at_phase_def)
  have "quiet_path r1 (p # qs) (accumulate_all bucket msgs c) c'" using path(1) quiet_path_cong same_setup_fields [OF r1(2)] by metis
  from advance_finish [OF this r1(4) st(1), of c'' "Suc (length (r_phases r1))" ops now] obtain t2 where
    "advance ops now r1 None t1 = Some (None, t2, True, None)" "t_ctx t2 = c''" "t_current t2 = None" "t_state t2 = StateNone"
    using path(2-6) r1(3) same_setup_fields [OF r1(2)] by (auto simp: advance_def)
  then show ?thesis using r1(5) st(2) by (auto simp: finished_with_def put_session_def gomap_simps)
qed

end

end
