(* ===== verification/Voting.thy ===== *)
theory Voting
  imports Anon App_Runs
begin

text \<open>
  The voting application (examples/voting): ballots, the four phases and the three pipelines (states.go,
  phases.go, runner.go).

  Decoding a ballot is the argument \<open>dec\<close> (what \<open>json.Unmarshal\<close> makes of the payload), the text of a number
  the argument \<open>ff\<close>. Go iterates over the ballots in an order of its choice: \<open>order\<close> gives it. A hook that panics
  is \<open>None\<close>; inside a phase record, where the runner's own calls cannot panic, it is the error \<open>panic\<close>.
\<close>

section \<open>Ballots and tallies\<close>

definition CtxVoteParticipants :: string where
  "CtxVoteParticipants = ''vote.participants''"

definition CtxVoteBallots :: string where
  "CtxVoteBallots = ''vote.ballots''"

definition CtxVoteTally :: string where
  "CtxVoteTally = ''vote.tally''"

definition CtxVoteTranscript :: string where
  "CtxVoteTranscript = ''vote.transcript''"

definition bucketBallots :: string where
  "bucketBallots = ''vote.bucket.ballots''"

lemmas vote_names = CtxVoteParticipants_def CtxVoteBallots_def CtxVoteTally_def CtxVoteTranscript_def bucketBallots_def

record ballot =
  b_Voter :: string
  b_Choice :: int
  b_Weight :: f64

record tally =
  ty_Totals :: "(int, f64) gomap"
  ty_TotalBallots :: int
  ty_WinnerChoice :: int
  ty_WinnerWeight :: f64

text \<open>Both as values of a session context.\<close>

definition ballot_v :: "ballot \<Rightarrow> anyv" where
  "ballot_v b = VStruct ''Ballot'' [(''Voter'', VString (b_Voter b)), (''Choice'', VInt KInt (b_Choice b)), (''Weight'', VFloat (b_Weight b))]"

definition as_ballot :: "anyv \<Rightarrow> ballot option" where
  "as_ballot v = (case as_struct ''Ballot'' v of
      None \<Rightarrow> None
    | Some fs \<Rightarrow>
        (case (field as_string ''Voter'' fs, field as_int ''Choice'' fs, field as_float ''Weight'' fs) of
           (Some voter, Some ch, Some w) \<Rightarrow> Some \<lparr>b_Voter = voter, b_Choice = ch, b_Weight = w\<rparr>
         | _ \<Rightarrow> None))"

definition ballots_v :: "(string, ballot) gomap \<Rightarrow> anyv" where
  "ballots_v m = VMapOf ''Ballot'' (map (\<lambda>(k, b). (k, ballot_v b)) m)"

definition as_ballots :: "anyv \<Rightarrow> (string, ballot) gomap option" where
  "as_ballots v = (case as_map_of ''Ballot'' v of None \<Rightarrow> None | Some m \<Rightarrow> Some (map (\<lambda>(k, b). (k, the (as_ballot b))) m))"

definition tally_v :: "tally \<Rightarrow> anyv" where
  "tally_v t = VStruct ''Tally''
     [(''Totals'', VMapOf ''float64'' (map (\<lambda>(k, w). (itoa k, VStruct ''entry'' [(''key'', VInt KInt k), (''value'', VFloat w)])) (ty_Totals t))),
      (''TotalBallots'', VInt KInt (ty_TotalBallots t)),
      (''WinnerChoice'', VInt KInt (ty_WinnerChoice t)),
      (''WinnerWeight'', VFloat (ty_WinnerWeight t))]"

definition as_total :: "anyv \<Rightarrow> (int \<times> f64) option" where
  "as_total v = (case as_struct ''entry'' v of
      None \<Rightarrow> None
    | Some fs \<Rightarrow> (case (field as_int ''key'' fs, field as_float ''value'' fs) of (Some k, Some w) \<Rightarrow> Some (k, w) | _ \<Rightarrow> None))"

definition as_tally :: "anyv \<Rightarrow> tally option" where
  "as_tally v = (case as_struct ''Tally'' v of
      None \<Rightarrow> None
    | Some fs \<Rightarrow>
        (case (field (as_map_of ''float64'') ''Totals'' fs, field as_int ''TotalBallots'' fs, field as_int ''WinnerChoice'' fs,
               field as_float ''WinnerWeight'' fs) of
           (Some ts, Some n, Some ch, Some w) \<Rightarrow>
             Some \<lparr>ty_Totals = map (the \<circ> as_total \<circ> snd) ts, ty_TotalBallots = n, ty_WinnerChoice = ch, ty_WinnerWeight = w\<rparr>
         | _ \<Rightarrow> None))"

lemma as_ballot_v [simp]: "as_ballot (ballot_v b) = Some b"
  by (simp add: as_ballot_def ballot_v_def value_reads)

lemma as_ballots_v [simp]: "as_ballots (ballots_v m) = Some m"
  by (simp add: as_ballots_def ballots_v_def as_map_of_def comp_def case_prod_beta)

lemma as_total_v [simp]: "as_total (VStruct ''entry'' [(''key'', VInt KInt k), (''value'', VFloat w)]) = Some (k, w)"
  by (simp add: as_total_def value_reads)

lemma as_tally_v [simp]: "as_tally (tally_v t) = Some t"
  by (simp add: as_tally_def tally_v_def field_def as_struct_def as_map_of_def as_int_def as_float_def comp_def case_prod_beta)

section \<open>The phases\<close>

definition or_panic :: "('s sctx \<Rightarrow> ('s sctx \<times> string option) option) \<Rightarrow> 's hook" where
  "or_panic f c = (case f c of Some r \<Rightarrow> r | None \<Rightarrow> (c, Some ''panic''))"

definition PhaseInvite :: "'s phase" where
  "PhaseInvite = (bare_phase ''vote-invitation'' StateInviting StateLocked True)
     \<lparr>ph_Provides :=
        [(CtxVoteParticipants, provides ''[]string''), (CtxParticipants, provides ''[]string''),
         (anon_CtxParticipants, provides ''[]string'')]\<rparr>"

definition parse_ballot :: "string \<Rightarrow> int \<times> f64 \<Rightarrow> ballot" where
  "parse_ballot voter b = \<lparr>b_Voter = voter, b_Choice = fst b, b_Weight = (if fle (snd b) (Fin 0) then Fin 1 else snd b)\<rparr>"

fun parse_ballots :: "(bytes \<Rightarrow> string + int \<times> f64) \<Rightarrow> (string \<times> bytes) list \<Rightarrow> string + (string, ballot) gomap" where
  "parse_ballots dec [] = Inr []"
| "parse_ballots dec ((voter, payload) # raw) =
     (case dec payload of
        Inl e \<Rightarrow> Inl (''PhaseSubmitVote: decode ballot from '' @ voter @ '': '' @ e)
      | Inr b \<Rightarrow>
          (case parse_ballots dec raw of
             Inl e \<Rightarrow> Inl e
           | Inr parsed \<Rightarrow> Inr ((voter, parse_ballot voter b) # parsed)))"

definition SubmitVote_Exit :: "(bytes \<Rightarrow> string + int \<times> f64) \<Rightarrow> 's hook" where
  "SubmitVote_Exit dec c =
     (case parse_ballots dec (AccumulatedMessages c bucketBallots) of
        Inl e \<Rightarrow> (c, Some e)
      | Inr parsed \<Rightarrow> (ctx_Set CtxVoteBallots (ballots_v parsed) c, None))"

definition PhaseSubmitVote :: "(bytes \<Rightarrow> string + int \<times> f64) \<Rightarrow> session_state \<Rightarrow> 's phase" where
  "PhaseSubmitVote dec entryState = (bare_phase ''vote-submit'' entryState StateScoring False)
     \<lparr>ph_ConsumedMessageTypes := [''vote.ballot''],
      ph_Requires := [(CtxVoteParticipants, requires ''[]string'')],
      ph_Provides := [(CtxVoteBallots, provides ''map[string]Ballot'')],
      ph_OnMessage := (\<lambda>mt from payload c. (AccumulateMessage bucketBallots from payload c, None)),
      ph_CheckComplete := quorum_of CtxVoteParticipants bucketBallots,
      ph_Exit := SubmitVote_Exit dec\<rparr>"

definition total_of :: "(int, f64) gomap \<Rightarrow> int \<Rightarrow> f64" where
  "total_of totals ch = (case map_of totals ch of Some w \<Rightarrow> w | None \<Rightarrow> Fin 0)"

definition add_weight :: "ballot \<Rightarrow> (int, f64) gomap \<Rightarrow> (int, f64) gomap" where
  "add_weight b totals = AList.update (b_Choice b) (fadd (total_of totals (b_Choice b)) (b_Weight b)) totals"

definition tally_totals :: "ballot list \<Rightarrow> (int, f64) gomap" where
  "tally_totals bs = fold add_weight bs []"

fun pick_winner :: "(int, f64) gomap \<Rightarrow> int \<Rightarrow> int list \<Rightarrow> int" where
  "pick_winner totals winner [] = winner"
| "pick_winner totals winner (ch # chs) =
     pick_winner totals (if flt (total_of totals winner) (total_of totals ch) then ch else winner) chs"

definition tally_of :: "ballot list \<Rightarrow> tally option" where
  "tally_of bs =
     (let totals = tally_totals bs
      in case sort (map fst totals) of
           [] \<Rightarrow> None
         | first # rest \<Rightarrow>
             (let winner = pick_winner totals first rest
              in Some \<lparr>ty_Totals = totals, ty_TotalBallots = int (length bs), ty_WinnerChoice = winner,
                       ty_WinnerWeight = total_of totals winner\<rparr>))"

definition Tally_Enter :: "((string, ballot) gomap \<Rightarrow> (string, ballot) gomap) \<Rightarrow> 's sctx \<Rightarrow> ('s sctx \<times> string option) option" where
  "Tally_Enter order c =
     (case MustGet as_ballots c CtxVoteBallots of
        None \<Rightarrow> None
      | Some ballots \<Rightarrow>
          (case tally_of (map snd (order ballots)) of
             None \<Rightarrow> None
           | Some t \<Rightarrow> Some (ctx_Set CtxVoteTally (tally_v t) c, None)))"

definition PhaseTally :: "((string, ballot) gomap \<Rightarrow> (string, ballot) gomap) \<Rightarrow> 's phase" where
  "PhaseTally order = (bare_phase ''vote-tally'' StateScoring StateDecrypting True)
     \<lparr>ph_Requires := [(CtxVoteBallots, requires ''map[string]Ballot'')],
      ph_Provides := [(CtxVoteTally, provides ''Tally'')],
      ph_Enter := or_panic (Tally_Enter order)\<rparr>"

text \<open>\<open>json.Marshal\<close> of a tally: object keys in order, an infinity or NaN is an error.\<close>

definition unsupported :: "f64 \<Rightarrow> string option" where
  "unsupported x = (case x of
      NaN \<Rightarrow> Some ''json: unsupported value: NaN''
    | PInf \<Rightarrow> Some ''json: unsupported value: +Inf''
    | NInf \<Rightarrow> Some ''json: unsupported value: -Inf''
    | Fin r \<Rightarrow> None)"

fun first_some :: "'a option list \<Rightarrow> 'a option" where
  "first_some [] = None"
| "first_some (x # xs) = (case x of None \<Rightarrow> first_some xs | Some y \<Rightarrow> Some y)"

fun join_comma :: "string list \<Rightarrow> string" where
  "join_comma [] = []"
| "join_comma [x] = x"
| "join_comma (x # xs) = x @ '','' @ join_comma xs"

definition marshal_tally :: "(f64 \<Rightarrow> string) \<Rightarrow> tally \<Rightarrow> string + bytes" where
  "marshal_tally ff t =
     (let entries = sort_key fst (map (\<lambda>(k, w). (itoa k, w)) (ty_Totals t))
      in case first_some (map (unsupported \<circ> snd) entries @ [unsupported (ty_WinnerWeight t)]) of
           Some e \<Rightarrow> Inl e
         | None \<Rightarrow> Inr (''{\"totals\":{'' @ join_comma (map (\<lambda>(k, w). ''\"'' @ k @ ''\":'' @ ff w) entries)
             @ ''},\"total_ballots\":'' @ itoa (ty_TotalBallots t) @ '',\"winner_choice\":'' @ itoa (ty_WinnerChoice t)
             @ '',\"winner_weight\":'' @ ff (ty_WinnerWeight t) @ ''}''))"

definition transcript_of :: "bytes \<Rightarrow> bytes" where
  "transcript_of body = ''{\"hash\":\"'' @ hex_encode (sha256 body) @ ''\",\"tally\":'' @ body @ ''}''"

definition Settle_Enter :: "(f64 \<Rightarrow> string) \<Rightarrow> 's sctx \<Rightarrow> ('s sctx \<times> string option) option" where
  "Settle_Enter ff c =
     (case MustGet as_tally c CtxVoteTally of
        None \<Rightarrow> None
      | Some t \<Rightarrow>
          (case marshal_tally ff t of
             Inl e \<Rightarrow> Some (c, Some (''PhaseSettle: marshal tally: '' @ e))
           | Inr body \<Rightarrow> Some (ctx_Set CtxVoteTranscript (VBytes (transcript_of body)) c, None)))"

definition PhaseSettle :: "(f64 \<Rightarrow> string) \<Rightarrow> 's phase" where
  "PhaseSettle ff = (bare_phase ''vote-settle'' StateDecrypting StateNone True)
     \<lparr>ph_Requires := [(CtxVoteTally, requires ''Tally'')],
      ph_Provides := [(CtxVoteTranscript, provides ''[]byte'')],
      ph_Enter := or_panic (Settle_Enter ff)\<rparr>"

lemmas voting_phases = PhaseInvite_def PlaintextKeygenPhase_def PhaseSubmitVote_def PhaseTally_def PhaseSettle_def

lemma voting_decls [simp]:
  "ph_EntryState PhaseInvite = StateInviting" "ph_ExitState PhaseInvite = StateLocked"
  "ph_EntryState PlaintextKeygenPhase = StateLocked" "ph_ExitState PlaintextKeygenPhase = StateGossip"
  "ph_EntryState (PhaseSubmitVote dec entry) = entry" "ph_ExitState (PhaseSubmitVote dec entry) = StateScoring"
  "ph_EntryState (PhaseTally order) = StateScoring" "ph_ExitState (PhaseTally order) = StateDecrypting"
  "ph_EntryState (PhaseSettle ff) = StateDecrypting" "ph_ExitState (PhaseSettle ff) = StateNone"
  "ph_Exit (PhaseSubmitVote dec entry) = SubmitVote_Exit dec" "ph_Enter (PhaseTally order) = or_panic (Tally_Enter order)"
  "ph_Enter (PhaseSettle ff) = or_panic (Settle_Enter ff)"
  "ph_Exit (PhaseTally order) c = (c, None)" "ph_Exit (PhaseSettle ff) c = (c, None)" "ph_Enter (PhaseSubmitVote dec entry) c = (c, None)"
  "ph_Exit PhaseInvite c = (c, None)" "ph_Enter PhaseInvite c = (c, None)"
  "ph_Exit PlaintextKeygenPhase c = (c, None)" "ph_Enter PlaintextKeygenPhase c = (c, None)"
  "ph_ConsumedMessageTypes (PhaseSubmitVote dec entry) = [''vote.ballot'']"
  "ph_ConsumedMessageTypes (PhaseTally order) = []" "ph_ConsumedMessageTypes (PhaseSettle ff) = []"
  "ph_CheckComplete (PhaseTally order) c" "ph_CheckComplete (PhaseSettle ff) c"
  by (simp_all add: voting_phases bare_phase_def)

interpretation submit: collecting "PhaseSubmitVote dec entry" "''vote.ballot''" bucketBallots CtxVoteParticipants
  by unfold_locales (simp_all add: PhaseSubmitVote_def bare_phase_def vote_names)

section \<open>The pipelines\<close>

definition voting_phases_list :: "(bytes \<Rightarrow> string + int \<times> f64) \<Rightarrow> ((string, ballot) gomap \<Rightarrow> (string, ballot) gomap) \<Rightarrow> (f64 \<Rightarrow> string) \<Rightarrow> 's phase list" where
  "voting_phases_list dec order ff =
     [PhaseInvite, PlaintextKeygenPhase, PhaseSubmitVote dec StateGossip, PhaseTally order, PhaseSettle ff]"

definition voting_Pipeline :: "(bytes \<Rightarrow> string + int \<times> f64) \<Rightarrow> ((string, ballot) gomap \<Rightarrow> (string, ballot) gomap) \<Rightarrow> (f64 \<Rightarrow> string) \<Rightarrow> rerror + 's runner" where
  "voting_Pipeline dec order ff = Compose ff (voting_phases_list dec order ff)"

definition voting_PipelineWithLineage :: "(bytes \<Rightarrow> string + int \<times> f64) \<Rightarrow> ((string, ballot) gomap \<Rightarrow> (string, ballot) gomap) \<Rightarrow> (f64 \<Rightarrow> string)
    \<Rightarrow> signer \<Rightarrow> (string, signer) gomap \<Rightarrow> rerror + mem_store runner" where
  "voting_PipelineWithLineage dec order ff signer peerVerifiers =
     ComposeWith ff NewInMemoryStore (voting_phases_list dec order ff)
       [WithSigner signer, WithPeerVerifiers peerVerifiers, WithStore NewInMemoryStore]"

definition voting_PipelineWithShuffle :: "(bytes \<Rightarrow> string + int \<times> f64) \<Rightarrow> ((string, ballot) gomap \<Rightarrow> (string, ballot) gomap) \<Rightarrow> (f64 \<Rightarrow> string)
    \<Rightarrow> slot_codec \<Rightarrow> (rerror \<Rightarrow> string) \<Rightarrow> int \<Rightarrow> signer \<Rightarrow> (string, signer) gomap \<Rightarrow> rerror + mem_store runner" where
  "voting_PipelineWithShuffle dec order ff sc etext now signer peerVerifiers =
     ComposeWith ff NewInMemoryStore
       [PhaseInvite, PlaintextKeygenPhase, PhaseGShuffle, PhaseGVerify mem_ops sc etext now StateSubmitting,
        PhaseSubmitVote dec StateSubmitting, PhaseTally order, PhaseSettle ff]
       [WithSigner signer, WithPeerVerifiers peerVerifiers, WithStore NewInMemoryStore]"

end
