(* ===== verification/Voting_Props.thy ===== *)
theory Voting_Props
  imports Voting
begin

text \<open>
  What the voting application promises: the tally, the course of a session, and what its lineage records.
\<close>

section \<open>The tally\<close>

definition sum_weights :: "f64 list \<Rightarrow> f64 \<Rightarrow> f64" where
  "sum_weights ws acc = fold (\<lambda>w acc. fadd acc w) ws acc"

definition weights_for :: "int \<Rightarrow> ballot list \<Rightarrow> f64 list" where
  "weights_for ch bs = map b_Weight (filter (\<lambda>b. b_Choice b = ch) bs)"

lemma total_of_add_weight:
  "total_of (add_weight b totals) ch =
     (if ch = b_Choice b then fadd (total_of totals ch) (b_Weight b) else total_of totals ch)"
  by (simp add: total_of_def add_weight_def gomap_simps)

lemma total_of_fold:
  "total_of (fold add_weight bs totals) ch = sum_weights (weights_for ch bs) (total_of totals ch)"
  by (induction bs arbitrary: totals) (auto simp: sum_weights_def weights_for_def total_of_add_weight)

lemma total_of_tally: "total_of (tally_totals bs) ch = sum_weights (weights_for ch bs) (Fin 0)"
  by (simp add: tally_totals_def total_of_fold total_of_def [of "[]"])

lemma tally_keys: "gomap_wf (tally_totals bs) \<and> keys (tally_totals bs) = b_Choice ` set bs"
proof -
  have "gomap_wf m \<Longrightarrow> gomap_wf (fold add_weight bs m) \<and> keys (fold add_weight bs m) = keys m \<union> b_Choice ` set bs" for m
    by (induction bs arbitrary: m) (auto simp: add_weight_def gomap_simps distinct_update)
  then show ?thesis by (simp add: tally_totals_def)
qed

text \<open>A positive weight; sums of positive weights are positive and never NaN.\<close>

definition positive :: "f64 \<Rightarrow> bool" where
  "positive w \<longleftrightarrow> f64_ok w \<and> flt (Fin 0) w"

lemma fadd_positive:
  assumes "f64_ok a" "fle (Fin 0) a" "positive w"
  shows "f64_ok (fadd a w) \<and> fle (Fin 0) (fadd a w)"
proof (cases a; cases w)
  fix x y assume "a = Fin x" "w = Fin y"
  then have "0 \<le> x + y" using assms by (simp add: positive_def)
  then have "0 \<le> rnd (x + y)" by (rule rnd_nonneg)
  then show ?thesis using \<open>a = Fin x\<close> \<open>w = Fin y\<close> by (auto simp: f64_of_rat_def Let_def fle_def)
qed (use assms in \<open>auto simp: positive_def fle_def\<close>)

lemma sum_weights_nonneg:
  "\<forall>w\<in>set ws. positive w \<Longrightarrow> f64_ok a \<Longrightarrow> fle (Fin 0) a \<Longrightarrow> f64_ok (sum_weights ws a) \<and> fle (Fin 0) (sum_weights ws a)"
  by (induction ws arbitrary: a) (simp_all add: sum_weights_def fadd_positive)

lemma fle_0_not_NaN: "fle (Fin 0) a \<Longrightarrow> a \<noteq> NaN"
  by (auto simp: fle_def)

lemma flt_le_trans: "flt a b \<Longrightarrow> fle b c \<Longrightarrow> flt a c"
  by (cases a; cases b; cases c) (auto simp: fle_def)

lemma fle_lt_trans: "fle a b \<Longrightarrow> flt b c \<Longrightarrow> flt a c"
  by (cases a; cases b; cases c) (auto simp: fle_def)

lemma flt_not_NaN: "flt a b \<Longrightarrow> a \<noteq> NaN \<and> b \<noteq> NaN"
  by (cases a; cases b) auto

text \<open>The scan keeps the first of the greatest totals.\<close>

lemma pick_winner_spec:
  assumes "\<forall>ch\<in>set (w # chs). total_of ts ch \<noteq> NaN" "sorted_wrt (<) (w # chs)"
  shows "pick_winner ts w chs \<in> set (w # chs)
    \<and> (\<forall>ch\<in>set (w # chs). fle (total_of ts ch) (total_of ts (pick_winner ts w chs)))
    \<and> (\<forall>ch\<in>set (w # chs). ch < pick_winner ts w chs \<longrightarrow> flt (total_of ts ch) (total_of ts (pick_winner ts w chs)))"
  using assms
proof (induction chs arbitrary: w)
  case Nil
  then show ?case by (simp add: fle_refl)
next
  case (Cons x chs)
  let ?v = "if flt (total_of ts w) (total_of ts x) then x else w"
  let ?p = "pick_winner ts ?v chs"
  have v: "\<forall>ch\<in>set (?v # chs). total_of ts ch \<noteq> NaN" "sorted_wrt (<) (?v # chs)" using Cons.prems by auto
  note ih = Cons.IH [OF v]
  have le: "fle (total_of ts w) (total_of ts ?v)" "fle (total_of ts x) (total_of ts ?v)"
    using Cons.prems(1) not_flt_fle [of "total_of ts w" "total_of ts x"] by (auto simp: fle_refl flt_imp_fle)
  have pv: "fle (total_of ts ?v) (total_of ts ?p)" using ih by simp
  have order: "w < x" "\<forall>ch\<in>set chs. w < ch \<and> x < ch" using Cons.prems(2) by auto
  have later: "flt (total_of ts ?v) (total_of ts ?p)" if "?v < ?p" using ih that by simp
  have "flt (total_of ts w) (total_of ts ?p)" if "w < ?p"
    using that later pv by (cases "flt (total_of ts w) (total_of ts x)") (auto intro: flt_le_trans)
  moreover have "flt (total_of ts x) (total_of ts ?p)" if "x < ?p"
    using that later le(2) order(1) by (cases "flt (total_of ts w) (total_of ts x)") (auto intro: fle_lt_trans)
  ultimately show ?case using ih le pv by (auto intro: fle_trans)
qed

lemma tally_of_Some:
  assumes "bs \<noteq> []"
  shows "tally_of bs = Some \<lparr>ty_Totals = tally_totals bs, ty_TotalBallots = int (length bs),
      ty_WinnerChoice = pick_winner (tally_totals bs) (hd (sort (map fst (tally_totals bs)))) (tl (sort (map fst (tally_totals bs)))),
      ty_WinnerWeight = total_of (tally_totals bs) (pick_winner (tally_totals bs) (hd (sort (map fst (tally_totals bs)))) (tl (sort (map fst (tally_totals bs)))))\<rparr>"
proof -
  have "keys (tally_totals bs) \<noteq> {}" using tally_keys [of bs] assms by simp
  then have "sort (map fst (tally_totals bs)) \<noteq> []" by (metis image_is_empty list.set_map set_empty set_sort)
  then show ?thesis by (cases "sort (map fst (tally_totals bs))") (simp_all add: tally_of_def Let_def)
qed

lemma tally_choices_sorted:
  "sorted_wrt (<) (sort (map fst (tally_totals bs))) \<and> set (sort (map fst (tally_totals bs))) = b_Choice ` set bs"
  using tally_keys [of bs] by (simp add: strict_sorted_iff)

text \<open>C13. The tally of at least one ballot with positive weights: the total of every choice is the floating-point sum
  of the weights cast for it, the winner is a choice somebody made, no choice has a greater total, and every lower
  choice has a strictly smaller one.\<close>

theorem tally_winner:
  assumes "bs \<noteq> []" "\<forall>b\<in>set bs. positive (b_Weight b)"
  shows "\<exists>t. tally_of bs = Some t \<and> ty_TotalBallots t = int (length bs) \<and> keys (ty_Totals t) = b_Choice ` set bs
    \<and> (\<forall>ch. total_of (ty_Totals t) ch = sum_weights (weights_for ch bs) (Fin 0))
    \<and> ty_WinnerWeight t = total_of (ty_Totals t) (ty_WinnerChoice t)
    \<and> ty_WinnerChoice t \<in> b_Choice ` set bs
    \<and> (\<forall>ch\<in>b_Choice ` set bs. fle (total_of (ty_Totals t) ch) (ty_WinnerWeight t)
         \<and> (ch < ty_WinnerChoice t \<longrightarrow> flt (total_of (ty_Totals t) ch) (ty_WinnerWeight t)))"
proof -
  let ?ts = "tally_totals bs" and ?chs = "sort (map fst (tally_totals bs))"
  have chs: "hd ?chs # tl ?chs = ?chs"
    using tally_choices_sorted [of bs] assms(1) by (metis image_is_empty list.collapse set_empty)
  have "positive w" if "w \<in> set (weights_for ch bs)" for w ch using that assms(2) by (auto simp: weights_for_def)
  then have "fle (Fin 0) (total_of ?ts ch)" for ch
    unfolding total_of_tally using sum_weights_nonneg [of "weights_for ch bs" "Fin 0"] by simp
  then have nn: "total_of ?ts ch \<noteq> NaN" for ch by (rule fle_0_not_NaN)
  note spec = pick_winner_spec [of "hd ?chs" "tl ?chs" ?ts, unfolded chs]
  have "sorted_wrt (<) ?chs" and set: "set ?chs = b_Choice ` set bs" using tally_choices_sorted by blast+
  note win = spec [OF _ this(1), unfolded set]
  show ?thesis unfolding tally_of_Some [OF assms(1)]
    using win nn tally_keys [of bs] total_of_tally [of bs] by simp
qed

lemma tally_winner_witness:
  "\<exists>t. tally_of [\<lparr>b_Voter = ''a'', b_Choice = 1, b_Weight = Fin 2\<rparr>, \<lparr>b_Voter = ''b'', b_Choice = 0, b_Weight = Fin 1\<rparr>] = Some t
     \<and> ty_TotalBallots t = 2 \<and> keys (ty_Totals t) = {0, 1} \<and> ty_WinnerChoice t \<in> {0, 1}"
proof -
  have "positive (Fin 1)" "positive (Fin 2)" unfolding positive_def by code_simp+
  then show ?thesis
    using tally_winner [of "[\<lparr>b_Voter = ''a'', b_Choice = 1, b_Weight = Fin 2\<rparr>, \<lparr>b_Voter = ''b'', b_Choice = 0, b_Weight = Fin 1\<rparr>]"] by auto
qed

text \<open>Whole weights below the precision of a \<open>float64\<close> are summed exactly, in every order.\<close>

lemma sum_weights_exact:
  assumes "k + sum_list ns \<le> 2 ^ 53"
  shows "sum_weights (map (\<lambda>n. Fin (of_nat n)) ns) (Fin (of_nat k)) = Fin (of_nat (k + sum_list ns))"
  using assms
proof (induction ns arbitrary: k)
  case (Cons n ns)
  have "\<bar>int (k + n)\<bar> \<le> 2 ^ 53" using Cons.prems by simp
  then have "f64_of_rat (of_int (int (k + n))) = Fin (of_int (int (k + n)))" by (rule f64_of_rat_int)
  then have "fadd (Fin (of_nat k)) (Fin (of_nat n)) = Fin (of_nat (k + n))" by simp
  then show ?case using Cons.IH [of "k + n"] Cons.prems by (simp add: sum_weights_def add.assoc)
qed (simp add: sum_weights_def)

lemma pick_winner_cong: "total_of ts = total_of ts' \<Longrightarrow> pick_winner ts w chs = pick_winner ts' w chs"
  by (induction chs arbitrary: w) auto

lemma total_of_exact:
  assumes "\<forall>b\<in>set bs. b_Weight b = Fin (of_nat (w b))" "sum_list (map w bs) \<le> 2 ^ 53"
  shows "total_of (tally_totals bs) ch = Fin (of_nat (sum_list (map w (filter (\<lambda>b. b_Choice b = ch) bs))))"
proof -
  have ws: "weights_for ch bs = map (\<lambda>n. Fin (of_nat n)) (map w (filter (\<lambda>b. b_Choice b = ch) bs))"
    using assms(1) by (auto simp: weights_for_def)
  have "sum_list (map w (filter P bs)) \<le> sum_list (map w bs)" for P by (induction bs) auto
  then have "0 + sum_list (map w (filter (\<lambda>b. b_Choice b = ch) bs)) \<le> 2 ^ 53" using assms(2) by (metis add_0 order_trans)
  from sum_weights_exact [OF this] show ?thesis unfolding total_of_tally ws by simp
qed

theorem tally_order_free:
  assumes "bs \<noteq> []" "\<forall>b\<in>set bs. b_Weight b = Fin (of_nat (w b))" "sum_list (map w bs) \<le> 2 ^ 53" "mset bs' = mset bs"
  shows "map_option ty_WinnerChoice (tally_of bs') = map_option ty_WinnerChoice (tally_of bs)
    \<and> map_option ty_WinnerWeight (tally_of bs') = map_option ty_WinnerWeight (tally_of bs)"
proof -
  have perm: "sum_list (map w (filter P bs')) = sum_list (map w (filter P bs))" for P
    using assms(4) by (metis mset_filter mset_map sum_mset_sum_list)
  have "sum_list (map w bs') \<le> 2 ^ 53" using perm [of "\<lambda>b. True"] assms(3) by simp
  moreover have set: "set bs' = set bs" using assms(4) by (rule mset_eq_setD)
  ultimately have tot: "total_of (tally_totals bs') = total_of (tally_totals bs)"
    using total_of_exact [of bs' w] total_of_exact [OF assms(2,3)] assms(2) perm by auto
  have "sort (map fst (tally_totals bs')) = sort (map fst (tally_totals bs))"
    using tally_keys [of bs] tally_keys [of bs'] set by (intro sorted_distinct_set_unique) simp_all
  moreover have "bs' \<noteq> []" using assms(1) set by auto
  ultimately show ?thesis
    unfolding tally_of_Some [OF assms(1)] tally_of_Some [OF \<open>bs' \<noteq> []\<close>] using pick_winner_cong [OF tot] tot by simp
qed

definition uneven_ballots :: "ballot list" where
  "uneven_ballots =
     [\<lparr>b_Voter = ''a'', b_Choice = 1, b_Weight = Fin (10 ^ 16)\<rparr>, \<lparr>b_Voter = ''b'', b_Choice = 2, b_Weight = Fin (10 ^ 16)\<rparr>,
      \<lparr>b_Voter = ''c'', b_Choice = 2, b_Weight = Fin 1\<rparr>, \<lparr>b_Voter = ''d'', b_Choice = 2, b_Weight = Fin 1\<rparr>]"

text \<open>The winner can depend on the order in which Go iterates over the ballots: there are ballots with positive
  weights that elect one choice in one order and another choice in another order.\<close>

theorem winner_depends_on_order:
  "\<exists>bs bs'. mset bs = mset bs' \<and> list_all (\<lambda>b. positive (b_Weight b)) bs
     \<and> map_option ty_WinnerChoice (tally_of bs) \<noteq> map_option ty_WinnerChoice (tally_of bs')"
proof -
  have a: "map_option ty_WinnerChoice (tally_of uneven_ballots) = Some 1" by code_simp
  have b: "map_option ty_WinnerChoice (tally_of (rev uneven_ballots)) = Some 2" by code_simp
  have "list_all (\<lambda>b. positive (b_Weight b)) uneven_ballots" by code_simp
  moreover have "map_option ty_WinnerChoice (tally_of uneven_ballots) \<noteq> map_option ty_WinnerChoice (tally_of (rev uneven_ballots))"
    unfolding a b by simp
  ultimately show ?thesis by (metis mset_rev)
qed

end
