(* ===== verification/App_Triggers.thy ===== *)
theory App_Triggers
  imports App_Runs Service
begin

text \<open>
  The start of an application's session: the trigger of the session service begins the session, seeds its attributes
  and advances it through the phases that need no message.
\<close>

lemma seed_at_phase:
  assumes "at_phase r sid p c"
  shows "at_phase (seed_attrs sid attrs r) sid p (fold (\<lambda>(k, v). ctx_Set k v) attrs c) \<and> same_setup r (seed_attrs sid attrs r)"
proof -
  have "c_store (fold (\<lambda>(k, v). ctx_Set k v) attrs c) = c_store c" by (induction attrs arbitrary: c) auto
  then show ?thesis using assms by (auto simp: at_phase_def seed_attrs_def put_session_def gomap_simps same_setup_def)
qed

lemma session_id_Set: "c_SessionID (ctx_Set k v c) = c_SessionID c"
  by (simp add: ctx_Set_def)

lemma seeded_context:
  assumes "gomap_wf attrs"
  shows "ctx_Get (fold (\<lambda>(k, v). ctx_Set k v) attrs c) key = (case map_of attrs key of Some v \<Rightarrow> Some v | None \<Rightarrow> ctx_Get c key)
    \<and> c_SessionID (fold (\<lambda>(k, v). ctx_Set k v) attrs c) = c_SessionID c"
  using assms
proof (induction attrs arbitrary: c)
  case (Cons a attrs)
  then have "map_of attrs (fst a) = None" by (cases a) (simp add: map_of_eq_None_iff)
  then show ?case using Cons.IH [of "ctx_Set (fst a) (snd a) c"] Cons.prems
    by (cases a) (auto simp: ctx_Get_Set session_id_Set split: option.split)
qed simp

text \<open>A freshly composed service starts a session and walks it along a quiet path; the context holds exactly the attributes.\<close>

lemma started_at:
  fixes svc :: "'s service"
  assumes svc: "ready phases (sv_runner svc)" "phases \<noteq> []" "sid \<noteq> []" "participants \<noteq> []" "\<And>c. ph_Enter (hd phases) c = (c, None)"
    and attrs: "gomap_wf attrs"
    and path: "\<And>r c. r_byEntryState r = r_byEntryState (sv_runner svc) \<Longrightarrow> c_store c = None \<Longrightarrow> (\<forall>key. ctx_Get c key = map_of attrs key)
      \<Longrightarrow> quiet_path r (hd phases # q # qs) (c :: 's sctx) c"
    and target: "target \<notin> ph_EntryState ` set (butlast (hd phases # q # qs))" "ph_EntryState (last (q # qs)) = target"
      "target \<notin> set (ph_InternalStates (hd phases))" "Suc (length qs) \<le> length phases"
  obtains svc1 r c where "Start enc ts sid participants attrs svc = (svc1, None)" "AdvanceToState ops now sid target (sv_runner svc1) = (r, None)"
    "at_phase r sid (last (q # qs)) c" "same_setup (sv_runner svc) r" "\<forall>key. ctx_Get c key = map_of attrs key" "c_SessionID c = sid"
proof -
  let ?r = "sv_runner svc"
  obtain r1 c where b: "BeginSession sid [] ?r = (r1, Inr c)" "at_phase r1 sid (hd phases) c" "same_setup ?r r1" "c_values c = []" "c_SessionID c = sid"
    using begin_at_phase [OF svc(1,2,3,5), of "[]"] by blast
  let ?c = "fold (\<lambda>(k, v). ctx_Set k v) attrs c" and ?r2 = "seed_attrs sid attrs r1"
  have s: "at_phase ?r2 sid (hd phases) ?c" "same_setup ?r ?r2" using seed_at_phase [OF b(2)] b(3) same_setup_trans by blast+
  have get: "\<forall>key. ctx_Get ?c key = map_of attrs key" "c_SessionID ?c = sid"
    using seeded_context [OF attrs, of c] b(4,5) by (auto simp: ctx_Get_def split: option.split)
  have same: "r_byEntryState ?r2 = r_byEntryState ?r" "r_phases ?r2 = phases" using same_setup_fields [OF s(2)] svc(1) by (simp_all add: ready_def)
  have "quiet_path ?r2 (hd phases # q # qs) ?c ?c" using path [OF same(1) _ get(1)] s(1) by (simp add: at_phase_def)
  from advance_at_phase [OF s(1) this target(1,2,3), of ops now] target(4) same(2) obtain r where
    r: "AdvanceToState ops now sid target ?r2 = (r, None)" "at_phase r sid (last (q # qs)) ?c" "same_setup ?r2 r" by auto
  obtain svc1 where "Start enc ts sid participants attrs svc = (svc1, None)" "sv_runner svc1 = ?r2"
    using b(1) svc(4) by (cases "sv_InviteType svc = []") (simp_all add: Start_def Let_def)
  then show ?thesis using that r get s(2) same_setup_trans by metis
qed

text \<open>A service around a runner, in development mode.\<close>

definition service_of :: "'s runner \<Rightarrow> 's service" where
  "service_of r = \<lparr>sv_ServiceName = ''service'', sv_runner = r, sv_hub = NewHub \<lparr>am_Secret = [], am_AllowDevBypass = True\<rparr>,
     sv_artifacts = NewArtifactStore, sv_ring = None, sv_InviteType = [], sv_startedCount = 0, sv_MaxArtifactSize = 0\<rparr>"

end
