(* ===== verification/Voting_Session.thy ===== *)
theory Voting_Session
  imports Voting_Props App_Triggers
begin

text \<open>
  A voting session from its start to its transcript: the session service's trigger and its relay of onion batches
  (examples/voting/cmd/session-service/main.go), the pipelines, and what a whole session does.
\<close>

section \<open>The trigger\<close>

datatype voting_error = TooFewVoters nat | TriggerFailed trigger_error | AdvanceFailed rerror

definition canonical_attrs :: "string list \<Rightarrow> (string, anyv) gomap \<Rightarrow> (string, anyv) gomap" where
  "canonical_attrs participants attrs =
     fold (\<lambda>(k, v). AList.update k v) attrs
       [(CtxVoteParticipants, VStrings participants), (CtxParticipants, VStrings participants),
        (anon_CtxParticipants, VStrings participants)]"

definition votingTrigger_Start ::
  "'s store_ops \<Rightarrow> int \<Rightarrow> (ws_message \<Rightarrow> string + bytes) \<Rightarrow> string \<Rightarrow> string \<Rightarrow> string list \<Rightarrow> (string, anyv) gomap \<Rightarrow> 's service
    \<Rightarrow> 's service \<times> voting_error option" where
  "votingTrigger_Start ops now enc ts sid participants attrs svc =
     (if length participants < 2 then (svc, Some (TooFewVoters (length participants)))
      else
        (let (svc1, err) = Start enc ts sid participants (canonical_attrs participants attrs) svc
         in case err of
              Some e \<Rightarrow> (svc1, Some (TriggerFailed e))
            | None \<Rightarrow>
                (let (r, e) = AdvanceToState ops now sid StateGossip (sv_runner svc1)
                 in (svc1\<lparr>sv_runner := r\<rparr>, map_option AdvanceFailed e))))"

section \<open>The onion relay\<close>

text \<open>The JSON text of a batch: its onions in base64. \<open>bc_base64\<close> is the error of decoding one.\<close>

record batch_codec =
  bc_decode :: "bytes \<Rightarrow> string + string list"
  bc_encode :: "string list \<Rightarrow> string + bytes"
  bc_base64 :: "string \<Rightarrow> string option"

fun collect_onions :: "batch_codec \<Rightarrow> (string, bytes) gomap \<Rightarrow> string list \<Rightarrow> string + string list" where
  "collect_onions bc bucket [] = Inr []"
| "collect_onions bc bucket (p # ps) =
     (case map_of bucket p of
        None \<Rightarrow> Inl (''missing onion batch from '' @ p)
      | Some raw \<Rightarrow>
          (case bc_decode bc raw of
             Inl e \<Rightarrow> Inl (''decode batch from '' @ p @ '': '' @ e)
           | Inr onions \<Rightarrow>
               (case onions of
                  [] \<Rightarrow> Inl (''empty onion list from '' @ p)
                | x # _ \<Rightarrow>
                    (case bc_base64 bc x of
                       Some e \<Rightarrow> Inl (''invalid base64 from '' @ p @ '': '' @ e)
                     | None \<Rightarrow> (case collect_onions bc bucket ps of Inl e \<Rightarrow> Inl e | Inr xs \<Rightarrow> Inr (x # xs))))))"

definition assembleBatch :: "batch_codec \<Rightarrow> string list \<Rightarrow> (string, bytes) gomap \<Rightarrow> string + bytes" where
  "assembleBatch bc participants bucket =
     (case collect_onions bc bucket participants of Inl e \<Rightarrow> Inl e | Inr onions \<Rightarrow> bc_encode bc onions)"

fun index_of :: "string \<Rightarrow> string list \<Rightarrow> int \<Rightarrow> int" where
  "index_of x [] i = - 1"
| "index_of x (p # ps) i = (if p = x then i else index_of x ps (i + 1))"

definition forward_batch :: "(ws_message \<Rightarrow> string + bytes) \<Rightarrow> string \<Rightarrow> string \<Rightarrow> string \<Rightarrow> bytes \<Rightarrow> 's service \<Rightarrow> 's service" where
  "forward_batch enc ts sid peer payload svc =
     svc\<lparr>sv_hub := fst (SendTo enc ts peer (zero_message\<lparr>m_Type := MsgPeelForward, m_SessionID := sid, m_Payload := payload\<rparr>) (sv_hub svc))\<rparr>"

definition peelRelayIfNeeded ::
  "batch_codec \<Rightarrow> (ws_message \<Rightarrow> string + bytes) \<Rightarrow> string \<Rightarrow> string \<Rightarrow> string \<Rightarrow> string \<Rightarrow> bytes \<Rightarrow> 's service \<Rightarrow> 's service" where
  "peelRelayIfNeeded bc enc ts sid msgType from payload svc =
     (case session_context (sv_runner svc) sid of
        None \<Rightarrow> svc
      | Some c \<Rightarrow>
          (case TryGet as_strings c anon_CtxParticipants of
             None \<Rightarrow> svc
           | Some participants \<Rightarrow>
               if participants = [] then svc
               else if msgType = MsgOnionBatch then
                 (let bucket = AccumulatedOnions c
                  in if length bucket < length participants then svc
                     else (case assembleBatch bc participants bucket of
                             Inl e \<Rightarrow> svc
                           | Inr assembled \<Rightarrow> forward_batch enc ts sid (participants ! 0) assembled svc))
               else if msgType = MsgPeelForward then
                 (let peelerIdx = index_of from participants 0
                  in if peelerIdx < 0 \<or> int (length participants) - 1 \<le> peelerIdx then svc
                     else forward_batch enc ts sid (participants ! nat (peelerIdx + 1)) payload svc)
               else svc))"

text \<open>The hook the service runs after each dispatch.\<close>

definition voting_hook :: "batch_codec \<Rightarrow> (ws_message \<Rightarrow> string + bytes) \<Rightarrow> string \<Rightarrow> string \<Rightarrow> ws_message \<Rightarrow> rerror option \<Rightarrow> 's service \<Rightarrow> 's service" where
  "voting_hook bc enc ts pseudonym msg err svc =
     peelRelayIfNeeded bc enc ts (m_SessionID msg) (m_Type msg) pseudonym (m_Payload msg) svc"

section \<open>The pipelines compose\<close>

lemmas voting_eval = compose_eval voting_phases vote_names anon_names voting_phases_list_def

lemma voting_composed:
  obtains r where "voting_Pipeline dec order ff = Inr (r :: 's runner)" "ready (voting_phases_list dec order ff) r"
proof -
  have "\<exists>r. voting_Pipeline dec order ff = Inr (r :: 's runner)" by (simp add: voting_Pipeline_def voting_eval)
  then obtain r :: "'s runner" where r: "voting_Pipeline dec order ff = Inr r" by blast
  have "ready (voting_phases_list dec order ff) r"
    by (rule Compose_ready [OF r [unfolded voting_Pipeline_def]]) (simp add: voting_phases_list_def voting_phases bare_phase_def)
  then show ?thesis using that r by blast
qed

section \<open>A session\<close>

lemma voting_started:
  assumes "ready (voting_phases_list dec order ff) (sv_runner (svc :: 's service))" "sid \<noteq> []" "2 \<le> length ps"
  obtains svc1 c where "votingTrigger_Start ops now enc ts sid ps [] svc = (svc1, None)"
    "at_phase (sv_runner svc1) sid (PhaseSubmitVote dec StateGossip) c" "same_setup (sv_runner svc) (sv_runner svc1)"
    "ctx_Get c CtxVoteParticipants = Some (VStrings ps)" "ctx_Get c bucketBallots = None"
proof -
  let ?ph = "voting_phases_list dec order ff :: 's phase list" and ?at = "canonical_attrs ps []"
  have ph: "?ph = hd ?ph # tl ?ph" "hd ?ph = PhaseInvite" "?ph \<noteq> []" "\<And>c. ph_Enter (hd ?ph) c = (c, None)" "2 \<le> length ?ph"
    by (simp_all add: voting_phases_list_def)
  have at: "gomap_wf ?at" "map_of ?at CtxVoteParticipants = Some (VStrings ps)" "map_of ?at bucketBallots = None"
    by (simp_all add: canonical_attrs_def vote_names default_keys anon_names)
  have path: "quiet_path r (hd ?ph # PlaintextKeygenPhase # [PhaseSubmitVote dec StateGossip]) c c"
    if "r_byEntryState r = r_byEntryState (sv_runner svc)" "c_store c = None" for r and c :: "'s sctx"
    using assms(1) that by (auto simp: ph(2) ready_def voting_phases_list_def state_labels)
  have "ps \<noteq> []" using assms(3) by auto
  obtain svc1 r c where s: "Start enc ts sid ps ?at svc = (svc1, None)" "AdvanceToState ops now sid StateGossip (sv_runner svc1) = (r, None)"
    "at_phase r sid (last [PlaintextKeygenPhase, PhaseSubmitVote dec StateGossip]) c" "same_setup (sv_runner svc) r" "\<forall>key. ctx_Get c key = map_of ?at key"
    by (rule started_at [OF assms(1) ph(3) assms(2) \<open>ps \<noteq> []\<close> ph(4) at(1) path])
       (use ph(5) in \<open>auto simp: ph(2) state_labels PhaseInvite_def bare_phase_def\<close>)
  have "votingTrigger_Start ops now enc ts sid ps [] svc = (svc1\<lparr>sv_runner := r\<rparr>, None)"
    using s(1,2) assms(3) by (simp add: votingTrigger_Start_def)
  then show ?thesis using that [of "svc1\<lparr>sv_runner := r\<rparr>" c] s at by simp
qed

lemma parse_ballots_ok:
  assumes "\<forall>m\<in>set raw. \<exists>b. dec (snd m) = Inr b"
  shows "parse_ballots dec raw = Inr (map (\<lambda>(v, pl). (v, parse_ballot v (projr (dec pl)))) raw)"
  using assms by (induction raw) (auto split: sum.split)

text \<open>The ballots of a bucket: the last payload of each sender, whoever the sender is.\<close>

definition cast_ballots :: "(bytes \<Rightarrow> string + int \<times> f64) \<Rightarrow> (string \<times> bytes) list \<Rightarrow> ballot set" where
  "cast_ballots dec msgs = {parse_ballot v b | v b pl. map_of (rev msgs) v = Some pl \<and> dec pl = Inr b}"

lemma bucket_ballots:
  assumes "gomap_wf raw" "map_of raw = map_of (rev msgs)" "\<forall>m\<in>set msgs. \<exists>b. dec (snd m) = Inr b" "\<forall>m. mset (order m) = mset m"
  shows "\<exists>parsed. parse_ballots dec raw = Inr parsed \<and> set (map snd (order parsed)) = cast_ballots dec msgs
    \<and> distinct (map b_Voter (map snd (order parsed)))"
proof -
  have iff: "(v, pl) \<in> set raw \<longleftrightarrow> map_of (rev msgs) v = Some pl" for v pl
    using map_of_eq_Some_iff [OF assms(1), of v pl] assms(2) by simp
  have dec: "\<exists>b. dec pl = Inr b" if "(v, pl) \<in> set raw" for v pl
    using that [unfolded iff] assms(3) by (force dest: map_of_SomeD)
  define parsed where "parsed = map (\<lambda>(v, pl). (v, parse_ballot v (projr (dec pl)))) raw"
  define ys where "ys = map (\<lambda>(v, pl). parse_ballot v (projr (dec pl))) raw"
  have "parse_ballots dec raw = Inr parsed" unfolding parsed_def using dec by (intro parse_ballots_ok) (metis prod.collapse)
  have "map b_Voter ys = map fst raw" by (simp add: ys_def parse_ballot_def case_prod_beta comp_def)
  then have dist: "distinct (map b_Voter ys)" using assms(1) by (rule ssubst)
  have set: "set ys = cast_ballots dec msgs"
    unfolding ys_def set_map cast_ballots_def iff [symmetric] using dec by (force simp: image_iff)
  have "map snd parsed = ys" by (auto simp: parsed_def ys_def)
  then have ms: "mset (map snd (order parsed)) = mset ys" unfolding mset_map using assms(4) by (simp flip: mset_map)
  have "mset (map b_Voter (map snd (order parsed))) = mset (map b_Voter ys)" unfolding mset_map [of b_Voter] ms ..
  then have "distinct (map b_Voter (map snd (order parsed)))" using dist mset_eq_imp_distinct_iff by blast
  moreover have "set (map snd (order parsed)) = cast_ballots dec msgs" using mset_eq_setD [OF ms] set by simp
  ultimately show ?thesis using \<open>parse_ballots dec raw = Inr parsed\<close> by blast
qed

text \<open>The hooks from the last ballot to the transcript.\<close>

lemma voting_hooks:
  fixes r :: "'s runner"
  assumes r: "r_byEntryState r = r_byEntryState r0" "ready (voting_phases_list dec order ff) r0"
    and c: "c_store c = None" "parse_ballots dec (AccumulatedMessages c bucketBallots) = Inr parsed"
    and tally: "tally_of (map snd (order parsed)) = Some ty" "marshal_tally ff ty = Inr body"
  obtains c' where "quiet_path r [PhaseSubmitVote dec StateGossip, PhaseTally order, PhaseSettle ff] c c'" "c_store c' = None"
    "ctx_Get c' CtxVoteTally = Some (tally_v ty)" "ctx_Get c' CtxVoteTranscript = Some (VBytes (transcript_of body))"
proof -
  let ?c1 = "ctx_Set CtxVoteBallots (ballots_v parsed) c" let ?c2 = "ctx_Set CtxVoteTally (tally_v ty) ?c1"
  let ?c3 = "ctx_Set CtxVoteTranscript (VBytes (transcript_of body)) ?c2"
  have hooks: "SubmitVote_Exit dec c = (?c1, None)" "or_panic (Tally_Enter order) ?c1 = (?c2, None)" "or_panic (Settle_Enter ff) ?c2 = (?c3, None)"
    using c tally by (simp_all add: SubmitVote_Exit_def or_panic_def Tally_Enter_def Settle_Enter_def MustGet_def ctx_Get_Set)
  have nxt: "map_of (r_byEntryState r) StateScoring = Some (PhaseTally order)" "map_of (r_byEntryState r) StateDecrypting = Some (PhaseSettle ff)"
    using r by (simp_all add: ready_def voting_phases_list_def)
  have "StateScoring \<noteq> StateNone" "StateDecrypting \<noteq> StateNone" by (simp_all add: state_labels)
  then have "quiet_path r [PhaseSubmitVote dec StateGossip, PhaseTally order, PhaseSettle ff] c ?c3" using c(1) hooks nxt by simp
  then show ?thesis by (rule that) (simp_all add: c(1) ctx_Get_Set vote_names)
qed



end
