(* ===== verification/Helper_Client.thy ===== *)
theory Helper_Client
  imports Float64 Codec
begin

text \<open>
  The client of the OpenFHE helper process (pkg/ares/crypto/helperclient): base64 (codec.go), the request and the
  response (types.go), \<open>call\<close> (client.go), the threshold protocol (protocol_ops.go), the scoring operations
  (scoring_ops.go) and the integer scheme (bfv_ops.go).

  The helper process is not part of the repository's Go code: what it answers to a request is the function
  \<open>cl_exchange\<close> of the client, with the random choices it makes during the run. The text of an error does not
  include the input offset base64 reports.
\<close>

section \<open>Base64\<close>

definition b64_alphabet :: string where
  "b64_alphabet = ''ABCDEFGHIJKLMNOPQRSTUVWXYZabcdefghijklmnopqrstuvwxyz0123456789+/''"

definition b64_char :: "nat \<Rightarrow> char" where
  "b64_char n = b64_alphabet ! n"

definition b64_val :: "char \<Rightarrow> nat option" where
  "b64_val c = map_of (zip b64_alphabet [0..<64]) c"

fun base64_encode :: "bytes \<Rightarrow> string" where
  "base64_encode [] = []"
| "base64_encode [a] = [b64_char (of_char a div 4), b64_char (of_char a mod 4 * 16), CHR ''='', CHR ''='']"
| "base64_encode [a, b] =
     [b64_char (of_char a div 4), b64_char (of_char a mod 4 * 16 + of_char b div 16), b64_char (of_char b mod 16 * 4), CHR ''='']"
| "base64_encode (a # b # c # rest) =
     b64_char (of_char a div 4) # b64_char (of_char a mod 4 * 16 + of_char b div 16)
       # b64_char (of_char b mod 16 * 4 + of_char c div 64) # b64_char (of_char c mod 64) # base64_encode rest"

fun b64_quanta :: "string \<Rightarrow> bytes option" where
  "b64_quanta [] = Some []"
| "b64_quanta (w # x # y # z # rest) =
     (case (b64_val w, b64_val x) of
        (Some i, Some j) \<Rightarrow>
          if y = CHR ''='' then (if z = CHR ''='' \<and> rest = [] then Some [char_of (i * 4 + j div 16)] else None)
          else (case b64_val y of
                  None \<Rightarrow> None
                | Some k \<Rightarrow>
                    if z = CHR ''=''
                    then (if rest = [] then Some [char_of (i * 4 + j div 16), char_of (j mod 16 * 16 + k div 4)] else None)
                    else (case b64_val z of
                            None \<Rightarrow> None
                          | Some l \<Rightarrow>
                              map_option (\<lambda>bs. char_of (i * 4 + j div 16) # char_of (j mod 16 * 16 + k div 4)
                                # char_of (k mod 4 * 64 + l) # bs) (b64_quanta rest)))
      | _ \<Rightarrow> None)"
| "b64_quanta _ = None"

text \<open>The decoder skips carriage returns and line feeds.\<close>

definition base64_decode :: "string \<Rightarrow> bytes option" where
  "base64_decode s = b64_quanta (filter (\<lambda>c. c \<noteq> CHR 0x0D \<and> c \<noteq> CHR 0x0A) s)"

definition encodeB64 :: "bytes \<Rightarrow> string" where
  "encodeB64 raw = base64_encode raw"

definition decodeB64 :: "string \<Rightarrow> string + bytes" where
  "decodeB64 s =
     (if s = [] then Inr []
      else case base64_decode s of
             None \<Rightarrow> Inl ''base64 decode: illegal base64 data''
           | Some out \<Rightarrow> Inr out)"

lemma b64_val_char: "n < 64 \<Longrightarrow> b64_val (b64_char n) = Some n"
proof -
  have "list_all (\<lambda>n. b64_val (b64_char n) = Some n) [0..<64]" by code_simp
  then show "n < 64 \<Longrightarrow> ?thesis" by (simp add: list_all_iff)
qed

lemma b64_char_other: "n < 64 \<Longrightarrow> b64_char n \<noteq> CHR ''='' \<and> b64_char n \<noteq> CHR 0x0D \<and> b64_char n \<noteq> CHR 0x0A"
proof -
  have "list_all (\<lambda>n. b64_char n \<noteq> CHR ''='' \<and> b64_char n \<noteq> CHR 0x0D \<and> b64_char n \<noteq> CHR 0x0A) [0..<64]" by code_simp
  then show "n < 64 \<Longrightarrow> ?thesis" by (simp add: list_all_iff)
qed

text \<open>The six-bit digits of three bytes, and the bytes they give back.\<close>

lemma b64_digits:
  fixes x y z :: nat
  assumes "x < 256" "y < 256" "z < 256"
  shows "x div 4 < 64" "x mod 4 * 16 < 64" "x mod 4 * 16 + y div 16 < 64" "y mod 16 * 4 < 64" "y mod 16 * 4 + z div 64 < 64" "z mod 64 < 64"
proof -
  have "x mod 4 \<le> 3" "y div 16 \<le> 15" "y mod 16 \<le> 15" "z div 64 \<le> 3" using assms by simp_all
  then show "x div 4 < 64" "x mod 4 * 16 < 64" "x mod 4 * 16 + y div 16 < 64" "y mod 16 * 4 < 64" "y mod 16 * 4 + z div 64 < 64" "z mod 64 < 64"
    using assms by linarith+
qed

lemma b64_bytes:
  fixes x y z :: nat
  assumes "y < 256" "z < 256"
  shows "x div 4 * 4 + x mod 4 * 16 div 16 = x" "x div 4 * 4 + (x mod 4 * 16 + y div 16) div 16 = x"
    "(x mod 4 * 16 + y div 16) mod 16 * 16 + y mod 16 * 4 div 4 = y"
    "(x mod 4 * 16 + y div 16) mod 16 * 16 + (y mod 16 * 4 + z div 64) div 4 = y"
    "(y mod 16 * 4 + z div 64) mod 4 * 64 + z mod 64 = z"
proof -
  have "y div 16 < 16" "z div 64 < 4" using assms by simp_all
  then have "(x mod 4 * 16 + y div 16) div 16 = x mod 4" "(x mod 4 * 16 + y div 16) mod 16 = y div 16"
    "(y mod 16 * 4 + z div 64) div 4 = y mod 16" "(y mod 16 * 4 + z div 64) mod 4 = z div 64" by simp_all
  then show "x div 4 * 4 + x mod 4 * 16 div 16 = x" "x div 4 * 4 + (x mod 4 * 16 + y div 16) div 16 = x"
    "(x mod 4 * 16 + y div 16) mod 16 * 16 + y mod 16 * 4 div 4 = y"
    "(x mod 4 * 16 + y div 16) mod 16 * 16 + (y mod 16 * 4 + z div 64) div 4 = y"
    "(y mod 16 * 4 + z div 64) mod 4 * 64 + z mod 64 = z" by simp_all
qed

lemmas char_digits = b64_digits [OF of_char_less_256 of_char_less_256 of_char_less_256]
  and char_bytes = b64_bytes [OF of_char_less_256 of_char_less_256]

lemmas b64_step = base64_encode.simps b64_quanta.simps option.case prod.case option.map if_True if_False simp_thms

lemma b64_no_breaks: "filter (\<lambda>c. c \<noteq> CHR 0x0D \<and> c \<noteq> CHR 0x0A) (base64_encode b) = base64_encode b"
proof (induction b rule: base64_encode.induct)
  case (2 a)
  show ?case by (simp add: char_digits [THEN b64_char_other])
next
  case (3 a b)
  show ?case by (simp add: char_digits [THEN b64_char_other])
next
  case (4 a b c rest)
  then show ?case by (simp add: char_digits [THEN b64_char_other])
qed simp

lemma b64_quanta_encode: "b64_quanta (base64_encode b) = Some b"
proof (induction b rule: base64_encode.induct)
  case (2 a)
  show ?case by (simp only: b64_step char_digits [THEN b64_val_char] char_bytes char_of_char)
next
  case (3 a b)
  show ?case by (simp only: b64_step char_digits [THEN b64_val_char] char_digits [THEN b64_char_other] char_bytes char_of_char)
next
  case (4 a b c rest)
  then show ?case by (simp only: b64_step char_digits [THEN b64_val_char] char_digits [THEN b64_char_other] char_bytes char_of_char)
qed simp

lemma b64_roundtrip [simp]: "decodeB64 (encodeB64 b) = Inr b"
proof -
  have "base64_encode b = [] \<longleftrightarrow> b = []" by (cases b rule: base64_encode.cases) auto
  then show ?thesis by (simp add: decodeB64_def encodeB64_def base64_decode_def b64_no_breaks b64_quanta_encode)
qed

section \<open>Requests and answers\<close>

datatype scheme = SchemeUnset | SchemeCKKS | SchemeBFV

record contract_params =
  cp_Scheme :: scheme
  cp_RingDim :: int
  cp_ScalingFactor :: f64
  cp_ScalingModSize :: int
  cp_Depth :: int

definition EffectiveScheme :: "contract_params \<Rightarrow> scheme" where
  "EffectiveScheme p = (if cp_Scheme p = SchemeUnset then SchemeCKKS else cp_Scheme p)"

record bfv_params =
  bp_RingDim :: int
  bp_MultiplicativeDepth :: int
  bp_PlaintextModulus :: int
  bp_BatchSize :: int

record request =
  rq_Op :: string
  rq_Params :: contract_params
  rq_BFVParams :: bfv_params
  rq_PrevPublicKey :: string
  rq_JointPublicKey :: string
  rq_OwnPublicKey :: string
  rq_FinalPublicKey :: string
  rq_EvalMultBase :: string
  rq_EvalSumBase :: string
  rq_EvalMultJoined :: string
  rq_Values :: "f64 list"
  rq_IntValues :: "int list"
  rq_Ciphertext :: string
  rq_SecretKeyShare :: string
  rq_Lead :: bool
  rq_Partials :: "string list"
  rq_NSlots :: int
  rq_EvalKeys :: string
  rq_CiphertextA :: string
  rq_CiphertextB :: string
  rq_Scalar :: f64
  rq_Coefficients :: "f64 list"
  rq_PolyLowerBound :: f64
  rq_PolyUpperBound :: f64
  rq_Ciphertexts :: "string list"
  rq_PublicKeys :: "string list"
  rq_EvalMultRound1Shares :: "string list"
  rq_EvalSumRound1Shares :: "string list"
  rq_EvalMultFinalShares :: "string list"
  rq_EvalSumFinalKey :: string

record helper_response =
  rs_PublicKey :: string
  rs_SecretKeyShare :: string
  rs_Lead :: "bool option"
  rs_Ciphertext :: string
  rs_Partial :: string
  rs_Values :: "f64 list"
  rs_IntValues :: "int list"
  rs_EvalMultBase :: string
  rs_EvalSumBase :: string
  rs_EvalMultShare :: string
  rs_EvalSumShare :: string
  rs_EvalMultJoined :: string
  rs_EvalMultFinalShare :: string
  rs_EvalSumFinal :: string
  rs_EvalMultFinal :: string
  rs_Ciphertexts :: "string list"
  rs_Version :: string

definition no_contract :: contract_params where
  "no_contract = \<lparr>cp_Scheme = SchemeUnset, cp_RingDim = 0, cp_ScalingFactor = Fin 0, cp_ScalingModSize = 0, cp_Depth = 0\<rparr>"

definition no_bfv :: bfv_params where
  "no_bfv = \<lparr>bp_RingDim = 0, bp_MultiplicativeDepth = 0, bp_PlaintextModulus = 0, bp_BatchSize = 0\<rparr>"

text \<open>A request with only its operation, and an answer with every field zero.\<close>

definition request_of :: "string \<Rightarrow> request" where
  "request_of op =
     \<lparr>rq_Op = op, rq_Params = no_contract, rq_BFVParams = no_bfv, rq_PrevPublicKey = [], rq_JointPublicKey = [], rq_OwnPublicKey = [],
      rq_FinalPublicKey = [], rq_EvalMultBase = [], rq_EvalSumBase = [], rq_EvalMultJoined = [], rq_Values = [], rq_IntValues = [],
      rq_Ciphertext = [], rq_SecretKeyShare = [], rq_Lead = False, rq_Partials = [], rq_NSlots = 0, rq_EvalKeys = [],
      rq_CiphertextA = [], rq_CiphertextB = [], rq_Scalar = Fin 0, rq_Coefficients = [], rq_PolyLowerBound = Fin 0,
      rq_PolyUpperBound = Fin 0, rq_Ciphertexts = [], rq_PublicKeys = [], rq_EvalMultRound1Shares = [],
      rq_EvalSumRound1Shares = [], rq_EvalMultFinalShares = [], rq_EvalSumFinalKey = []\<rparr>"

definition no_response :: helper_response where
  "no_response =
     \<lparr>rs_PublicKey = [], rs_SecretKeyShare = [], rs_Lead = None, rs_Ciphertext = [], rs_Partial = [], rs_Values = [], rs_IntValues = [],
      rs_EvalMultBase = [], rs_EvalSumBase = [], rs_EvalMultShare = [], rs_EvalSumShare = [], rs_EvalMultJoined = [],
      rs_EvalMultFinalShare = [], rs_EvalSumFinal = [], rs_EvalMultFinal = [], rs_Ciphertexts = [], rs_Version = []\<rparr>"

record envelope =
  ev_Result :: "helper_response option"
  ev_Error :: string

text \<open>The exchange of one request: the encoder or the decoder fails, or an envelope is read.\<close>

datatype exchange = EncodeFails string | DecodeFails string | Replies envelope

record helper_client =
  cl_done :: bool
  cl_exchange :: "request \<Rightarrow> exchange"

definition Close_helper :: "helper_client \<Rightarrow> helper_client" where
  "Close_helper c = c\<lparr>cl_done := True\<rparr>"

definition call :: "helper_client \<Rightarrow> request \<Rightarrow> string + helper_response" where
  "call c req =
     (if cl_done c then Inl ''helperclient: client is closed''
      else case cl_exchange c req of
             EncodeFails e \<Rightarrow> Inl (''encode '' @ rq_Op req @ '': '' @ e)
           | DecodeFails e \<Rightarrow> Inl (''decode '' @ rq_Op req @ '' response: '' @ e)
           | Replies env \<Rightarrow>
               if ev_Error env \<noteq> [] then Inl (''helper op \"'' @ rq_Op req @ ''\": '' @ ev_Error env)
               else (case ev_Result env of
                       None \<Rightarrow> Inl (''helper op \"'' @ rq_Op req @ ''\": empty response envelope'')
                     | Some res \<Rightarrow> Inr res))"

text \<open>Sequencing, and \<open>fmt.Errorf\<close> with a prefix.\<close>

definition and_then :: "'e + 'a \<Rightarrow> ('a \<Rightarrow> 'e + 'b) \<Rightarrow> 'e + 'b" where
  "and_then x f = (case x of Inl e \<Rightarrow> Inl e | Inr y \<Rightarrow> f y)"

definition wrapf :: "string \<Rightarrow> string + 'a \<Rightarrow> string + 'a" where
  "wrapf prefix x = (case x of Inl e \<Rightarrow> Inl (prefix @ e) | Inr y \<Rightarrow> Inr y)"

lemma and_then_Inr: "and_then x f = Inr z \<longleftrightarrow> (\<exists>y. x = Inr y \<and> f y = Inr z)"
  by (cases x) (simp_all add: and_then_def)

lemma wrapf_Inr [simp]: "wrapf prefix x = Inr y \<longleftrightarrow> x = Inr y"
  by (cases x) (simp_all add: wrapf_def)

end
