(* ===== verification/Helper_Ops.thy ===== *)
theory Helper_Ops
  imports Helper_Client
begin

text \<open>
  The operations of the helper client: the threshold protocol (protocol_ops.go), the homomorphic scoring primitives
  (scoring_ops.go, sharpening.go) and the packed-integer scheme (bfv_ops.go). Each builds one request and decodes
  the fields of the answer it needs; \<open>KeygenChain\<close> runs the whole key generation.
\<close>

section \<open>The threshold protocol\<close>

record key_share =
  ks_PublicKey :: bytes
  ks_SecretKeyShare :: bytes
  ks_Lead :: bool

definition decodeKeyShare :: "helper_response \<Rightarrow> string + key_share" where
  "decodeKeyShare resp =
     and_then (decodeB64 (rs_PublicKey resp)) (\<lambda>pk.
     and_then (decodeB64 (rs_SecretKeyShare resp)) (\<lambda>sk.
     Inr \<lparr>ks_PublicKey = pk, ks_SecretKeyShare = sk, ks_Lead = (case rs_Lead resp of None \<Rightarrow> False | Some l \<Rightarrow> l)\<rparr>))"

definition KeygenFirst :: "helper_client \<Rightarrow> contract_params \<Rightarrow> string + key_share" where
  "KeygenFirst c params = and_then (call c ((request_of ''keygen_first'')\<lparr>rq_Params := params\<rparr>)) decodeKeyShare"

definition KeygenNext :: "helper_client \<Rightarrow> contract_params \<Rightarrow> bytes \<Rightarrow> string + key_share" where
  "KeygenNext c params prevPublicKey =
     and_then (call c ((request_of ''keygen_next'')\<lparr>rq_Params := params, rq_PrevPublicKey := encodeB64 prevPublicKey\<rparr>)) decodeKeyShare"

definition EncryptProfile :: "helper_client \<Rightarrow> contract_params \<Rightarrow> bytes \<Rightarrow> f64 list \<Rightarrow> string + bytes" where
  "EncryptProfile c params jointPublicKey values =
     and_then (call c ((request_of ''encrypt_profile'')
       \<lparr>rq_Params := params, rq_JointPublicKey := encodeB64 jointPublicKey, rq_Values := values\<rparr>)) (decodeB64 \<circ> rs_Ciphertext)"

text \<open>A pair of decoded fields of an answer.\<close>

definition decode_pair :: "(helper_response \<Rightarrow> string) \<Rightarrow> (helper_response \<Rightarrow> string) \<Rightarrow> helper_response \<Rightarrow> string + bytes \<times> bytes" where
  "decode_pair f g resp = and_then (decodeB64 (f resp)) (\<lambda>a. and_then (decodeB64 (g resp)) (\<lambda>b. Inr (a, b)))"

definition EvalKeyRound1Lead :: "helper_client \<Rightarrow> contract_params \<Rightarrow> bytes \<Rightarrow> string + bytes \<times> bytes" where
  "EvalKeyRound1Lead c params secretKeyShare =
     and_then (call c ((request_of ''evalkey_round1_lead'')\<lparr>rq_Params := params, rq_SecretKeyShare := encodeB64 secretKeyShare\<rparr>))
       (decode_pair rs_EvalMultBase rs_EvalSumBase)"

definition EvalKeyRound1Participant :: "helper_client \<Rightarrow> contract_params \<Rightarrow> bytes \<Rightarrow> bytes \<Rightarrow> bytes \<Rightarrow> bytes \<Rightarrow> string + bytes \<times> bytes" where
  "EvalKeyRound1Participant c params secretKeyShare evalMultBase evalSumBase ownPublicKey =
     and_then (call c ((request_of ''evalkey_round1_participant'')
       \<lparr>rq_Params := params, rq_SecretKeyShare := encodeB64 secretKeyShare, rq_EvalMultBase := encodeB64 evalMultBase,
        rq_EvalSumBase := encodeB64 evalSumBase, rq_OwnPublicKey := encodeB64 ownPublicKey\<rparr>))
       (decode_pair rs_EvalMultShare rs_EvalSumShare)"

definition EvalKeyRound2Participant :: "helper_client \<Rightarrow> contract_params \<Rightarrow> bytes \<Rightarrow> bytes \<Rightarrow> bytes \<Rightarrow> bool \<Rightarrow> string + bytes" where
  "EvalKeyRound2Participant c params secretKeyShare evalMultJoined finalPublicKey lead =
     and_then (call c ((request_of ''evalkey_round2_participant'')
       \<lparr>rq_Params := params, rq_SecretKeyShare := encodeB64 secretKeyShare, rq_EvalMultJoined := encodeB64 evalMultJoined,
        rq_FinalPublicKey := encodeB64 finalPublicKey, rq_Lead := lead\<rparr>))
       (decodeB64 \<circ> rs_EvalMultFinalShare)"

definition PartialDecrypt :: "helper_client \<Rightarrow> contract_params \<Rightarrow> bytes \<Rightarrow> bytes \<Rightarrow> bool \<Rightarrow> string + bytes" where
  "PartialDecrypt c params ciphertext secretKeyShare lead =
     and_then (call c ((request_of ''partial_decrypt'')
       \<lparr>rq_Params := params, rq_Ciphertext := encodeB64 ciphertext, rq_SecretKeyShare := encodeB64 secretKeyShare, rq_Lead := lead\<rparr>))
       (decodeB64 \<circ> rs_Partial)"

definition CombineEvalKeyRound1 :: "helper_client \<Rightarrow> contract_params \<Rightarrow> bytes list \<Rightarrow> bytes list \<Rightarrow> bytes list \<Rightarrow> string + bytes \<times> bytes" where
  "CombineEvalKeyRound1 c params pks multShares sumShares =
     and_then (call c ((request_of ''combine_evalkey_round1'')
       \<lparr>rq_Params := params, rq_PublicKeys := map encodeB64 pks, rq_EvalMultRound1Shares := map encodeB64 multShares,
        rq_EvalSumRound1Shares := map encodeB64 sumShares\<rparr>))
       (decode_pair rs_EvalMultJoined rs_EvalSumFinal)"

definition CombineEvalKeyRound2 :: "helper_client \<Rightarrow> contract_params \<Rightarrow> bytes \<Rightarrow> bytes list \<Rightarrow> bytes \<Rightarrow> string + bytes" where
  "CombineEvalKeyRound2 c params finalPublicKey finalShares evalSumFinal =
     and_then (call c ((request_of ''combine_evalkey_round2'')
       \<lparr>rq_Params := params, rq_FinalPublicKey := encodeB64 finalPublicKey, rq_EvalMultFinalShares := map encodeB64 finalShares,
        rq_EvalSumFinalKey := encodeB64 evalSumFinal\<rparr>))
       (decodeB64 \<circ> rs_EvalMultFinal)"

definition FusePartials :: "helper_client \<Rightarrow> contract_params \<Rightarrow> bytes list \<Rightarrow> int \<Rightarrow> string + f64 list" where
  "FusePartials c params partials nSlots =
     and_then (call c ((request_of ''fuse_partials'')\<lparr>rq_Params := params, rq_Partials := map encodeB64 partials, rq_NSlots := nSlots\<rparr>))
       (\<lambda>resp. Inr (rs_Values resp))"

definition Version :: "helper_client \<Rightarrow> string + string" where
  "Version c = and_then (call c (request_of ''version'')) (\<lambda>resp. Inr (rs_Version resp))"

section \<open>The key generation chain\<close>

record key_bundle =
  kb_PublicKey :: bytes
  kb_EvalKeys :: bytes
  kb_EvalSumKeys :: bytes
  kb_KeyShares :: "key_share list"

text \<open>A loop over slots, stopping at the first error, and the chain in which every share extends the one before.\<close>

fun over_slots :: "(nat \<Rightarrow> 'a \<Rightarrow> string + 'b) \<Rightarrow> nat \<Rightarrow> 'a list \<Rightarrow> string + 'b list" where
  "over_slots f slot [] = Inr []"
| "over_slots f slot (x # xs) = and_then (f slot x) (\<lambda>y. and_then (over_slots f (Suc slot) xs) (\<lambda>ys. Inr (y # ys)))"

fun chain_shares :: "(nat \<Rightarrow> bytes \<Rightarrow> string + key_share) \<Rightarrow> nat \<Rightarrow> nat \<Rightarrow> key_share \<Rightarrow> string + key_share list" where
  "chain_shares next_share slot 0 prev = Inr []"
| "chain_shares next_share slot (Suc k) prev =
     and_then (next_share slot (ks_PublicKey prev)) (\<lambda>share.
     and_then (chain_shares next_share (Suc slot) k share) (\<lambda>rest. Inr (share # rest)))"

definition at_slot :: "string \<Rightarrow> nat \<Rightarrow> string \<Rightarrow> string" where
  "at_slot chain slot op = chain @ '': slot '' @ nat_dec slot @ '' '' @ op @ '': ''"

definition KeygenChain :: "helper_client \<Rightarrow> contract_params \<Rightarrow> int \<Rightarrow> string + key_bundle" where
  "KeygenChain c params n =
     (if n < 2 then Inl (''KeygenChain: n must be >= 2, got '' @ itoa n)
      else
        and_then (wrapf ''KeygenChain: slot 0 keygen_first: '' (KeygenFirst c params)) (\<lambda>first.
        and_then (chain_shares (\<lambda>slot pk. wrapf (at_slot ''KeygenChain'' slot ''keygen_next'') (KeygenNext c params pk)) 1 (nat n - 1) first) (\<lambda>others.
        let shares = first # others; finalPublicKey = ks_PublicKey (last shares) in
        and_then (wrapf ''KeygenChain: evalkey_round1_lead: '' (EvalKeyRound1Lead c params (ks_SecretKeyShare first))) (\<lambda>(multBase, sumBase).
        and_then (over_slots (\<lambda>slot sh. wrapf (at_slot ''KeygenChain'' slot ''evalkey_round1_participant'')
            (EvalKeyRound1Participant c params (ks_SecretKeyShare sh) multBase sumBase (ks_PublicKey sh))) 1 others) (\<lambda>ps.
        and_then (wrapf ''KeygenChain: combine_evalkey_round1: ''
            (CombineEvalKeyRound1 c params (map ks_PublicKey shares) (multBase # map fst ps) (sumBase # map snd ps))) (\<lambda>(multJoined, sumFinal).
        and_then (over_slots (\<lambda>slot sh. wrapf (at_slot ''KeygenChain'' slot ''evalkey_round2_participant'')
            (EvalKeyRound2Participant c params (ks_SecretKeyShare sh) multJoined finalPublicKey (slot = 0))) 0 shares) (\<lambda>r2Shares.
        and_then (wrapf ''KeygenChain: combine_evalkey_round2: ''
            (CombineEvalKeyRound2 c params finalPublicKey r2Shares sumFinal)) (\<lambda>evalKeys.
        Inr \<lparr>kb_PublicKey = finalPublicKey, kb_EvalKeys = evalKeys, kb_EvalSumKeys = sumFinal, kb_KeyShares = shares\<rparr>))))))))"

section \<open>Scoring\<close>

definition eval_binary :: "string \<Rightarrow> helper_client \<Rightarrow> contract_params \<Rightarrow> bytes \<Rightarrow> bytes \<Rightarrow> bytes \<Rightarrow> string + bytes" where
  "eval_binary op c params evalKeys ctA ctB =
     and_then (call c ((request_of op)
       \<lparr>rq_Params := params, rq_EvalKeys := encodeB64 evalKeys, rq_CiphertextA := encodeB64 ctA, rq_CiphertextB := encodeB64 ctB\<rparr>))
       (decodeB64 \<circ> rs_Ciphertext)"

definition EvalAdd :: "helper_client \<Rightarrow> contract_params \<Rightarrow> bytes \<Rightarrow> bytes \<Rightarrow> bytes \<Rightarrow> string + bytes" where
  "EvalAdd = eval_binary ''eval_add''"

definition EvalSub :: "helper_client \<Rightarrow> contract_params \<Rightarrow> bytes \<Rightarrow> bytes \<Rightarrow> bytes \<Rightarrow> string + bytes" where
  "EvalSub = eval_binary ''eval_sub''"

definition EvalMult :: "helper_client \<Rightarrow> contract_params \<Rightarrow> bytes \<Rightarrow> bytes \<Rightarrow> bytes \<Rightarrow> string + bytes" where
  "EvalMult = eval_binary ''eval_mult''"

definition EvalConstMult :: "helper_client \<Rightarrow> contract_params \<Rightarrow> bytes \<Rightarrow> f64 \<Rightarrow> string + bytes" where
  "EvalConstMult c params ct scalar =
     and_then (call c ((request_of ''eval_const_mult'')\<lparr>rq_Params := params, rq_Ciphertext := encodeB64 ct, rq_Scalar := scalar\<rparr>))
       (decodeB64 \<circ> rs_Ciphertext)"

record eval_poly =
  ep_Coefficients :: "f64 list"
  ep_LowerBound :: f64
  ep_UpperBound :: f64

definition EvalPoly :: "helper_client \<Rightarrow> contract_params \<Rightarrow> bytes \<Rightarrow> bytes \<Rightarrow> eval_poly \<Rightarrow> string + bytes" where
  "EvalPoly c params evalKeys ct poly =
     and_then (call c ((request_of ''eval_poly'')
       \<lparr>rq_Params := params, rq_EvalKeys := encodeB64 evalKeys, rq_Ciphertext := encodeB64 ct, rq_Coefficients := ep_Coefficients poly,
        rq_PolyLowerBound := ep_LowerBound poly, rq_PolyUpperBound := ep_UpperBound poly\<rparr>))
       (decodeB64 \<circ> rs_Ciphertext)"

definition Argmax :: "helper_client \<Rightarrow> contract_params \<Rightarrow> bytes \<Rightarrow> bytes list \<Rightarrow> eval_poly \<Rightarrow> string + bytes list" where
  "Argmax c params evalKeys ciphertexts poly =
     and_then (call c ((request_of ''argmax'')
       \<lparr>rq_Params := params, rq_EvalKeys := encodeB64 evalKeys, rq_Ciphertexts := map encodeB64 ciphertexts,
        rq_Coefficients := ep_Coefficients poly, rq_PolyLowerBound := ep_LowerBound poly, rq_PolyUpperBound := ep_UpperBound poly\<rparr>))
       (\<lambda>resp. over_slots (\<lambda>slot. decodeB64) 0 (rs_Ciphertexts resp))"

definition SharpenSignDegree3 :: eval_poly where
  "SharpenSignDegree3 = \<lparr>ep_Coefficients = [Fin 0, Fin (3 / 2), Fin 0, Fin (- (1 / 2))], ep_LowerBound = Fin (- 1), ep_UpperBound = Fin 1\<rparr>"

definition SharpenSignDegree9 :: eval_poly where
  "SharpenSignDegree9 =
     \<lparr>ep_Coefficients = [Fin 0, Fin (315 / 128), Fin 0, Fin (- (105 / 32)), Fin 0, Fin (189 / 64), Fin 0, Fin (- (45 / 32)), Fin 0, Fin (35 / 128)],
      ep_LowerBound = Fin (- 1), ep_UpperBound = Fin 1\<rparr>"

definition SharpenChebyshev :: "f64 \<Rightarrow> f64 \<Rightarrow> int \<Rightarrow> eval_poly" where
  "SharpenChebyshev low high degree = \<lparr>ep_Coefficients = [], ep_LowerBound = low, ep_UpperBound = high\<rparr>"

section \<open>The packed-integer scheme\<close>

definition BFVKeygenFirst :: "helper_client \<Rightarrow> bfv_params \<Rightarrow> string + key_share" where
  "BFVKeygenFirst c params = and_then (call c ((request_of ''bfv_keygen_first'')\<lparr>rq_BFVParams := params\<rparr>)) decodeKeyShare"

definition BFVKeygenNext :: "helper_client \<Rightarrow> bfv_params \<Rightarrow> bytes \<Rightarrow> string + key_share" where
  "BFVKeygenNext c params prevPublicKey =
     and_then (call c ((request_of ''bfv_keygen_next'')\<lparr>rq_BFVParams := params, rq_PrevPublicKey := encodeB64 prevPublicKey\<rparr>)) decodeKeyShare"

definition BFVEncryptIntVector :: "helper_client \<Rightarrow> bfv_params \<Rightarrow> bytes \<Rightarrow> int list \<Rightarrow> string + bytes" where
  "BFVEncryptIntVector c params jointPublicKey values =
     and_then (call c ((request_of ''bfv_encrypt_int_vector'')
       \<lparr>rq_BFVParams := params, rq_JointPublicKey := encodeB64 jointPublicKey, rq_IntValues := values\<rparr>)) (decodeB64 \<circ> rs_Ciphertext)"

definition BFVEvalKeyRound1Lead :: "helper_client \<Rightarrow> bfv_params \<Rightarrow> bytes \<Rightarrow> string + bytes \<times> bytes" where
  "BFVEvalKeyRound1Lead c params secretKeyShare =
     and_then (call c ((request_of ''bfv_evalkey_round1_lead'')\<lparr>rq_BFVParams := params, rq_SecretKeyShare := encodeB64 secretKeyShare\<rparr>))
       (decode_pair rs_EvalMultBase rs_EvalSumBase)"

definition BFVEvalKeyRound1Participant :: "helper_client \<Rightarrow> bfv_params \<Rightarrow> bytes \<Rightarrow> bytes \<Rightarrow> bytes \<Rightarrow> bytes \<Rightarrow> string + bytes \<times> bytes" where
  "BFVEvalKeyRound1Participant c params secretKeyShare evalMultBase evalSumBase ownPublicKey =
     and_then (call c ((request_of ''bfv_evalkey_round1_participant'')
       \<lparr>rq_BFVParams := params, rq_SecretKeyShare := encodeB64 secretKeyShare, rq_EvalMultBase := encodeB64 evalMultBase,
        rq_EvalSumBase := encodeB64 evalSumBase, rq_OwnPublicKey := encodeB64 ownPublicKey\<rparr>))
       (decode_pair rs_EvalMultShare rs_EvalSumShare)"

definition BFVCombineEvalKeyRound1 :: "helper_client \<Rightarrow> bfv_params \<Rightarrow> bytes list \<Rightarrow> bytes list \<Rightarrow> bytes list \<Rightarrow> string + bytes \<times> bytes" where
  "BFVCombineEvalKeyRound1 c params pks multShares sumShares =
     and_then (call c ((request_of ''bfv_combine_evalkey_round1'')
       \<lparr>rq_BFVParams := params, rq_PublicKeys := map encodeB64 pks, rq_EvalMultRound1Shares := map encodeB64 multShares,
        rq_EvalSumRound1Shares := map encodeB64 sumShares\<rparr>))
       (decode_pair rs_EvalMultJoined rs_EvalSumFinal)"

definition BFVEvalKeyRound2Participant :: "helper_client \<Rightarrow> bfv_params \<Rightarrow> bytes \<Rightarrow> bytes \<Rightarrow> bytes \<Rightarrow> bool \<Rightarrow> string + bytes" where
  "BFVEvalKeyRound2Participant c params secretKeyShare evalMultJoined finalPublicKey lead =
     and_then (call c ((request_of ''bfv_evalkey_round2_participant'')
       \<lparr>rq_BFVParams := params, rq_SecretKeyShare := encodeB64 secretKeyShare, rq_EvalMultJoined := encodeB64 evalMultJoined,
        rq_FinalPublicKey := encodeB64 finalPublicKey, rq_Lead := lead\<rparr>))
       (decodeB64 \<circ> rs_EvalMultFinalShare)"

definition BFVCombineEvalKeyRound2 :: "helper_client \<Rightarrow> bfv_params \<Rightarrow> bytes \<Rightarrow> bytes list \<Rightarrow> bytes \<Rightarrow> string + bytes" where
  "BFVCombineEvalKeyRound2 c params finalPublicKey finalShares evalSumFinal =
     and_then (call c ((request_of ''bfv_combine_evalkey_round2'')
       \<lparr>rq_BFVParams := params, rq_FinalPublicKey := encodeB64 finalPublicKey, rq_EvalMultFinalShares := map encodeB64 finalShares,
        rq_EvalSumFinalKey := encodeB64 evalSumFinal\<rparr>))
       (decodeB64 \<circ> rs_EvalMultFinal)"

definition BFVKeygenChain :: "helper_client \<Rightarrow> bfv_params \<Rightarrow> int \<Rightarrow> string + key_bundle" where
  "BFVKeygenChain c params n =
     (if n < 2 then Inl (''BFVKeygenChain: n must be >= 2, got '' @ itoa n)
      else
        and_then (wrapf ''BFVKeygenChain: slot 0 bfv_keygen_first: '' (BFVKeygenFirst c params)) (\<lambda>first.
        and_then (chain_shares (\<lambda>slot pk. wrapf (at_slot ''BFVKeygenChain'' slot ''bfv_keygen_next'') (BFVKeygenNext c params pk)) 1 (nat n - 1) first) (\<lambda>others.
        let shares = first # others; finalPublicKey = ks_PublicKey (last shares) in
        and_then (wrapf ''BFVKeygenChain: bfv_evalkey_round1_lead: '' (BFVEvalKeyRound1Lead c params (ks_SecretKeyShare first))) (\<lambda>(multBase, sumBase).
        and_then (over_slots (\<lambda>slot sh. wrapf (at_slot ''BFVKeygenChain'' slot ''bfv_evalkey_round1_participant'')
            (BFVEvalKeyRound1Participant c params (ks_SecretKeyShare sh) multBase sumBase (ks_PublicKey sh))) 1 others) (\<lambda>ps.
        and_then (wrapf ''BFVKeygenChain: bfv_combine_evalkey_round1: ''
            (BFVCombineEvalKeyRound1 c params (map ks_PublicKey shares) (multBase # map fst ps) (sumBase # map snd ps))) (\<lambda>(multJoined, sumFinal).
        and_then (over_slots (\<lambda>slot sh. wrapf (at_slot ''BFVKeygenChain'' slot ''bfv_evalkey_round2_participant'')
            (BFVEvalKeyRound2Participant c params (ks_SecretKeyShare sh) multJoined finalPublicKey (slot = 0))) 0 shares) (\<lambda>r2Shares.
        and_then (wrapf ''BFVKeygenChain: bfv_combine_evalkey_round2: ''
            (BFVCombineEvalKeyRound2 c params finalPublicKey r2Shares sumFinal)) (\<lambda>evalKeys.
        Inr \<lparr>kb_PublicKey = finalPublicKey, kb_EvalKeys = evalKeys, kb_EvalSumKeys = sumFinal, kb_KeyShares = shares\<rparr>))))))))"

definition BFVEvalProductSum :: "helper_client \<Rightarrow> bfv_params \<Rightarrow> bytes \<Rightarrow> bytes \<Rightarrow> bytes \<Rightarrow> bytes \<Rightarrow> int \<Rightarrow> string + bytes" where
  "BFVEvalProductSum c params evalMultKey evalSumKey leftCiphertext rightCiphertext nSlots =
     and_then (call c ((request_of ''bfv_eval_product_sum'')
       \<lparr>rq_BFVParams := params, rq_EvalKeys := encodeB64 evalMultKey, rq_EvalSumFinalKey := encodeB64 evalSumKey,
        rq_CiphertextA := encodeB64 leftCiphertext, rq_CiphertextB := encodeB64 rightCiphertext, rq_NSlots := nSlots\<rparr>))
       (decodeB64 \<circ> rs_Ciphertext)"

definition BFVPartialDecrypt :: "helper_client \<Rightarrow> bfv_params \<Rightarrow> bytes \<Rightarrow> bytes \<Rightarrow> bool \<Rightarrow> string + bytes" where
  "BFVPartialDecrypt c params ciphertext secretKeyShare lead =
     and_then (call c ((request_of ''bfv_partial_decrypt'')
       \<lparr>rq_BFVParams := params, rq_Ciphertext := encodeB64 ciphertext, rq_SecretKeyShare := encodeB64 secretKeyShare, rq_Lead := lead\<rparr>))
       (decodeB64 \<circ> rs_Partial)"

definition BFVFusePartials :: "helper_client \<Rightarrow> bfv_params \<Rightarrow> bytes list \<Rightarrow> int \<Rightarrow> string + int list" where
  "BFVFusePartials c params partials nSlots =
     and_then (call c ((request_of ''bfv_fuse_partials_int'')\<lparr>rq_BFVParams := params, rq_Partials := map encodeB64 partials, rq_NSlots := nSlots\<rparr>))
       (\<lambda>resp. Inr (rs_IntValues resp))"

section \<open>What the chain produces\<close>

text \<open>A share chain: every share after the first answers the public key before it.\<close>

definition chained_shares :: "(bytes \<Rightarrow> string + key_share) \<Rightarrow> key_share list \<Rightarrow> bool" where
  "chained_shares nxt shares \<longleftrightarrow> (\<forall>i. Suc i < length shares \<longrightarrow> nxt (ks_PublicKey (shares ! i)) = Inr (shares ! Suc i))"

lemma chain_shares_Inr:
  assumes "chain_shares nxt slot k prev = Inr shares" "\<And>slot pk s. nxt slot pk = Inr s \<longleftrightarrow> step pk = Inr s"
  shows "length shares = k \<and> chained_shares step (prev # shares)"
  using assms(1)
proof (induction k arbitrary: slot prev shares)
  case (Suc k)
  then obtain s rest where "nxt slot (ks_PublicKey prev) = Inr s" "chain_shares nxt (Suc slot) k s = Inr rest" "shares = s # rest"
    by (auto simp: and_then_Inr)
  with Suc.IH [of "Suc slot" s rest] assms(2) show ?case
    by (auto simp: chained_shares_def nth_Cons split: nat.split)
qed (simp add: chained_shares_def)

lemma over_slots_Inr:
  "over_slots f slot xs = Inr ys \<Longrightarrow> length ys = length xs \<and> (\<forall>i<length ys. f (slot + i) (xs ! i) = Inr (ys ! i))"
proof (induction f slot xs arbitrary: ys rule: over_slots.induct)
  case (2 f slot x xs)
  then obtain y zs where "f slot x = Inr y" "over_slots f (Suc slot) xs = Inr zs" "ys = y # zs" by (auto simp: and_then_Inr)
  with 2(1) [of zs] show ?case by (auto simp: nth_Cons split: nat.split)
qed simp

lemma KeygenChain_shares:
  assumes "KeygenChain c params n = Inr b"
  shows "2 \<le> n \<and> length (kb_KeyShares b) = nat n \<and> KeygenFirst c params = Inr (hd (kb_KeyShares b))
    \<and> chained_shares (KeygenNext c params) (kb_KeyShares b) \<and> kb_PublicKey b = ks_PublicKey (last (kb_KeyShares b))"
proof -
  obtain s others where s: "KeygenFirst c params = Inr s" "2 \<le> n"
    "chain_shares (\<lambda>slot pk. wrapf (at_slot ''KeygenChain'' slot ''keygen_next'') (KeygenNext c params pk)) 1 (nat n - 1) s = Inr others"
    "kb_KeyShares b = s # others" "kb_PublicKey b = ks_PublicKey (last (s # others))"
    using assms by (auto simp: KeygenChain_def and_then_Inr Let_def split: if_splits)
  have "length others = nat n - 1 \<and> chained_shares (KeygenNext c params) (s # others)"
    by (rule chain_shares_Inr [OF s(3)]) simp
  then show ?thesis using s by auto
qed

lemma BFVKeygenChain_shares:
  assumes "BFVKeygenChain c params n = Inr b"
  shows "2 \<le> n \<and> length (kb_KeyShares b) = nat n \<and> BFVKeygenFirst c params = Inr (hd (kb_KeyShares b))
    \<and> chained_shares (BFVKeygenNext c params) (kb_KeyShares b) \<and> kb_PublicKey b = ks_PublicKey (last (kb_KeyShares b))"
proof -
  obtain s others where s: "BFVKeygenFirst c params = Inr s" "2 \<le> n"
    "chain_shares (\<lambda>slot pk. wrapf (at_slot ''BFVKeygenChain'' slot ''bfv_keygen_next'') (BFVKeygenNext c params pk)) 1 (nat n - 1) s = Inr others"
    "kb_KeyShares b = s # others" "kb_PublicKey b = ks_PublicKey (last (s # others))"
    using assms by (auto simp: BFVKeygenChain_def and_then_Inr Let_def split: if_splits)
  have "length others = nat n - 1 \<and> chained_shares (BFVKeygenNext c params) (s # others)"
    by (rule chain_shares_Inr [OF s(3)]) simp
  then show ?thesis using s by auto
qed

text \<open>Behind a chained public key stand the secret shares of the chain.\<close>

lemma joint_chain:
  assumes "chained_shares nxt shares" "shares \<noteq> []" "joint (ks_PublicKey (hd shares)) = [ks_SecretKeyShare (hd shares)]"
    and "\<forall>pk s. nxt pk = Inr s \<longrightarrow> joint (ks_PublicKey s) = joint pk @ [ks_SecretKeyShare s]"
  shows "joint (ks_PublicKey (last shares)) = map ks_SecretKeyShare shares"
  using assms(1-3)
proof (induction shares rule: rev_induct)
  case (snoc s shares)
  show ?case
  proof (cases "shares = []")
    case False
    have "chained_shares nxt shares" unfolding chained_shares_def
    proof (intro allI impI)
      fix i assume "Suc i < length shares"
      then show "nxt (ks_PublicKey (shares ! i)) = Inr (shares ! Suc i)"
        using snoc.prems(1) [unfolded chained_shares_def, rule_format, of i] by (simp add: nth_append)
    qed
    then have "joint (ks_PublicKey (last shares)) = map ks_SecretKeyShare shares" using snoc False by simp
    moreover have "nxt (ks_PublicKey (last shares)) = Inr s"
      using snoc.prems(1) [unfolded chained_shares_def, rule_format, of "length shares - 1"] False
      by (simp add: nth_append last_conv_nth)
    ultimately show ?thesis using assms(4) by simp
  qed (use snoc in simp)
qed simp


definition demo_exchange :: "request \<Rightarrow> exchange" where
  "demo_exchange req =
     (if rq_Op req = ''bfv_keygen_first''
      then Replies \<lparr>ev_Result = Some (no_response\<lparr>rs_PublicKey := encodeB64 ''A'', rs_SecretKeyShare := encodeB64 ''x''\<rparr>), ev_Error = []\<rparr>
      else if rq_Op req = ''bfv_keygen_next''
      then Replies \<lparr>ev_Result = Some (no_response\<lparr>rs_PublicKey := encodeB64 (projr (decodeB64 (rq_PrevPublicKey req)) @ ''A''),
             rs_SecretKeyShare := encodeB64 ''y''\<rparr>), ev_Error = []\<rparr>
      else if rq_Op req = ''bfv_encrypt_int_vector'' \<and> rq_IntValues req \<noteq> [7] then Replies \<lparr>ev_Result = None, ev_Error = ''overflow''\<rparr>
      else Replies \<lparr>ev_Result = Some (no_response\<lparr>rs_IntValues := [7]\<rparr>), ev_Error = []\<rparr>)"

definition demo_client :: helper_client where
  "demo_client = \<lparr>cl_done = False, cl_exchange = demo_exchange\<rparr>"

lemmas demo_calls = demo_client_def demo_exchange_def call_def request_of_def no_response_def and_then_def decodeKeyShare_def decode_pair_def
  decodeB64_def [of "[]"]


end
