(* ===== verification/Sharpening.thy ===== *)
theory Sharpening
  imports Helper_Ops
begin

text \<open>
  The built-in sharpening polynomials (helperclient/sharpening.go) and the one the session services of the auction,
  the ranking and the ride-share application pass to the helper: what they do to a difference of scores in the
  interval they are meant for. The helper evaluates the polynomial with the coefficients in ascending order.
\<close>

definition poly_value :: "eval_poly \<Rightarrow> rat \<Rightarrow> rat" where
  "poly_value p x = foldr (\<lambda>a acc. fval a + x * acc) (ep_Coefficients p) 0"

definition session_sharpening :: eval_poly where
  "session_sharpening = \<lparr>ep_Coefficients = [Fin (1 / 2), Fin (3 / 4), Fin 0, Fin (- (1 / 4))], ep_LowerBound = Fin (- 1), ep_UpperBound = Fin 1\<rparr>"

lemma poly_values:
  "poly_value SharpenSignDegree3 x = 3 / 2 * x - x ^ 3 / 2"
  "poly_value SharpenSignDegree9 x = (315 * x - 420 * x ^ 3 + 378 * x ^ 5 - 180 * x ^ 7 + 35 * x ^ 9) / 128"
  "poly_value session_sharpening x = 1 / 2 + 3 / 4 * x - x ^ 3 / 4"
  by (simp_all add: poly_value_def SharpenSignDegree3_def SharpenSignDegree9_def session_sharpening_def field_simps eval_nat_numeral)

lemma degree3_gap: "3 / 2 * x - x ^ 3 / 2 - x = x * (1 - x) * (1 + x) / (2 :: rat)"
  by (simp add: field_simps eval_nat_numeral)

lemma degree3_cap: "1 - (3 / 2 * x - x ^ 3 / 2) = (1 - x) ^ 2 * (2 + x) / (2 :: rat)"
  by (simp add: field_simps eval_nat_numeral)

lemma degree9_gap:
  "(315 * x - 420 * x ^ 3 + 378 * x ^ 5 - 180 * x ^ 7 + 35 * x ^ 9) / 128 - x
     = x * (1 - x) * (1 + x) * (64 + (1 - x) * (1 + x) * (13 + 110 * ((1 - x) * (1 + x)) + 35 * x ^ 4)) / (128 :: rat)"
  by (simp add: field_simps eval_nat_numeral)

lemma degree9_cap:
  "1 - (315 * x - 420 * x ^ 3 + 378 * x ^ 5 - 180 * x ^ 7 + 35 * x ^ 9) / 128
     = (1 - x) ^ 5 * (128 + 325 * x + 345 * x ^ 2 + 175 * x ^ 3 + 35 * x ^ 4) / (128 :: rat)"
  by (simp add: field_simps eval_nat_numeral)

text \<open>C37. Sharpening works in the right direction on its interval: both sign polynomials are odd, and a positive
  difference of scores below one is moved strictly towards one and stays below it. The indicator the services use is
  half of one plus the cubic sign, so it stays strictly between zero and one and the indicators of a difference and of
  its opposite add to one.\<close>

theorem sharpening_separates:
  assumes "0 < x" "x < 1" "p \<in> {SharpenSignDegree3, SharpenSignDegree9}"
  shows "x < poly_value p x \<and> poly_value p x < 1 \<and> poly_value p (- x) = - poly_value p x
    \<and> 1 / 2 < poly_value session_sharpening x \<and> poly_value session_sharpening x < 1
    \<and> poly_value session_sharpening x + poly_value session_sharpening (- x) = 1"
proof -
  have pos: "0 < x * (1 - x) * (1 + x)" "0 < (1 - x) * (1 + x)" using assms by simp_all
  have "0 < 64 + (1 - x) * (1 + x) * (13 + 110 * ((1 - x) * (1 + x)) + 35 * x ^ 4)" using pos assms(1) by (simp add: add_pos_pos)
  then have g9: "0 < (315 * x - 420 * x ^ 3 + 378 * x ^ 5 - 180 * x ^ 7 + 35 * x ^ 9) / 128 - x" unfolding degree9_gap using pos by simp
  have c9: "0 < 1 - (315 * x - 420 * x ^ 3 + 378 * x ^ 5 - 180 * x ^ 7 + 35 * x ^ 9) / 128" unfolding degree9_cap using assms by (simp add: add_pos_pos)
  have g3: "0 < 3 / 2 * x - x ^ 3 / 2 - x" unfolding degree3_gap using pos by simp
  have c3: "0 < 1 - (3 / 2 * x - x ^ 3 / 2)" unfolding degree3_cap using assms by (simp add: add_pos_pos)
  have "x < poly_value p x \<and> poly_value p x < 1" using assms(3) g9 c9 g3 c3 by (auto simp: poly_values)
  moreover have "poly_value p (- x) = - poly_value p x" using assms(3) by (auto simp: poly_values field_simps)
  moreover have "1 / 2 < poly_value session_sharpening x" "poly_value session_sharpening x < 1" using g3 c3 assms(1) by (simp_all add: poly_values)
  ultimately show ?thesis by (simp add: poly_values)
qed

lemma sharpening_separates_witness: "poly_value SharpenSignDegree3 (1 / 2) = 11 / 16 \<and> 1 / 2 < poly_value session_sharpening (1 / 2)"
  using sharpening_separates [of "1 / 2" SharpenSignDegree3] by (simp add: poly_values power3_eq_cube)

end
