(* ===== verification/Go_Convert.thy ===== *)
theory Go_Convert
  imports Float64
begin

text \<open>
  Go's conversions between numbers. A conversion between integer types keeps the low bits; a conversion from a float
  truncates towards zero, and where the result does not fit the language leaves the value to the implementation:
  the argument \<open>oob\<close> stands for what the platform gives.
\<close>

definition trunc :: "rat \<Rightarrow> int" where
  "trunc r = (if 0 \<le> r then \<lfloor>r\<rfloor> else \<lceil>r\<rceil>)"

definition float_to :: "(f64 \<Rightarrow> int) \<Rightarrow> int \<Rightarrow> int \<Rightarrow> f64 \<Rightarrow> int" where
  "float_to oob lo hi x =
     (case x of
        Fin r \<Rightarrow> if lo \<le> trunc r \<and> trunc r \<le> hi then trunc r else oob x
      | _ \<Rightarrow> oob x)"

definition int64_of :: "(f64 \<Rightarrow> int) \<Rightarrow> f64 \<Rightarrow> int" where
  "int64_of oob = float_to oob (- (2 ^ 63)) (2 ^ 63 - 1)"

definition uint32_of :: "(f64 \<Rightarrow> int) \<Rightarrow> f64 \<Rightarrow> int" where
  "uint32_of oob = float_to oob 0 (2 ^ 32 - 1)"

definition wrap_uint32 :: "int \<Rightarrow> int" where
  "wrap_uint32 n = n mod 2 ^ 32"

lemma trunc_of_int [simp]: "trunc (of_int n) = n"
  by (simp add: trunc_def)

lemma trunc_mono: "a \<le> b \<Longrightarrow> trunc a \<le> trunc b"
proof -
  assume "a \<le> b"
  then consider "0 \<le> a" | "a < 0" "0 \<le> b" | "b < 0" by linarith
  then show "trunc a \<le> trunc b"
  proof cases
    case 2
    then have "\<lceil>a\<rceil> \<le> 0" "0 \<le> \<lfloor>b\<rfloor>" by simp_all
    moreover have "trunc a = \<lceil>a\<rceil>" "trunc b = \<lfloor>b\<rfloor>" using 2 by (simp_all add: trunc_def)
    ultimately show ?thesis by linarith
  qed (use \<open>a \<le> b\<close> in \<open>simp_all add: trunc_def floor_mono ceiling_mono\<close>)
qed

lemma uint32_of_range: "oob x \<in> {0..<2 ^ 32} \<Longrightarrow> uint32_of oob x \<in> {0..<2 ^ 32}"
  by (cases x) (auto simp: uint32_of_def float_to_def)

end
