(* ===== verification/Fhe_Apps.thy ===== *)
theory Fhe_Apps
  imports App_Runs Sharpening Go_Convert
begin

text \<open>
  What the helper-backed applications have in common (the sealed-bid auction, the ride share and the cohort ranking):
  reading the crypto contract, decoding ciphertexts, and the hooks of their key generation, scoring, decryption and
  settlement phases, which differ in the names of keys, buckets and message texts. A phase without helper is
  the stub variant.

  The JSON encoder and decoder, the text of a type name and of a hex error, the order in which a map is visited and
  the value of an out-of-range conversion are fields of the environment.
\<close>

section \<open>The environment\<close>

record app_env =
  ae_oob :: "f64 \<Rightarrow> int"
  ae_typename :: "anyv \<Rightarrow> string"
  ae_marshal :: "anyv \<Rightarrow> string + bytes"
  ae_fields :: "bytes \<Rightarrow> string + (string \<Rightarrow> string)"
  ae_hexerr :: "string \<Rightarrow> string"
  ae_order :: "(string, bytes) gomap \<Rightarrow> (string, bytes) gomap"

definition hexDecodeString :: "app_env \<Rightarrow> string \<Rightarrow> string + bytes" where
  "hexDecodeString E s = (case hex_decode s of None \<Rightarrow> Inl (ae_hexerr E s) | Some b \<Rightarrow> Inr b)"

section \<open>The crypto contract\<close>

definition as_map :: "anyv \<Rightarrow> (string \<times> anyv) list option" where
  "as_map v = (case v of VMap m \<Rightarrow> Some m | _ \<Rightarrow> None)"

definition asUint :: "app_env \<Rightarrow> int_kind list \<Rightarrow> (string \<times> anyv) list \<Rightarrow> string \<Rightarrow> string + int" where
  "asUint E kinds contract k =
     (case map_of contract k of
        None \<Rightarrow> Inl (''crypto_ctx.'' @ k @ '' missing'')
      | Some v \<Rightarrow>
          (let bad = Inl (''crypto_ctx.'' @ k @ '' has type '' @ ae_typename E v)
           in case v of
                VInt kind n \<Rightarrow> if kind \<in> set kinds then Inr (wrap_uint32 n) else bad
              | VFloat x \<Rightarrow> Inr (uint32_of (ae_oob E) x)
              | _ \<Rightarrow> bad))"

definition asInt :: "app_env \<Rightarrow> int_kind list \<Rightarrow> (string \<times> anyv) list \<Rightarrow> string \<Rightarrow> int" where
  "asInt E kinds contract k =
     (case map_of contract k of
        None \<Rightarrow> 0
      | Some v \<Rightarrow>
          (case v of
             VInt kind n \<Rightarrow> if kind \<in> set kinds then n else 0
           | VFloat x \<Rightarrow> int64_of (ae_oob E) x
           | _ \<Rightarrow> 0))"

text \<open>The reader of an application: the name of its key, the wording for a wrong type, and the integer types it accepts.\<close>

definition read_contract :: "string \<Rightarrow> string \<Rightarrow> string \<Rightarrow> int_kind list \<Rightarrow> int_kind list \<Rightarrow> app_env \<Rightarrow> 's sctx \<Rightarrow> string + contract_params" where
  "read_contract key name wrong ukinds ikinds E c =
     (case ctx_Get c key of
        None \<Rightarrow> Inl (name @ '' missing'')
      | Some v \<Rightarrow>
          (case as_map v of
             None \<Rightarrow> Inl (name @ wrong @ ae_typename E v)
           | Some contract \<Rightarrow>
               and_then (asUint E ukinds contract ''ring_dim'') (\<lambda>ringDim.
               and_then (asUint E ukinds contract ''depth'') (\<lambda>depth.
               Inr (no_contract\<lparr>cp_RingDim := ringDim, cp_Depth := depth, cp_ScalingModSize := asInt E ikinds contract ''scaling_mod_size''\<rparr>)))))"

section \<open>Ciphertexts in messages\<close>

definition decode_ciphertext :: "app_env \<Rightarrow> string \<Rightarrow> bytes \<Rightarrow> string + bytes" where
  "decode_ciphertext E name raw =
     and_then (ae_fields E raw) (\<lambda>msg. if msg name = [] then Inl (name @ '' is empty'') else hexDecodeString E (msg name))"

definition decode_partial :: "string \<Rightarrow> app_env \<Rightarrow> bytes \<Rightarrow> string + bytes" where
  "decode_partial none E raw =
     and_then (ae_fields E raw) (\<lambda>msg.
       let field = (if msg ''partial_ct'' = [] then msg ''partial'' else msg ''partial_ct'')
       in if field = [] then Inl none else hexDecodeString E field)"

section \<open>Key generation\<close>

record keygen_keys =
  gk_participants :: string
  gk_participantsName :: string
  gk_pk :: string
  gk_shares :: string
  gk_ek :: string
  gk_bucket :: string

definition preshared :: "keygen_keys \<Rightarrow> 's sctx \<Rightarrow> bool" where
  "preshared K c \<longleftrightarrow>
     (case (TryGet as_bytes c (gk_pk K), TryGet as_bytes c (gk_ek K)) of
        (Some pk, Some ek) \<Rightarrow> pk \<noteq> [] \<and> ek \<noteq> []
      | _ \<Rightarrow> False)"

definition set_keys :: "keygen_keys \<Rightarrow> bytes \<Rightarrow> bytes \<Rightarrow> 's sctx \<Rightarrow> 's sctx" where
  "set_keys K pk ek c =
     ctx_Set (gk_ek K) (VBytes ek)
       (ctx_Set (gk_shares K) (VBucket (AccumulatedMessages c (gk_bucket K))) (ctx_Set (gk_pk K) (VBytes pk) c))"

definition Keygen_Exit :: "keygen_keys \<Rightarrow> (app_env \<Rightarrow> 's sctx \<Rightarrow> string + contract_params) \<Rightarrow> app_env \<Rightarrow> helper_client option \<Rightarrow> 's hook" where
  "Keygen_Exit K reader E helper c =
     (if preshared K c then (ctx_Set (gk_shares K) (VBucket (AccumulatedMessages c (gk_bucket K))) c, None)
      else case helper of
             None \<Rightarrow> (set_keys K ''stub-collective-pk'' ''stub-eval-keys'' c, None)
           | Some cl \<Rightarrow>
               (let missing = (c, Some (''PhaseKeygen: '' @ gk_participantsName K @ '' is missing or empty''))
                in case TryGet as_strings c (gk_participants K) of
                     None \<Rightarrow> missing
                   | Some participants \<Rightarrow>
                       if participants = [] then missing
                       else (case reader E c of
                               Inl e \<Rightarrow> (c, Some (''PhaseKeygen: '' @ e))
                             | Inr params \<Rightarrow>
                                 (case KeygenChain cl params (int (length participants)) of
                                    Inl e \<Rightarrow> (c, Some (''PhaseKeygen: helper.KeygenChain: '' @ e))
                                  | Inr b \<Rightarrow> (set_keys K (kb_PublicKey b) (kb_EvalKeys b) c, None)))))"

section \<open>Scoring\<close>

record argmax_keys =
  xk_label :: string
  xk_bucket :: string
  xk_ek :: string
  xk_ekName :: string
  xk_decode :: "app_env \<Rightarrow> bytes \<Rightarrow> string + bytes"
  xk_what :: string
  xk_out :: string
  xk_marshal :: string

fun decode_bids :: "app_env \<Rightarrow> argmax_keys \<Rightarrow> (string, bytes) gomap \<Rightarrow> string list \<Rightarrow> string + bytes list" where
  "decode_bids E K bids [] = Inr []"
| "decode_bids E K bids (b # bs) =
     and_then (wrapf (xk_label K @ '': decode '' @ xk_what K @ '' from '' @ b @ '': '')
                 (xk_decode K E (case map_of bids b of Some raw \<Rightarrow> raw | None \<Rightarrow> [])))
       (\<lambda>ct. and_then (decode_bids E K bids bs) (\<lambda>cts. Inr (ct # cts)))"

definition mask_envelope :: "string list \<Rightarrow> bytes list \<Rightarrow> anyv" where
  "mask_envelope bidders masks = VStruct ''envelope'' [(''bidders'', VStrings bidders), (''masks'', VStrings (map hex_encode masks))]"

definition argmax_body :: "argmax_keys \<Rightarrow> app_env \<Rightarrow> helper_client \<Rightarrow> eval_poly \<Rightarrow> contract_params \<Rightarrow> bytes \<Rightarrow> (string, bytes) gomap \<Rightarrow> string + bytes" where
  "argmax_body K E cl sharpening params evalKeys bids =
     (let bidders = sort (map fst bids)
      in and_then (decode_bids E K bids bidders) (\<lambda>cts.
         and_then (wrapf (xk_label K @ '': helper.Argmax: '') (Argmax cl params evalKeys cts sharpening)) (\<lambda>masks.
         wrapf (xk_label K @ xk_marshal K) (ae_marshal E (mask_envelope bidders masks)))))"

definition Argmax_Enter :: "argmax_keys \<Rightarrow> (app_env \<Rightarrow> 's sctx \<Rightarrow> string + contract_params) \<Rightarrow> app_env \<Rightarrow> (helper_client \<times> eval_poly) option \<Rightarrow> 's hook" where
  "Argmax_Enter K reader E helper c =
     (let bids = AccumulatedMessages c (xk_bucket K)
      in case helper of
           None \<Rightarrow> (ctx_Set (xk_out K) (VBytes (''stub-winner-of-'' @ [char_of (length bids)])) c, None)
         | Some (cl, sharpening) \<Rightarrow>
             (case reader E c of
                Inl e \<Rightarrow> (c, Some e)
              | Inr params \<Rightarrow>
                  (let evalKeys = (case TryGet as_bytes c (xk_ek K) of Some ek \<Rightarrow> ek | None \<Rightarrow> [])
                   in if evalKeys = [] then (c, Some (xk_label K @ '': '' @ xk_ekName K @ '' is missing or empty''))
                      else (case argmax_body K E cl sharpening params evalKeys bids of
                              Inl e \<Rightarrow> (c, Some e)
                            | Inr body \<Rightarrow> (ctx_Set (xk_out K) (VBytes body) c, None)))))"

section \<open>Decryption\<close>

text \<open>The first fused value, or an error; the partials are visited in the order of the map.\<close>

definition fused_value ::
  "string \<Rightarrow> (app_env \<Rightarrow> bytes \<Rightarrow> string + bytes) \<Rightarrow> (app_env \<Rightarrow> 's sctx \<Rightarrow> string + contract_params) \<Rightarrow> int \<Rightarrow> string \<Rightarrow> app_env \<Rightarrow> helper_client \<Rightarrow> 's sctx \<Rightarrow> string + f64" where
  "fused_value label decode reader nSlots bucket E cl c =
     and_then (wrapf (label @ '': '') (reader E c)) (\<lambda>params.
     and_then (over_slots (\<lambda>slot raw. wrapf (label @ '': decode partial: '') (decode E raw)) 0
                 (map snd (ae_order E (AccumulatedMessages c bucket)))) (\<lambda>rawPartials.
     and_then (wrapf (label @ '': fuse: '') (FusePartials cl params rawPartials nSlots)) (\<lambda>values.
     Inr (case values of [] \<Rightarrow> Fin 0 | v # _ \<Rightarrow> v))))"

section \<open>Settlement\<close>

definition signTranscript :: "app_env \<Rightarrow> (string, anyv) gomap \<Rightarrow> string" where
  "signTranscript E t =
     hex_encode (sha256 (case ae_marshal E (VMap (AList.delete ''signature'' t)) of Inl e \<Rightarrow> [] | Inr b \<Rightarrow> b))"

definition settlement :: "app_env \<Rightarrow> string \<Rightarrow> string \<Rightarrow> string \<Rightarrow> 's sctx \<Rightarrow> (string, anyv) gomap" where
  "settlement E key name settledBy c =
     (let transcript = [(''session_id'', VString (c_SessionID c)), (name, case ctx_Get c key of Some v \<Rightarrow> v | None \<Rightarrow> VNil),
                        (''settlement_by'', VString settledBy)]
      in AList.update ''signature'' (VString (signTranscript E transcript)) transcript)"

section \<open>Phases that collect\<close>

definition collecting_phase :: "string \<Rightarrow> session_state \<Rightarrow> session_state \<Rightarrow> string list \<Rightarrow> string \<Rightarrow> string \<Rightarrow> 's phase" where
  "collecting_phase name entry exit msgs pkey bucket = (bare_phase name entry exit False)
     \<lparr>ph_ConsumedMessageTypes := msgs,
      ph_OnMessage := (\<lambda>mt from payload c. (AccumulateMessage bucket from payload c, None)),
      ph_CheckComplete := quorum_of pkey bucket\<rparr>"

text \<open>An exit hook that stores the messages of the bucket under a context key.\<close>

definition store_bucket :: "string \<Rightarrow> string \<Rightarrow> 's hook" where
  "store_bucket key bucket c = (ctx_Set key (VBucket (AccumulatedMessages c bucket)) c, None)"

section \<open>Pre-shared keys in the attributes of a session\<close>

text \<open>The triggers turn the hex text of a pre-shared key into bytes; \<open>decode_attrs\<close> stops at the first text that is not hex.\<close>

fun decode_attrs :: "app_env \<Rightarrow> string list \<Rightarrow> (string, anyv) gomap \<Rightarrow> string + (string, anyv) gomap" where
  "decode_attrs E [] attrs = Inr attrs"
| "decode_attrs E (key # ks) attrs =
     (case Option.bind (map_of attrs key) as_string of
        None \<Rightarrow> decode_attrs E ks attrs
      | Some s \<Rightarrow>
          if s = [] then decode_attrs E ks attrs
          else (case hexDecodeString E s of
                  Inl e \<Rightarrow> Inl (''decode '' @ key @ '' as hex: '' @ e)
                | Inr b \<Rightarrow> decode_attrs E ks (AList.update key (VBytes b) attrs)))"

section \<open>Lemmas the applications share\<close>

lemma set_keys_frame [simp]:
  "c_store (set_keys K pk ek c) = c_store c" "c_SessionID (set_keys K pk ek c) = c_SessionID c"
  by (simp_all add: set_keys_def ctx_Set_def)

lemma Keygen_Exit_frame:
  "c_store (fst (Keygen_Exit K reader E helper c)) = c_store c \<and> c_SessionID (fst (Keygen_Exit K reader E helper c)) = c_SessionID c
   \<and> (\<forall>key. key \<notin> {gk_pk K, gk_shares K, gk_ek K} \<longrightarrow> ctx_Get (fst (Keygen_Exit K reader E helper c)) key = ctx_Get c key)"
  by (auto simp: Keygen_Exit_def set_keys_def Let_def ctx_Get_Set split: option.split sum.split) (simp_all add: ctx_Set_def)

text \<open>The keys a helper-backed key generation leaves are the ones the helper made for that number of participants; the
  shares the participants sent do not enter them.\<close>

lemma Keygen_Exit_helper:
  assumes "\<not> preshared K c" "TryGet as_strings c (gk_participants K) = Some ps" "ps \<noteq> []" "reader E c = Inr params"
    "KeygenChain cl params (int (length ps)) = Inr b" "distinct [gk_pk K, gk_shares K, gk_ek K]"
  shows "snd (Keygen_Exit K reader E (Some cl) c) = None
    \<and> ctx_Get (fst (Keygen_Exit K reader E (Some cl) c)) (gk_pk K) = Some (VBytes (kb_PublicKey b))
    \<and> ctx_Get (fst (Keygen_Exit K reader E (Some cl) c)) (gk_ek K) = Some (VBytes (kb_EvalKeys b))
    \<and> ctx_Get (fst (Keygen_Exit K reader E (Some cl) c)) (gk_shares K) = Some (VBucket (AccumulatedMessages c (gk_bucket K)))"
  using assms by (auto simp: Keygen_Exit_def set_keys_def ctx_Get_Set)

text \<open>The scoring result does not depend on the order in which the bids arrived.\<close>

lemma decode_bids_cong: "map_of bids = map_of bids' \<Longrightarrow> decode_bids E K bids bs = decode_bids E K bids' bs"
  by (induction bs) simp_all

lemma argmax_body_order:
  assumes "gomap_wf bids" "gomap_wf bids'" "map_of bids = map_of bids'"
  shows "argmax_body K E cl sharpening params evalKeys bids = argmax_body K E cl sharpening params evalKeys bids'"
proof -
  have "set (map fst bids) = set (map fst bids')" using assms(3) by (metis dom_map_of_conv_image_fst list.set_map)
  then have "sort (map fst bids) = sort (map fst bids')"
    using assms(1,2) by (metis distinct_sort set_sort sorted_distinct_set_unique sorted_sort)
  then show ?thesis by (simp add: argmax_body_def Let_def decode_bids_cong [OF assms(3)])
qed

lemma decode_bids_Inr:
  "decode_bids E K bids bs = Inr cts \<Longrightarrow> length cts = length bs
    \<and> (\<forall>i<length bs. xk_decode K E (case map_of bids (bs ! i) of Some raw \<Rightarrow> raw | None \<Rightarrow> []) = Inr (cts ! i))"
proof (induction bs arbitrary: cts)
  case (Cons b bs)
  then obtain ct rest where "xk_decode K E (case map_of bids b of Some raw \<Rightarrow> raw | None \<Rightarrow> []) = Inr ct"
    "decode_bids E K bids bs = Inr rest" "cts = ct # rest" by (auto simp: and_then_Inr)
  with Cons.IH [of rest] show ?case by (auto simp: nth_Cons split: nat.split)
qed simp

text \<open>The signature of a settlement is recomputed from the settlement itself: it needs no secret.\<close>

lemma settlement_signature:
  assumes "name \<notin> {''session_id'', ''settlement_by'', ''signature''}"
  shows "map_of (settlement E key name settledBy c) ''signature'' = Some (VString (signTranscript E (settlement E key name settledBy c)))
    \<and> map_of (settlement E key name settledBy c) ''session_id'' = Some (VString (c_SessionID c))
    \<and> map_of (settlement E key name settledBy c) name = Some (case ctx_Get c key of Some v \<Rightarrow> v | None \<Rightarrow> VNil)"
  using assms by (auto simp: settlement_def signTranscript_def Let_def)

end
