(* ===== verification/Scored_App.thy ===== *)
theory Scored_App
  imports App_Runs
begin

text \<open>
  The shape the auction and the ride share have in common: key generation, submission and decryption each collect one
  message per participant, a scoring phase runs between the last two, and a settlement ends the session. The
  locale states the shape, and that a session walks through it.
\<close>

definition installed :: "'s phase set \<Rightarrow> 's runner \<Rightarrow> bool" where
  "installed phases r \<longleftrightarrow> (\<forall>p\<in>phases. map_of (r_byEntryState r) (ph_EntryState p) = Some p) \<and> 3 \<le> length (r_phases r)"

lemma installed_same: "installed phases r \<Longrightarrow> same_setup r r' \<Longrightarrow> installed phases r'"
proof -
  assume "installed phases r" and same: "same_setup r r'"
  then show ?thesis using same_setup_fields [OF same] by (simp add: installed_def)
qed

locale scored_app =
  keygen: collecting keygen mk bk pkey + submit: collecting submit ms bs pkey + decrypt: collecting decrypt md bd pkey
  for keygen submit decrypt :: "'s phase" and mk bk ms bs md bd pkey :: string +
  fixes score settle :: "'s phase"
  assumes connected: "ph_ExitState keygen = ph_EntryState submit" "ph_ExitState submit = ph_EntryState score"
      "ph_ExitState score = ph_EntryState decrypt" "ph_ExitState decrypt = ph_EntryState settle" "ph_ExitState settle = StateNone"
      "StateNone \<notin> ph_EntryState ` {submit, score, decrypt, settle}"
    and consumes: "phaseConsumes keygen mk" "phaseConsumes submit ms" "phaseConsumes decrypt md" "passes score" "passes settle"
    and quiet: "ph_Enter submit c = (c, None)" "ph_Exit score c = (c, None)" "ph_Enter decrypt c = (c, None)" "ph_Exit settle c = (c, None)"
begin

text \<open>From the key shares to the settlement, when every hook on the way succeeds.\<close>

lemma scored_run:
  assumes at: "at_phase r sid keygen c0" "installed {submit, score, decrypt, settle} r"
    and msgs: "completes ps shares" "completes ps bids" "completes ps partials"
    and fresh: "ctx_Get c0 bk = None" "ctx_Get c2 bs = None" "ctx_Get c5 bd = None"
    and members: "\<forall>c\<in>{c0, c2, c5}. ctx_Get c pkey = Some (VStrings ps)"
    and hooks: "ph_Exit keygen (accumulate_all bk shares c0) = (c2, None)" "ph_Exit submit (accumulate_all bs bids c2) = (c4, None)"
      "ph_Enter score c4 = (c5, None)" "ph_Exit decrypt (accumulate_all bd partials c5) = (c7, None)" "ph_Enter settle c7 = (c8, None)"
    and store: "\<forall>c\<in>{c2, c4, c5, c7, c8}. c_store c = None"
  shows "\<exists>r1 r2 r3. send_all ops now sid mk shares r = Some r1 \<and> send_all ops now sid ms bids r1 = Some r2
    \<and> send_all ops now sid md partials r2 = Some r3 \<and> finished_with r3 sid c8"
proof -
  have types: "ph_ConsumedMessageTypes submit \<noteq> []" "ph_ConsumedMessageTypes decrypt \<noteq> []" using consumes(2,3) by (auto simp: phaseConsumes_def)
  have "quiet_path r [keygen, submit] (accumulate_all bk shares c0) c2"
    using at(2) hooks(1) store quiet(1) connected by (auto simp: installed_def)
  then obtain r1 where r1: "send_all ops now sid mk shares r = Some r1" "at_phase r1 sid submit c2" "same_setup r r1"
    using keygen.collect_enter [OF at(1) consumes(1) fresh(1) _ msgs(1), of "[submit]" c2 ops now] members types at(2) by (auto simp: installed_def)
  have i1: "installed {submit, score, decrypt, settle} r1" using installed_same [OF at(2) r1(3)] .
  have "quiet_path r1 [submit, score, decrypt] (accumulate_all bs bids c2) c5"
    using i1 hooks(2,3) store quiet(2,3) connected by (auto simp: installed_def)
  then obtain r2 where r2: "send_all ops now sid ms bids r1 = Some r2" "at_phase r2 sid decrypt c5" "same_setup r1 r2"
    using submit.collect_enter [OF r1(2) consumes(2) fresh(2) _ msgs(2), of "[score, decrypt]" c5 ops now] members types consumes(4) i1 by (auto simp: installed_def)
  have i2: "installed {submit, score, decrypt, settle} r2" using installed_same [OF i1 r2(3)] .
  have "quiet_path r2 [decrypt, settle] (accumulate_all bd partials c5) c8"
    using i2 hooks(4,5) store connected by (auto simp: installed_def)
  then obtain r3 where "send_all ops now sid md partials r2 = Some r3" "finished_with r3 sid c8"
    using decrypt.collect_finish [OF r2(2) consumes(3) fresh(3) _ msgs(3), of "[settle]" c8 c8 ops now] members consumes(5) quiet(4) connected(5) store i2
    by (auto simp: installed_def)
  then show ?thesis using r1(1) r2(1) by blast
qed

end

end
