(* ===== verification/Sealed_Bid.thy ===== *)
theory Sealed_Bid
  imports Fhe_Apps Scored_App
begin

text \<open>
  The sealed-bid auction on the session engine (examples/sealed_bid_auction): its states and keys (states.go), its six
  phases (phases.go), and its four pipelines (runner.go). A phase built without helper is the stub variant.
\<close>

section \<open>States and keys\<close>

definition StateAuctionInviting :: session_state where
  "StateAuctionInviting = ''AUCTION_INVITING''"

definition StateAuctionLocked :: session_state where
  "StateAuctionLocked = ''AUCTION_LOCKED''"

definition StateAuctionBidding :: session_state where
  "StateAuctionBidding = ''AUCTION_BIDDING''"

definition StateAuctionScoring :: session_state where
  "StateAuctionScoring = ''AUCTION_SCORING''"

definition StateAuctionDecrypting :: session_state where
  "StateAuctionDecrypting = ''AUCTION_DECRYPTING''"

definition StateAuctionSettled :: session_state where
  "StateAuctionSettled = ''AUCTION_SETTLED''"

lemmas auction_states = StateAuctionInviting_def StateAuctionLocked_def StateAuctionBidding_def StateAuctionScoring_def
  StateAuctionDecrypting_def StateAuctionSettled_def StateNone_def

definition CtxAuctionParticipants :: string where
  "CtxAuctionParticipants = ''auction.participants''"

definition CtxAuctionCryptoContract :: string where
  "CtxAuctionCryptoContract = ''auction.crypto_ctx''"

definition CtxAuctionCollectivePublicKey :: string where
  "CtxAuctionCollectivePublicKey = ''auction.collective_pk''"

definition CtxAuctionSecretShares :: string where
  "CtxAuctionSecretShares = ''auction.secret_shares''"

definition CtxAuctionEvalKeys :: string where
  "CtxAuctionEvalKeys = ''auction.eval_keys''"

definition CtxAuctionBids :: string where
  "CtxAuctionBids = ''auction.bids''"

definition CtxAuctionCipherWinnerBid :: string where
  "CtxAuctionCipherWinnerBid = ''auction.ct_winner_bid''"

definition CtxAuctionWinnerBid :: string where
  "CtxAuctionWinnerBid = ''auction.winner_bid''"

definition CtxAuctionSettlement :: string where
  "CtxAuctionSettlement = ''auction.settlement''"

definition auction_bucketKeygenShares :: string where
  "auction_bucketKeygenShares = ''auction.bucket.keygen_shares''"

definition bucketScalarBids :: string where
  "bucketScalarBids = ''auction.bucket.scalar_bids''"

definition auction_bucketDecryptPartials :: string where
  "auction_bucketDecryptPartials = ''auction.bucket.decrypt_partials''"

lemmas auction_keys = CtxAuctionParticipants_def CtxAuctionCryptoContract_def CtxAuctionCollectivePublicKey_def
  CtxAuctionSecretShares_def CtxAuctionEvalKeys_def CtxAuctionBids_def CtxAuctionCipherWinnerBid_def CtxAuctionWinnerBid_def
  CtxAuctionSettlement_def auction_bucketKeygenShares_def bucketScalarBids_def auction_bucketDecryptPartials_def

section \<open>The phases\<close>

definition auction_readContractParams :: "app_env \<Rightarrow> 's sctx \<Rightarrow> string + contract_params" where
  "auction_readContractParams =
     read_contract CtxAuctionCryptoContract ''CtxAuctionCryptoContract'' '' has unexpected type '' [KInt, KInt32, KInt64, KUint32] [KInt, KInt32, KInt64]"

definition decodeBidCiphertext :: "app_env \<Rightarrow> bytes \<Rightarrow> string + bytes" where
  "decodeBidCiphertext E = decode_ciphertext E ''bid_ct''"

definition auction_decodePartialCiphertext :: "app_env \<Rightarrow> bytes \<Rightarrow> string + bytes" where
  "auction_decodePartialCiphertext = decode_partial ''no partial_ct or partial field in decrypt-partial payload''"

definition auction_PhaseInvitation :: "'s phase" where
  "auction_PhaseInvitation = (bare_phase ''auction-invitation'' StateAuctionInviting StateAuctionLocked True)
     \<lparr>ph_Provides :=
        [(CtxAuctionParticipants, provides ''[]string''),
         (CtxAuctionCryptoContract, with_constraints
            [(''depth'', VInt KInt 10), (''ring_dim'', VInt KInt 2048), (''scaling_mod_size'', VInt KInt 40)]
            (provides ''OpenFHEContract''))]\<rparr>"

definition auction_keygen_keys :: keygen_keys where
  "auction_keygen_keys =
     \<lparr>gk_participants = CtxAuctionParticipants, gk_participantsName = ''CtxAuctionParticipants'', gk_pk = CtxAuctionCollectivePublicKey,
      gk_shares = CtxAuctionSecretShares, gk_ek = CtxAuctionEvalKeys, gk_bucket = auction_bucketKeygenShares\<rparr>"

definition auction_PhaseKeygen :: "app_env \<Rightarrow> helper_client option \<Rightarrow> 's phase" where
  "auction_PhaseKeygen E helper =
     (collecting_phase ''auction-keygen'' StateAuctionLocked StateAuctionBidding [''auction.keygen.share''] CtxAuctionParticipants auction_bucketKeygenShares)
     \<lparr>ph_Requires :=
        [(CtxAuctionParticipants, requires ''[]string''),
         (CtxAuctionCryptoContract, with_constraints [(''depth_min'', VInt KInt 4)] (requires ''OpenFHEContract''))],
      ph_Provides :=
        [(CtxAuctionCollectivePublicKey, provides ''[]byte''), (CtxAuctionSecretShares, provides ''map[string][]byte''),
         (CtxAuctionEvalKeys, provides ''OpenFHEEvalKeys'')],
      ph_Exit := Keygen_Exit auction_keygen_keys auction_readContractParams E helper\<rparr>"

definition PhaseScalarBid :: "'s phase" where
  "PhaseScalarBid =
     (collecting_phase ''auction-scalar-bid'' StateAuctionBidding StateAuctionScoring [''auction.bid''] CtxAuctionParticipants bucketScalarBids)
     \<lparr>ph_Requires :=
        [(CtxAuctionParticipants, requires ''[]string''), (CtxAuctionCollectivePublicKey, requires ''[]byte''),
         (CtxAuctionCryptoContract, requires ''OpenFHEContract'')],
      ph_Provides := [(CtxAuctionBids, provides ''map[string][]byte'')],
      ph_Exit := store_bucket CtxAuctionBids bucketScalarBids\<rparr>"

definition auction_argmax_keys :: argmax_keys where
  "auction_argmax_keys =
     \<lparr>xk_label = ''PhaseArgmax'', xk_bucket = bucketScalarBids, xk_ek = CtxAuctionEvalKeys, xk_ekName = ''CtxAuctionEvalKeys'',
      xk_decode = decodeBidCiphertext, xk_what = ''bid'', xk_out = CtxAuctionCipherWinnerBid, xk_marshal = '': marshal envelope: ''\<rparr>"

definition PhaseArgmax :: "app_env \<Rightarrow> (helper_client \<times> eval_poly) option \<Rightarrow> 's phase" where
  "PhaseArgmax E helper = (bare_phase ''auction-argmax-scoring'' StateAuctionScoring StateAuctionDecrypting True)
     \<lparr>ph_Requires :=
        [(CtxAuctionParticipants, requires ''[]string''),
         (CtxAuctionCryptoContract, with_constraints [(''depth_min'', VInt KInt 8)] (requires ''OpenFHEContract'')),
         (CtxAuctionEvalKeys, requires ''OpenFHEEvalKeys''), (CtxAuctionBids, requires ''map[string][]byte'')],
      ph_Provides := [(CtxAuctionCipherWinnerBid, provides ''[]byte'')],
      ph_Enter := Argmax_Enter auction_argmax_keys auction_readContractParams E helper\<rparr>"

definition auction_result :: "string \<Rightarrow> anyv \<Rightarrow> 's sctx \<Rightarrow> anyv" where
  "auction_result winner price c =
     VMap [(''winner'', VString winner), (''price'', price),
           (''num_partials'', VInt KInt (int (length (AccumulatedMessages c auction_bucketDecryptPartials))))]"

definition auction_Decrypt_Exit :: "app_env \<Rightarrow> helper_client option \<Rightarrow> 's hook" where
  "auction_Decrypt_Exit E helper c =
     (case helper of
        None \<Rightarrow> (ctx_Set CtxAuctionWinnerBid (auction_result ''stub-winner'' (VInt KInt 0) c) c, None)
      | Some cl \<Rightarrow>
          (case fused_value ''PhaseDecrypt'' auction_decodePartialCiphertext auction_readContractParams 1
                  auction_bucketDecryptPartials E cl c of
             Inl e \<Rightarrow> (c, Some e)
           | Inr winningBid \<Rightarrow>
               (ctx_Set CtxAuctionWinnerBid (auction_result ''bidder-determined-by-mask'' (VFloat winningBid) c) c, None)))"

definition auction_PhaseDecrypt :: "app_env \<Rightarrow> helper_client option \<Rightarrow> 's phase" where
  "auction_PhaseDecrypt E helper =
     (collecting_phase ''auction-threshold-decrypt'' StateAuctionDecrypting StateAuctionSettled [''auction.decrypt.partial'']
        CtxAuctionParticipants auction_bucketDecryptPartials)
     \<lparr>ph_Requires :=
        [(CtxAuctionParticipants, requires ''[]string''), (CtxAuctionSecretShares, requires ''map[string][]byte''),
         (CtxAuctionCipherWinnerBid, requires ''[]byte'')],
      ph_Provides := [(CtxAuctionWinnerBid, provides ''WinnerBid'')],
      ph_Exit := auction_Decrypt_Exit E helper\<rparr>"

definition Settlement_Enter :: "app_env \<Rightarrow> 's hook" where
  "Settlement_Enter E c =
     (ctx_Set CtxAuctionSettlement (VMap (settlement E CtxAuctionWinnerBid ''winner'' ''auctioneer'' c)) c, None)"

definition PhaseSettlement :: "app_env \<Rightarrow> 's phase" where
  "PhaseSettlement E = (bare_phase ''auction-settlement'' StateAuctionSettled StateNone True)
     \<lparr>ph_Requires := [(CtxAuctionWinnerBid, requires ''WinnerBid'')],
      ph_Provides := [(CtxAuctionSettlement, provides ''SignedTranscript'')],
      ph_Enter := Settlement_Enter E\<rparr>"

lemmas auction_phases = auction_PhaseInvitation_def auction_PhaseKeygen_def PhaseScalarBid_def PhaseArgmax_def
  auction_PhaseDecrypt_def PhaseSettlement_def collecting_phase_def

section \<open>The pipelines\<close>

definition auction_pipeline_phases :: "app_env \<Rightarrow> (helper_client \<times> eval_poly) option \<Rightarrow> 's phase list" where
  "auction_pipeline_phases E helper =
     [auction_PhaseInvitation, auction_PhaseKeygen E (map_option fst helper), PhaseScalarBid, PhaseArgmax E helper,
      auction_PhaseDecrypt E (map_option fst helper), PhaseSettlement E]"

definition auction_Pipeline :: "(f64 \<Rightarrow> string) \<Rightarrow> app_env \<Rightarrow> rerror + 's runner" where
  "auction_Pipeline ff E = Compose ff (auction_pipeline_phases E None)"

definition auction_PipelineWithHelper :: "(f64 \<Rightarrow> string) \<Rightarrow> app_env \<Rightarrow> helper_client \<Rightarrow> eval_poly \<Rightarrow> rerror + 's runner" where
  "auction_PipelineWithHelper ff E helper sharpening = Compose ff (auction_pipeline_phases E (Some (helper, sharpening)))"

definition auction_PipelineWithLineage :: "(f64 \<Rightarrow> string) \<Rightarrow> app_env \<Rightarrow> signer \<Rightarrow> (string, signer) gomap \<Rightarrow> rerror + mem_store runner" where
  "auction_PipelineWithLineage ff E signer peerVerifiers =
     ComposeWith ff NewInMemoryStore (auction_pipeline_phases E None)
       [WithSigner signer, WithPeerVerifiers peerVerifiers, WithStore NewInMemoryStore]"

definition auction_PipelineWithLineageAndHelper ::
  "(f64 \<Rightarrow> string) \<Rightarrow> app_env \<Rightarrow> helper_client \<Rightarrow> eval_poly \<Rightarrow> signer \<Rightarrow> (string, signer) gomap \<Rightarrow> rerror + mem_store runner" where
  "auction_PipelineWithLineageAndHelper ff E helper sharpening signer peerVerifiers =
     ComposeWith ff NewInMemoryStore (auction_pipeline_phases E (Some (helper, sharpening)))
       [WithSigner signer, WithPeerVerifiers peerVerifiers, WithStore NewInMemoryStore]"

lemma auction_depths: "atLeast (VInt KInt 10) (VInt KInt 4) = Some True" "atLeast (VInt KInt 10) (VInt KInt 8) = Some True"
  by code_simp+

lemmas auction_eval = compose_eval auction_phases auction_states auction_keys auction_pipeline_phases_def auction_depths

lemma auction_composes: "\<exists>r. Compose ff (auction_pipeline_phases E helper) = Inr (r :: 's runner)"
  by (simp add: auction_eval)

interpretation sealed: scored_app "auction_PhaseKeygen E h" PhaseScalarBid "auction_PhaseDecrypt E h" "''auction.keygen.share''"
    auction_bucketKeygenShares "''auction.bid''" bucketScalarBids "''auction.decrypt.partial''" auction_bucketDecryptPartials
    CtxAuctionParticipants "PhaseArgmax E hp" "PhaseSettlement E"
  by unfold_locales (simp_all add: auction_phases bare_phase_def auction_keys auction_states phaseConsumes_def passes_def)

end
