(* ===== verification/Fhe_Triggers.thy ===== *)
theory Fhe_Triggers
  imports Fhe_Apps App_Triggers
begin

text \<open>
  Starting a session of a helper-backed application: the triggers of the three session services decode the pre-shared
  keys among the attributes, start the session and advance it. And the contexts such a session walks through.
\<close>

datatype start_error = BadAttr string | TooFewParticipants nat | MissingAttr string | StartFailed trigger_error | WalkFailed rerror

definition trigger_start ::
  "'s store_ops \<Rightarrow> int \<Rightarrow> (ws_message \<Rightarrow> string + bytes) \<Rightarrow> string \<Rightarrow> app_env \<Rightarrow> string list \<Rightarrow> session_state
    \<Rightarrow> (string, anyv) gomap \<Rightarrow> string \<Rightarrow> string list \<Rightarrow> 's service \<Rightarrow> 's service \<times> start_error option" where
  "trigger_start ops now enc ts E hexKeys target canonical sid participants svc =
     (case decode_attrs E hexKeys canonical of
        Inl e \<Rightarrow> (svc, Some (BadAttr e))
      | Inr attrs \<Rightarrow>
          (let (svc1, err) = Start enc ts sid participants attrs svc
           in case err of
                Some e \<Rightarrow> (svc1, Some (StartFailed e))
              | None \<Rightarrow>
                  (let (r, e) = AdvanceToState ops now sid target (sv_runner svc1)
                   in (svc1\<lparr>sv_runner := r\<rparr>, map_option WalkFailed e))))"

definition crypto_ctx :: "int \<Rightarrow> int \<Rightarrow> anyv" where
  "crypto_ctx depth ringDim = VMap [(''depth'', VInt KInt depth), (''ring_dim'', VInt KInt ringDim), (''scaling_mod_size'', VInt KInt 50)]"

text \<open>The bucket a sequence of messages leaves: the last payload of each sender, in the order of their first messages.\<close>

definition latest :: "(string \<times> bytes) list \<Rightarrow> (string, bytes) gomap" where
  "latest msgs = fold (\<lambda>(from, payload). AList.update from payload) msgs []"

lemma latest_bucket: "ctx_Get c b = None \<Longrightarrow> AccumulatedMessages (accumulate_all b msgs c) b = latest msgs"
proof (induction msgs rule: rev_induct)
  case Nil
  then show ?case by (simp add: AccumulatedMessages_def latest_def)
next
  case (snoc m msgs)
  then show ?case by (cases m) (simp add: AccumulatedMessages_step latest_def)
qed

lemma latest_map: "gomap_wf (latest msgs) \<and> map_of (latest msgs) = map_of (rev msgs)"
proof (induction msgs rule: rev_induct)
  case (snoc m msgs)
  then show ?case by (cases m) (auto simp: latest_def gomap_simps wf_intros)
qed (simp add: latest_def)

lemma latest_length: "length (latest msgs) = card (fst ` set msgs)"
proof -
  have "fst ` set (latest msgs) = fst ` set msgs" using latest_map [of msgs] by (metis dom_map_of_conv_image_fst set_rev)
  then show ?thesis using latest_map [of msgs] by (metis distinct_card length_map list.set_map)
qed

text \<open>Reading through the writes of a walk.\<close>

lemma ctx_Get_accumulate_all: "key \<noteq> b \<Longrightarrow> ctx_Get (accumulate_all b msgs c) key = ctx_Get c key"
proof (induction msgs rule: rev_induct)
  case (snoc m msgs)
  then show ?case by (cases m) (simp add: ctx_Get_Accumulate)
qed simp

lemma session_id_accumulate_all: "c_SessionID (accumulate_all b msgs c) = c_SessionID c"
proof (induction msgs rule: rev_induct)
  case (snoc m msgs)
  then show ?case by (cases m) (simp add: AccumulateMessage_def ctx_Update_def Let_def)
qed simp

lemma AccumulatedMessages_Set: "k \<noteq> b \<Longrightarrow> AccumulatedMessages (ctx_Set k v c) b = AccumulatedMessages c b"
  by (simp add: AccumulatedMessages_def ctx_Get_Set)

lemma ctx_Get_set_keys:
  "ctx_Get (set_keys K pk ek c) key =
     (if key = gk_ek K then Some (VBytes ek) else if key = gk_shares K then Some (VBucket (AccumulatedMessages c (gk_bucket K)))
      else if key = gk_pk K then Some (VBytes pk) else ctx_Get c key)"
  by (simp add: set_keys_def ctx_Get_Set)

lemma over_slots_wrapf: "over_slots (\<lambda>slot. f) slot xs = Inr ys \<Longrightarrow> over_slots (\<lambda>slot x. wrapf prefix (f x)) slot xs = Inr ys"
proof (induction xs arbitrary: slot ys)
  case (Cons x xs)
  then obtain y zs where "f x = Inr y" "over_slots (\<lambda>slot. f) (Suc slot) xs = Inr zs" "ys = y # zs" by (auto simp: and_then_Inr)
  with Cons.IH [of "Suc slot" zs] show ?case by (simp add: and_then_def wrapf_def)
qed simp

lemmas ctx_walk = ctx_Get_Set ctx_Get_accumulate_all ctx_Get_set_keys session_id_accumulate_all session_id_Set

text \<open>The contexts a scored application walks through between its hooks, for any names of keys and buckets. \<open>result\<close> is
  what the decryption hook writes.\<close>

lemma keygen_hook:
  assumes "ctx_Get c (gk_participants K) = Some (VStrings ps)" "ps \<noteq> []" "ctx_Get c (gk_pk K) = None" "reader E c = Inr params"
    "KeygenChain cl params (int (length ps)) = Inr b"
  shows "Keygen_Exit K reader E (Some cl) c = (set_keys K (kb_PublicKey b) (kb_EvalKeys b) c, None)"
  using assms by (simp add: Keygen_Exit_def preshared_def TryGet_def as_strings_def)

lemma argmax_hook:
  assumes "reader E c = Inr params" "ctx_Get c (xk_ek X) = Some (VBytes ek)" "ek \<noteq> []"
    "argmax_body X E cl poly params ek (AccumulatedMessages c (xk_bucket X)) = Inr env"
  shows "Argmax_Enter X reader E (Some (cl, poly)) c = (ctx_Set (xk_out X) (VBytes env) c, None)"
  using assms by (simp add: Argmax_Enter_def TryGet_def as_bytes_def Let_def)

lemma scored_hooks:
  fixes c0 :: "'s sctx"
  assumes names: "distinct [gk_participants K, contract, gk_pk K, gk_shares K, gk_ek K, bidsKey, xk_out X, resultKey, gk_bucket K, xk_bucket X, bd]"
      "xk_ek X = gk_ek K"
    and c0: "ctx_Get c0 (gk_participants K) = Some (VStrings ps)" "\<forall>key\<in>{gk_pk K, gk_bucket K, xk_bucket X, bd}. ctx_Get c0 key = None"
      "ps \<noteq> []" "c_store c0 = None"
    and reader: "\<forall>c :: 's sctx. ctx_Get c contract = ctx_Get c0 contract \<longrightarrow> reader E c = Inr params"
    and keys: "KeygenChain cl params (int (length ps)) = Inr b" "kb_EvalKeys b \<noteq> []"
    and scored: "argmax_body X E cl poly params (kb_EvalKeys b) (latest bids) = Inr env"
    and fused: "\<forall>c :: 's sctx. ctx_Get c contract = ctx_Get c0 contract \<longrightarrow> AccumulatedMessages c bd = latest partials
        \<longrightarrow> dexit c = (ctx_Set resultKey result c, None)"
  obtains c2 c4 c5 c7 where
    "ctx_Get c0 (gk_bucket K) = None" "ctx_Get c2 (xk_bucket X) = None" "ctx_Get c5 bd = None"
    "\<forall>c\<in>{c0, c2, c5}. ctx_Get c (gk_participants K) = Some (VStrings ps)"
    "Keygen_Exit K reader E (Some cl) (accumulate_all (gk_bucket K) shares c0) = (c2, None)"
    "store_bucket bidsKey (xk_bucket X) (accumulate_all (xk_bucket X) bids c2) = (c4, None)"
    "Argmax_Enter X reader E (Some (cl, poly)) c4 = (c5, None)" "dexit (accumulate_all bd partials c5) = (c7, None)"
    "\<forall>c\<in>{c2, c4, c5, c7}. c_store c = None" "c_SessionID c7 = c_SessionID c0" "ctx_Get c7 (xk_out X) = Some (VBytes env)"
    "ctx_Get c7 resultKey = Some result"
proof -
  define c1 where "c1 = accumulate_all (gk_bucket K) shares c0"
  define c2 where "c2 = set_keys K (kb_PublicKey b) (kb_EvalKeys b) c1"
  define c3 where "c3 = accumulate_all (xk_bucket X) bids c2"
  define c4 where "c4 = ctx_Set bidsKey (VBucket (AccumulatedMessages c3 (xk_bucket X))) c3"
  define c5 where "c5 = ctx_Set (xk_out X) (VBytes env) c4"
  define c6 where "c6 = accumulate_all bd partials c5"
  note cs = c1_def c2_def c3_def c4_def c5_def c6_def
  have get: "ctx_Get c (gk_participants K) = Some (VStrings ps)" "ctx_Get c contract = ctx_Get c0 contract"
    if "c \<in> {c0, c1, c2, c4, c5, c6}" for c using that c0(1) names(1) by (auto simp: cs ctx_walk)
  have empty: "ctx_Get c0 (gk_bucket K) = None" "ctx_Get c2 (xk_bucket X) = None" "ctx_Get c5 bd = None" "ctx_Get c1 (gk_pk K) = None"
    using c0(2) names(1) by (auto simp: cs ctx_walk)
  have h1: "Keygen_Exit K reader E (Some cl) c1 = (c2, None)"
    using keygen_hook [OF get(1) c0(3) empty(4) _ keys(1)] reader get(2) [of c1] by (simp add: c2_def)
  have "AccumulatedMessages c4 (xk_bucket X) = latest bids"
    using latest_bucket [OF empty(2), of bids] names(1) by (simp add: c4_def c3_def AccumulatedMessages_Set)
  moreover have "ctx_Get c4 (xk_ek X) = Some (VBytes (kb_EvalKeys b))" using names by (simp add: cs ctx_walk)
  ultimately have h3: "Argmax_Enter X reader E (Some (cl, poly)) c4 = (c5, None)"
    using argmax_hook [of reader E c4 params X _ cl poly env] reader get(2) [of c4] keys(2) scored by (simp add: c5_def)
  have h4: "dexit c6 = (ctx_Set resultKey result c6, None)"
    using fused get(2) [of c6] latest_bucket [OF empty(3), of partials] by (simp add: c6_def)
  show ?thesis
  proof (rule that [of c2 c5 c4 "ctx_Set resultKey result c6"])
    show "\<forall>c\<in>{c0, c2, c5}. ctx_Get c (gk_participants K) = Some (VStrings ps)" using get(1) by simp
    show "\<forall>c\<in>{c2, c4, c5, ctx_Set resultKey result c6}. c_store c = None" "c_SessionID (ctx_Set resultKey result c6) = c_SessionID c0"
      using c0(4) by (simp_all add: cs ctx_walk)
    show "ctx_Get (ctx_Set resultKey result c6) (xk_out X) = Some (VBytes env)" using names(1) by (simp add: cs ctx_walk)
  qed (use empty h1 h3 h4 in \<open>simp_all add: c1_def [symmetric] c3_def [symmetric] c6_def [symmetric] c4_def store_bucket_def ctx_Get_Set\<close>)
qed

section \<open>A concrete helper\<close>

definition demo_answer :: "request \<Rightarrow> exchange" where
  "demo_answer req = Replies \<lparr>ev_Result = Some (no_response\<lparr>rs_EvalMultFinal := encodeB64 ''k'', rs_Values := [Fin 5]\<rparr>), ev_Error = []\<rparr>"

definition demo_helper :: helper_client where
  "demo_helper = \<lparr>cl_done = False, cl_exchange = demo_answer\<rparr>"

definition demo_env :: app_env where
  "demo_env = \<lparr>ae_oob = (\<lambda>x. 0), ae_typename = (\<lambda>v. []), ae_marshal = (\<lambda>v. Inr ''{}''), ae_fields = (\<lambda>raw. Inr (\<lambda>name. ''00'')),
     ae_hexerr = (\<lambda>s. s), ae_order = (\<lambda>m. m)\<rparr>"

lemma demo_helper_calls:
  "call demo_helper req = Inr (no_response\<lparr>rs_EvalMultFinal := encodeB64 ''k'', rs_Values := [Fin 5]\<rparr>)"
  by (simp add: call_def demo_helper_def demo_answer_def)

lemma demo_helper_keygen: "\<exists>b. KeygenChain demo_helper params 2 = Inr b \<and> kb_EvalKeys b = ''k''"
proof -
  have ops: "KeygenFirst demo_helper params = Inr \<lparr>ks_PublicKey = [], ks_SecretKeyShare = [], ks_Lead = False\<rparr>"
    "KeygenNext demo_helper params pk = Inr \<lparr>ks_PublicKey = [], ks_SecretKeyShare = [], ks_Lead = False\<rparr>"
    "EvalKeyRound1Lead demo_helper params sk = Inr ([], [])" "EvalKeyRound1Participant demo_helper params sk mb sb pk = Inr ([], [])"
    "CombineEvalKeyRound1 demo_helper params pks ms ss = Inr ([], [])" "EvalKeyRound2Participant demo_helper params sk mj pk l = Inr []"
    "CombineEvalKeyRound2 demo_helper params pk ms sf = Inr ''k''" for pk sk mb sb pks ms ss mj l sf
    by (simp_all add: KeygenFirst_def KeygenNext_def EvalKeyRound1Lead_def EvalKeyRound1Participant_def CombineEvalKeyRound1_def
        EvalKeyRound2Participant_def CombineEvalKeyRound2_def demo_helper_calls and_then_def decodeKeyShare_def decode_pair_def no_response_def
        decodeB64_def [of "[]"])
  show ?thesis by (simp add: KeygenChain_def ops and_then_def wrapf_def numeral_2_eq_2 nat_numeral Let_def)
qed

lemma demo_decoded: "decode_ciphertext demo_env name raw = Inr [CHR 0x00]" "decode_partial none demo_env raw = Inr [CHR 0x00]"
proof -
  have "hex_val CHR ''0'' = Some 0" by code_simp
  then have "hexDecodeString demo_env ''00'' = Inr [CHR 0x00]" by (simp add: hexDecodeString_def char_of_def)
  then show "decode_ciphertext demo_env name raw = Inr [CHR 0x00]" "decode_partial none demo_env raw = Inr [CHR 0x00]"
    by (simp_all add: decode_ciphertext_def decode_partial_def and_then_def demo_env_def [THEN arg_cong, of ae_fields] Let_def)
qed

lemma completes_two: "completes [''a'', ''b''] [(''a'', x), (''b'', y)]"
  by (simp add: completes_def)

end
