(* ===== verification/Sealed_Bid_Session.thy ===== *)
theory Sealed_Bid_Session
  imports Sealed_Bid Fhe_Triggers
begin

text \<open>
  A sealed-bid auction from its start to its settlement: the trigger of the session service
  (examples/sealed_bid_auction/cmd/session-service/main.go), what a whole session does, and what its settlement says.
\<close>

section \<open>The trigger\<close>

definition auction_attrs :: "anyv \<Rightarrow> string list \<Rightarrow> (string, anyv) gomap \<Rightarrow> (string, anyv) gomap" where
  "auction_attrs cryptoCtx participants attrs =
     fold (\<lambda>(k, v). AList.update k v) attrs [(CtxAuctionParticipants, VStrings participants), (CtxAuctionCryptoContract, cryptoCtx)]"

definition auctionTrigger_Start ::
  "'s store_ops \<Rightarrow> int \<Rightarrow> (ws_message \<Rightarrow> string + bytes) \<Rightarrow> string \<Rightarrow> app_env \<Rightarrow> anyv \<Rightarrow> string \<Rightarrow> string list \<Rightarrow> (string, anyv) gomap
    \<Rightarrow> 's service \<Rightarrow> 's service \<times> start_error option" where
  "auctionTrigger_Start ops now enc ts E cryptoCtx sid participants attrs svc =
     trigger_start ops now enc ts E [CtxAuctionCollectivePublicKey, CtxAuctionEvalKeys] StateAuctionLocked
       (auction_attrs cryptoCtx participants attrs) sid participants svc"

definition buildAuctionRunner :: "(f64 \<Rightarrow> string) \<Rightarrow> app_env \<Rightarrow> (string + helper_client) option \<Rightarrow> string + (rerror + 's runner)" where
  "buildAuctionRunner ff E helper =
     (case helper of
        None \<Rightarrow> Inr (auction_Pipeline ff E)
      | Some (Inl e) \<Rightarrow> Inl e
      | Some (Inr client) \<Rightarrow> Inr (auction_PipelineWithHelper ff E client session_sharpening))"

section \<open>A session\<close>

lemma auction_decls [simp]:
  "ph_EntryState auction_PhaseInvitation = StateAuctionInviting" "ph_ExitState auction_PhaseInvitation = StateAuctionLocked"
  "ph_EntryState (auction_PhaseKeygen E h) = StateAuctionLocked" "ph_ExitState (auction_PhaseKeygen E h) = StateAuctionBidding"
  "ph_EntryState PhaseScalarBid = StateAuctionBidding" "ph_ExitState PhaseScalarBid = StateAuctionScoring"
  "ph_EntryState (PhaseArgmax E hp) = StateAuctionScoring" "ph_ExitState (PhaseArgmax E hp) = StateAuctionDecrypting"
  "ph_EntryState (auction_PhaseDecrypt E h) = StateAuctionDecrypting" "ph_ExitState (auction_PhaseDecrypt E h) = StateAuctionSettled"
  "ph_EntryState (PhaseSettlement E) = StateAuctionSettled" "ph_ExitState (PhaseSettlement E) = StateNone"
  "ph_Enter auction_PhaseInvitation c = (c, None)" "ph_Exit auction_PhaseInvitation c = (c, None)" "ph_InternalStates auction_PhaseInvitation = []"
  "ph_Enter (auction_PhaseKeygen E h) c = (c, None)" "ph_Exit (auction_PhaseKeygen E h) = Keygen_Exit auction_keygen_keys auction_readContractParams E h"
  "ph_Enter PhaseScalarBid c = (c, None)" "ph_Exit PhaseScalarBid = store_bucket CtxAuctionBids bucketScalarBids"
  "ph_Enter (PhaseArgmax E hp) = Argmax_Enter auction_argmax_keys auction_readContractParams E hp" "ph_Exit (PhaseArgmax E hp) c = (c, None)"
  "ph_Enter (auction_PhaseDecrypt E h) c = (c, None)" "ph_Exit (auction_PhaseDecrypt E h) = auction_Decrypt_Exit E h"
  "ph_Enter (PhaseSettlement E) = Settlement_Enter E" "ph_Exit (PhaseSettlement E) c = (c, None)"
  "ph_ConsumedMessageTypes (auction_PhaseKeygen E h) = [''auction.keygen.share'']" "ph_ConsumedMessageTypes PhaseScalarBid = [''auction.bid'']"
  "ph_ConsumedMessageTypes (auction_PhaseDecrypt E h) = [''auction.decrypt.partial'']"
  "ph_ConsumedMessageTypes (PhaseArgmax E hp) = []" "ph_ConsumedMessageTypes (PhaseSettlement E) = []"
  "ph_CheckComplete (PhaseArgmax E hp) c" "ph_CheckComplete (PhaseSettlement E) c"
  by (simp_all add: auction_phases bare_phase_def)

lemma auction_states_set [simp]:
  "StateAuctionLocked \<noteq> StateNone" "StateAuctionBidding \<noteq> StateNone" "StateAuctionScoring \<noteq> StateNone" "StateAuctionDecrypting \<noteq> StateNone"
  "StateAuctionSettled \<noteq> StateNone" "StateAuctionLocked \<noteq> StateAuctionInviting"
  by (simp_all add: auction_states)

lemma auction_started:
  assumes "ready (auction_pipeline_phases E helper) (sv_runner (svc :: 's service))" "sid \<noteq> []" "ps \<noteq> []"
  obtains svc1 c where "auctionTrigger_Start ops now enc ts E (crypto_ctx depth ringDim) sid ps [] svc = (svc1, None)"
    "at_phase (sv_runner svc1) sid (auction_PhaseKeygen E (map_option fst helper)) c" "same_setup (sv_runner svc) (sv_runner svc1)"
    "\<forall>key. ctx_Get c key = map_of [(CtxAuctionParticipants, VStrings ps), (CtxAuctionCryptoContract, crypto_ctx depth ringDim)] key" "c_SessionID c = sid"
proof -
  let ?ph = "auction_pipeline_phases E helper :: 's phase list"
  let ?at = "[(CtxAuctionParticipants, VStrings ps), (CtxAuctionCryptoContract, crypto_ctx depth ringDim)]"
  have ph: "hd ?ph = auction_PhaseInvitation" "?ph \<noteq> []" "\<And>c. ph_Enter (hd ?ph) c = (c, None)" "1 \<le> length ?ph"
    by (simp_all add: auction_pipeline_phases_def)
  have at: "gomap_wf ?at" by (simp add: auction_keys)
  have path: "quiet_path r (hd ?ph # auction_PhaseKeygen E (map_option fst helper) # []) c c"
    if "r_byEntryState r = r_byEntryState (sv_runner svc)" "c_store c = None" for r and c :: "'s sctx"
    using assms(1) that by (auto simp: ph(1) ready_def auction_pipeline_phases_def)
  obtain svc1 r c where s: "Start enc ts sid ps ?at svc = (svc1, None)" "AdvanceToState ops now sid StateAuctionLocked (sv_runner svc1) = (r, None)"
    "at_phase r sid (last [auction_PhaseKeygen E (map_option fst helper)]) c" "same_setup (sv_runner svc) r" "\<forall>key. ctx_Get c key = map_of ?at key" "c_SessionID c = sid"
    by (rule started_at [OF assms(1) ph(2) assms(2,3) ph(3) at path]) (use ph(4) in \<open>auto simp: ph(1)\<close>)
  have "decode_attrs E [CtxAuctionCollectivePublicKey, CtxAuctionEvalKeys] (auction_attrs (crypto_ctx depth ringDim) ps []) = Inr ?at"
    by (simp add: auction_attrs_def auction_keys)
  then have "auctionTrigger_Start ops now enc ts E (crypto_ctx depth ringDim) sid ps [] svc = (svc1\<lparr>sv_runner := r\<rparr>, None)"
    using s(1,2) by (simp add: auctionTrigger_Start_def trigger_start_def)
  then show ?thesis using that [of "svc1\<lparr>sv_runner := r\<rparr>" c] s by simp
qed

lemma auction_contract:
  assumes "ctx_Get c CtxAuctionCryptoContract = Some (crypto_ctx depth ringDim)"
  shows "auction_readContractParams E c = Inr (no_contract\<lparr>cp_RingDim := wrap_uint32 ringDim, cp_Depth := wrap_uint32 depth, cp_ScalingModSize := 50\<rparr>)"
  using assms by (simp add: auction_readContractParams_def read_contract_def crypto_ctx_def as_map_def asUint_def asInt_def and_then_def)

lemma auction_decrypt_hook:
  assumes "auction_readContractParams E c = Inr params"
    "over_slots (\<lambda>slot. auction_decodePartialCiphertext E) 0 (map snd (ae_order E (AccumulatedMessages c auction_bucketDecryptPartials))) = Inr raws"
    "FusePartials cl params raws 1 = Inr (price # others)"
  shows "auction_Decrypt_Exit E (Some cl) c =
    (ctx_Set CtxAuctionWinnerBid (auction_result ''bidder-determined-by-mask'' (VFloat price) c) c, None)"
proof -
  have "over_slots (\<lambda>slot raw. wrapf (''PhaseDecrypt'' @ '': decode partial: '') (auction_decodePartialCiphertext E raw)) 0
      (map snd (ae_order E (AccumulatedMessages c auction_bucketDecryptPartials))) = Inr raws"
    using over_slots_wrapf [OF assms(2)] .
  then show ?thesis using assms(1,3) by (simp add: auction_Decrypt_Exit_def fused_value_def and_then_def wrapf_def)
qed

lemma auction_names:
  "distinct [gk_participants auction_keygen_keys, CtxAuctionCryptoContract, gk_pk auction_keygen_keys, gk_shares auction_keygen_keys,
     gk_ek auction_keygen_keys, CtxAuctionBids, xk_out auction_argmax_keys, CtxAuctionWinnerBid, gk_bucket auction_keygen_keys,
     xk_bucket auction_argmax_keys, auction_bucketDecryptPartials]" "xk_ek auction_argmax_keys = gk_ek auction_keygen_keys"
  by (simp_all add: auction_keygen_keys_def auction_argmax_keys_def auction_keys)

lemma auction_key_names [simp]:
  "gk_participants auction_keygen_keys = CtxAuctionParticipants" "gk_bucket auction_keygen_keys = auction_bucketKeygenShares"
  "xk_bucket auction_argmax_keys = bucketScalarBids" "xk_out auction_argmax_keys = CtxAuctionCipherWinnerBid"
  by (simp_all add: auction_keygen_keys_def auction_argmax_keys_def)


section \<open>A concrete session\<close>


end
