(* ===== verification/Ride_Share.thy ===== *)
theory Ride_Share
  imports Fhe_Triggers Scored_App
begin

text \<open>
  The ride-share application (examples/ride_share): states and keys (states.go), phases (phases.go), pipelines
  (runner.go) and the trigger of its session service (cmd/session-service/main.go). It has the shape of the auction;
  its decryption phase reads the crypto contract with a second reader of its own.
\<close>

section \<open>States and keys\<close>

definition ride_StateInvite :: session_state where
  "ride_StateInvite = ''RIDE_INVITE''"

definition ride_StateKeygen :: session_state where
  "ride_StateKeygen = ''RIDE_KEYGEN''"

definition ride_StateSubmit :: session_state where
  "ride_StateSubmit = ''RIDE_SUBMIT''"

definition ride_StateScore :: session_state where
  "ride_StateScore = ''RIDE_SCORE''"

definition ride_StateDecrypt :: session_state where
  "ride_StateDecrypt = ''RIDE_DECRYPT''"

definition ride_StateSettle :: session_state where
  "ride_StateSettle = ''RIDE_SETTLE''"

lemmas ride_states = ride_StateInvite_def ride_StateKeygen_def ride_StateSubmit_def ride_StateScore_def ride_StateDecrypt_def
  ride_StateSettle_def StateNone_def

definition ride_CtxParticipants :: string where
  "ride_CtxParticipants = ''ride.participants''"

definition CtxRoles :: string where
  "CtxRoles = ''ride.roles''"

definition ride_CtxCryptoContract :: string where
  "ride_CtxCryptoContract = ''ride.crypto_ctx''"

definition ride_CtxCollectivePK :: string where
  "ride_CtxCollectivePK = ''ride.collective_pk''"

definition ride_CtxSecretShares :: string where
  "ride_CtxSecretShares = ''ride.secret_shares''"

definition ride_CtxEvalKeys :: string where
  "ride_CtxEvalKeys = ''ride.eval_keys''"

definition ride_CtxBids :: string where
  "ride_CtxBids = ''ride.bids''"

definition ride_CtxWinner :: string where
  "ride_CtxWinner = ''ride.ct_winner''"

definition ride_CtxResult :: string where
  "ride_CtxResult = ''ride.result''"

definition ride_CtxSettlement :: string where
  "ride_CtxSettlement = ''ride.settlement''"

definition ride_bucketKeygenShares :: string where
  "ride_bucketKeygenShares = ''ride.bucket.keygen_shares''"

definition ride_bucketBids :: string where
  "ride_bucketBids = ''ride.bucket.bids''"

definition ride_bucketDecryptPartials :: string where
  "ride_bucketDecryptPartials = ''ride.bucket.decrypt_partials''"

lemmas ride_keys = ride_CtxParticipants_def CtxRoles_def ride_CtxCryptoContract_def ride_CtxCollectivePK_def ride_CtxSecretShares_def
  ride_CtxEvalKeys_def ride_CtxBids_def ride_CtxWinner_def ride_CtxResult_def ride_CtxSettlement_def ride_bucketKeygenShares_def
  ride_bucketBids_def ride_bucketDecryptPartials_def

section \<open>Reading the contract\<close>

definition readRideContractParams :: "app_env \<Rightarrow> 's sctx \<Rightarrow> string + contract_params" where
  "readRideContractParams = read_contract ride_CtxCryptoContract ''CtxCryptoContract'' '' has type '' [KInt, KInt32, KInt64, KUint32] [KInt]"

definition asFloat :: "(string \<times> anyv) list \<Rightarrow> string \<Rightarrow> f64" where
  "asFloat m key =
     (case map_of m key of
        None \<Rightarrow> Fin 0
      | Some v \<Rightarrow> (case v of VFloat n \<Rightarrow> n | VInt KInt n \<Rightarrow> f64_int n | VInt KInt64 n \<Rightarrow> f64_int n | _ \<Rightarrow> Fin 0))"

definition ride_readContractParams :: "app_env \<Rightarrow> 's sctx \<Rightarrow> string + contract_params" where
  "ride_readContractParams E c =
     (case ctx_Get c ride_CtxCryptoContract of
        None \<Rightarrow> Inl ''CtxCryptoContract missing''
      | Some v \<Rightarrow>
          (case as_map v of
             None \<Rightarrow> Inl (''CtxCryptoContract has type '' @ ae_typename E v)
           | Some contract \<Rightarrow>
               Inr (no_contract\<lparr>cp_RingDim := uint32_of (ae_oob E) (asFloat contract ''ring_dim''),
                 cp_Depth := uint32_of (ae_oob E) (asFloat contract ''depth''),
                 cp_ScalingModSize := int64_of (ae_oob E) (asFloat contract ''scaling_mod_size'')\<rparr>)))"

definition decodeRideBid :: "app_env \<Rightarrow> bytes \<Rightarrow> string + bytes" where
  "decodeRideBid E = decode_ciphertext E ''bid_ct''"

definition ride_decodePartialCiphertext :: "app_env \<Rightarrow> bytes \<Rightarrow> string + bytes" where
  "ride_decodePartialCiphertext = decode_partial ''no partial_ct or partial field in decrypt-partial payload''"

section \<open>The phases\<close>

definition ride_PhaseInvite :: "'s phase" where
  "ride_PhaseInvite = (bare_phase ''ride-invite'' ride_StateInvite ride_StateKeygen True)
     \<lparr>ph_Provides :=
        [(ride_CtxParticipants, provides ''[]string''), (CtxRoles, provides ''map[string]string''),
         (ride_CtxCryptoContract, with_constraints
            [(''depth'', VInt KInt 12), (''ring_dim'', VInt KInt 2048), (''scaling_mod_size'', VInt KInt 40)]
            (provides ''OpenFHEContract''))]\<rparr>"

definition ride_keygen_keys :: keygen_keys where
  "ride_keygen_keys =
     \<lparr>gk_participants = ride_CtxParticipants, gk_participantsName = ''CtxParticipants'', gk_pk = ride_CtxCollectivePK,
      gk_shares = ride_CtxSecretShares, gk_ek = ride_CtxEvalKeys, gk_bucket = ride_bucketKeygenShares\<rparr>"

definition ride_PhaseKeygen :: "app_env \<Rightarrow> helper_client option \<Rightarrow> 's phase" where
  "ride_PhaseKeygen E helper =
     (collecting_phase ''ride-keygen'' ride_StateKeygen ride_StateSubmit [''ride.keygen.share''] ride_CtxParticipants ride_bucketKeygenShares)
     \<lparr>ph_Requires :=
        [(ride_CtxParticipants, requires ''[]string''),
         (ride_CtxCryptoContract, with_constraints [(''depth_min'', VInt KInt 4)] (requires ''OpenFHEContract''))],
      ph_Provides :=
        [(ride_CtxCollectivePK, provides ''[]byte''), (ride_CtxSecretShares, provides ''map[string][]byte''),
         (ride_CtxEvalKeys, provides ''OpenFHEEvalKeys'')],
      ph_Exit := Keygen_Exit ride_keygen_keys readRideContractParams E helper\<rparr>"

definition ride_PhaseSubmit :: "'s phase" where
  "ride_PhaseSubmit =
     (collecting_phase ''ride-submit'' ride_StateSubmit ride_StateScore [''ride.bid'', ''ride.request''] ride_CtxParticipants ride_bucketBids)
     \<lparr>ph_Requires :=
        [(ride_CtxParticipants, requires ''[]string''), (CtxRoles, requires ''map[string]string''),
         (ride_CtxCollectivePK, requires ''[]byte''), (ride_CtxCryptoContract, requires ''OpenFHEContract'')],
      ph_Provides := [(ride_CtxBids, provides ''RideShareBids'')],
      ph_Exit := store_bucket ride_CtxBids ride_bucketBids\<rparr>"

definition ride_argmax_keys :: argmax_keys where
  "ride_argmax_keys =
     \<lparr>xk_label = ''PhaseScore'', xk_bucket = ride_bucketBids, xk_ek = ride_CtxEvalKeys, xk_ekName = ''CtxEvalKeys'',
      xk_decode = decodeRideBid, xk_what = ''bid'', xk_out = ride_CtxWinner, xk_marshal = '': marshal envelope: ''\<rparr>"

definition PhaseScore :: "app_env \<Rightarrow> (helper_client \<times> eval_poly) option \<Rightarrow> 's phase" where
  "PhaseScore E helper = (bare_phase ''ride-score'' ride_StateScore ride_StateDecrypt True)
     \<lparr>ph_Requires :=
        [(ride_CtxParticipants, requires ''[]string''), (ride_CtxCryptoContract, requires ''OpenFHEContract''),
         (ride_CtxEvalKeys, requires ''OpenFHEEvalKeys''), (ride_CtxBids, requires ''RideShareBids'')],
      ph_Provides := [(ride_CtxWinner, provides ''[]byte'')],
      ph_Enter := Argmax_Enter ride_argmax_keys readRideContractParams E helper\<rparr>"

definition ride_result :: "anyv \<Rightarrow> string \<Rightarrow> anyv" where
  "ride_result price driver = VMap [(''agreed_price'', price), (''driver_id'', VString driver), (''rider_id'', VString ''stub-rider'')]"

definition ride_Decrypt_Exit :: "app_env \<Rightarrow> helper_client option \<Rightarrow> 's hook" where
  "ride_Decrypt_Exit E helper c =
     (case helper of
        None \<Rightarrow> (ctx_Set ride_CtxResult (ride_result (VInt KInt 0) ''stub-driver'') c, None)
      | Some cl \<Rightarrow>
          (case fused_value ''PhaseDecrypt'' ride_decodePartialCiphertext ride_readContractParams 3 ride_bucketDecryptPartials E cl c of
             Inl e \<Rightarrow> (c, Some e)
           | Inr agreedPrice \<Rightarrow> (ctx_Set ride_CtxResult (ride_result (VFloat agreedPrice) ''winner-determined-by-mask'') c, None)))"

definition ride_PhaseDecrypt :: "app_env \<Rightarrow> helper_client option \<Rightarrow> 's phase" where
  "ride_PhaseDecrypt E helper =
     (collecting_phase ''ride-decrypt'' ride_StateDecrypt ride_StateSettle [''ride.decrypt.partial''] ride_CtxParticipants ride_bucketDecryptPartials)
     \<lparr>ph_Requires :=
        [(ride_CtxParticipants, requires ''[]string''), (ride_CtxSecretShares, requires ''map[string][]byte''),
         (ride_CtxWinner, requires ''[]byte'')],
      ph_Provides := [(ride_CtxResult, provides ''RideShareResult'')],
      ph_Exit := ride_Decrypt_Exit E helper\<rparr>"

definition ride_Settle_Enter :: "app_env \<Rightarrow> 's hook" where
  "ride_Settle_Enter E c = (ctx_Set ride_CtxSettlement (VMap (settlement E ride_CtxResult ''result'' ''rideshare'' c)) c, None)"

definition ride_PhaseSettle :: "app_env \<Rightarrow> 's phase" where
  "ride_PhaseSettle E = (bare_phase ''ride-settle'' ride_StateSettle StateNone True)
     \<lparr>ph_Requires := [(ride_CtxResult, requires ''RideShareResult'')],
      ph_Provides := [(ride_CtxSettlement, provides ''SignedTranscript'')],
      ph_Enter := ride_Settle_Enter E\<rparr>"

lemmas ride_phases = ride_PhaseInvite_def ride_PhaseKeygen_def ride_PhaseSubmit_def PhaseScore_def ride_PhaseDecrypt_def
  ride_PhaseSettle_def collecting_phase_def

section \<open>The pipelines and the trigger\<close>

definition ride_pipeline_phases :: "app_env \<Rightarrow> (helper_client \<times> eval_poly) option \<Rightarrow> 's phase list" where
  "ride_pipeline_phases E helper =
     [ride_PhaseInvite, ride_PhaseKeygen E (map_option fst helper), ride_PhaseSubmit, PhaseScore E helper,
      ride_PhaseDecrypt E (map_option fst helper), ride_PhaseSettle E]"

definition ride_Pipeline :: "(f64 \<Rightarrow> string) \<Rightarrow> app_env \<Rightarrow> rerror + 's runner" where
  "ride_Pipeline ff E = Compose ff (ride_pipeline_phases E None)"

definition ride_PipelineWithHelper :: "(f64 \<Rightarrow> string) \<Rightarrow> app_env \<Rightarrow> helper_client \<Rightarrow> eval_poly \<Rightarrow> rerror + 's runner" where
  "ride_PipelineWithHelper ff E helper sharpening = Compose ff (ride_pipeline_phases E (Some (helper, sharpening)))"

definition ride_PipelineWithLineage :: "(f64 \<Rightarrow> string) \<Rightarrow> app_env \<Rightarrow> signer \<Rightarrow> (string, signer) gomap \<Rightarrow> rerror + mem_store runner" where
  "ride_PipelineWithLineage ff E signer peerVerifiers =
     ComposeWith ff NewInMemoryStore (ride_pipeline_phases E None)
       [WithSigner signer, WithPeerVerifiers peerVerifiers, WithStore NewInMemoryStore]"

definition ride_PipelineWithLineageAndHelper ::
  "(f64 \<Rightarrow> string) \<Rightarrow> app_env \<Rightarrow> helper_client \<Rightarrow> eval_poly \<Rightarrow> signer \<Rightarrow> (string, signer) gomap \<Rightarrow> rerror + mem_store runner" where
  "ride_PipelineWithLineageAndHelper ff E helper sharpening signer peerVerifiers =
     ComposeWith ff NewInMemoryStore (ride_pipeline_phases E (Some (helper, sharpening)))
       [WithSigner signer, WithPeerVerifiers peerVerifiers, WithStore NewInMemoryStore]"

definition buildRideShareRunner :: "(f64 \<Rightarrow> string) \<Rightarrow> app_env \<Rightarrow> (string + helper_client) option \<Rightarrow> string + (rerror + 's runner)" where
  "buildRideShareRunner ff E helper =
     (case helper of
        None \<Rightarrow> Inr (ride_Pipeline ff E)
      | Some (Inl e) \<Rightarrow> Inl e
      | Some (Inr client) \<Rightarrow> Inr (ride_PipelineWithHelper ff E client session_sharpening))"

text \<open>The first participant is the rider; a later occurrence of the same name overwrites the role.\<close>

definition defaultRoles :: "string list \<Rightarrow> (string, string) gomap" where
  "defaultRoles participants =
     fold (\<lambda>(i, p). AList.update p (if i = 0 then ''rider'' else ''driver'')) (zip [0..<length participants] participants) []"

definition roles_v :: "(string, string) gomap \<Rightarrow> anyv" where
  "roles_v m = VMapOf ''string'' (map (\<lambda>(k, r). (k, VString r)) m)"

definition ride_attrs :: "anyv \<Rightarrow> string list \<Rightarrow> (string, anyv) gomap \<Rightarrow> (string, anyv) gomap" where
  "ride_attrs cryptoCtx participants attrs =
     fold (\<lambda>(k, v). AList.update k v) attrs
       [(ride_CtxParticipants, VStrings participants), (CtxRoles, roles_v (defaultRoles participants)), (ride_CtxCryptoContract, cryptoCtx)]"

definition rideShareTrigger_Start ::
  "'s store_ops \<Rightarrow> int \<Rightarrow> (ws_message \<Rightarrow> string + bytes) \<Rightarrow> string \<Rightarrow> app_env \<Rightarrow> anyv \<Rightarrow> string \<Rightarrow> string list \<Rightarrow> (string, anyv) gomap
    \<Rightarrow> 's service \<Rightarrow> 's service \<times> start_error option" where
  "rideShareTrigger_Start ops now enc ts E cryptoCtx sid participants attrs svc =
     (if length participants < 2 then (svc, Some (TooFewParticipants (length participants)))
      else trigger_start ops now enc ts E [ride_CtxCollectivePK, ride_CtxEvalKeys] ride_StateKeygen
             (ride_attrs cryptoCtx participants attrs) sid participants svc)"

lemma ride_depths: "atLeast (VInt KInt 12) (VInt KInt 4) = Some True"
  by code_simp

lemmas ride_eval = compose_eval ride_phases ride_states ride_keys ride_pipeline_phases_def ride_depths

lemma ride_composes: "\<exists>r. Compose ff (ride_pipeline_phases E helper) = Inr (r :: 's runner)"
  by (simp add: ride_eval)

interpretation ride: scored_app "ride_PhaseKeygen E h" ride_PhaseSubmit "ride_PhaseDecrypt E h" "''ride.keygen.share''"
    ride_bucketKeygenShares "''ride.bid''" ride_bucketBids "''ride.decrypt.partial''" ride_bucketDecryptPartials
    ride_CtxParticipants "PhaseScore E hp" "ride_PhaseSettle E"
  by unfold_locales (simp_all add: ride_phases bare_phase_def ride_keys ride_states phaseConsumes_def passes_def)

end
