(* ===== verification/Float_Order.thy ===== *)
theory Float_Order
  imports Go_Convert
begin

text \<open>
  More of \<open>float64\<close>: rounding keeps the order of sums and quotients, \<open>math.Ceil\<close> and \<open>math.Floor\<close>, the correctly rounded
  \<open>math.Sqrt\<close>, and 64-bit wrap-around of \<open>int\<close>.
\<close>

section \<open>Order\<close>

lemma f64_of_rat_mono: "x \<le> y \<Longrightarrow> fle (f64_of_rat x) (f64_of_rat y)"
proof -
  assume "x \<le> y"
  then have "rnd x \<le> rnd y" by (rule rnd_mono)
  then show ?thesis by (auto simp: f64_of_rat_def Let_def fle_def fits_iff)
qed

lemma flt_PInf [simp]: "\<not> flt PInf x"
  by (cases x) simp_all

lemma fadd_mono:
  assumes "fle a b" "fle (Fin 0) a" "fle (Fin 0) q"
  shows "fle (fadd a q) (fadd b q)"
  using assms by (cases a; cases b; cases q) (auto simp: fle_def [of PInf] fle_def [of _ PInf] fle_def [of NaN] fle_def [of _ NaN] fle_def [of _ NInf] intro: f64_of_rat_mono)

lemma fadd_grows:
  assumes "f64_ok a" "fle (Fin 0) a" "fle (Fin 0) q"
  shows "fle a (fadd a q)"
proof (cases a)
  case (Fin r)
  show ?thesis
  proof (cases q)
    case (Fin s)
    then have "fle (f64_of_rat r) (f64_of_rat (r + s))" using assms(3) by (intro f64_of_rat_mono) simp
    then show ?thesis using Fin \<open>a = Fin r\<close> assms(1) by (simp add: f64_of_rat_exact del: f64_ok.simps)
  qed (use Fin assms(3) in \<open>simp_all add: fle_def\<close>)
qed (use assms in \<open>cases q; simp_all add: fle_def\<close>)+

lemma fadd_nonneg: "f64_ok a \<Longrightarrow> fle (Fin 0) a \<Longrightarrow> fle (Fin 0) q \<Longrightarrow> fle (Fin 0) (fadd a q)"
  using fadd_grows fle_trans by blast

section \<open>Rounding to an integer\<close>

fun math_Ceil :: "f64 \<Rightarrow> f64" where
  "math_Ceil (Fin r) = Fin (of_int \<lceil>r\<rceil>)"
| "math_Ceil x = x"

fun math_Floor :: "f64 \<Rightarrow> f64" where
  "math_Floor (Fin r) = Fin (of_int \<lfloor>r\<rfloor>)"
| "math_Floor x = x"

definition wrap_int64 :: "int \<Rightarrow> int" where
  "wrap_int64 n = (n + 2 ^ 63) mod 2 ^ 64 - 2 ^ 63"

lemma wrap_int64_id [simp]: "- (2 ^ 63) \<le> n \<Longrightarrow> n < 2 ^ 63 \<Longrightarrow> wrap_int64 n = n"
  by (simp add: wrap_int64_def)

lemma rnd_le_dyadic: "\<bar>n\<bar> \<le> 2 ^ 53 \<Longrightarrow> x \<le> of_int n / 2 ^ m \<Longrightarrow> m \<le> 1074 \<Longrightarrow> rnd x \<le> of_int n / 2 ^ m"
  "\<bar>n\<bar> \<le> 2 ^ 53 \<Longrightarrow> of_int n / 2 ^ m \<le> x \<Longrightarrow> m \<le> 1074 \<Longrightarrow> of_int n / 2 ^ m \<le> rnd x"
proof -
  have e: "of_int n / 2 ^ m = of_int n * (2 :: rat) powi (- int m)" by (simp add: power_int_minus field_simps)
  have "rnd (of_int n / 2 ^ m) = of_int n / 2 ^ m" if "\<bar>n\<bar> \<le> 2 ^ 53" "m \<le> 1074" unfolding e using that by (intro rnd_exact) simp_all
  then show "\<bar>n\<bar> \<le> 2 ^ 53 \<Longrightarrow> x \<le> of_int n / 2 ^ m \<Longrightarrow> m \<le> 1074 \<Longrightarrow> rnd x \<le> of_int n / 2 ^ m"
    "\<bar>n\<bar> \<le> 2 ^ 53 \<Longrightarrow> of_int n / 2 ^ m \<le> x \<Longrightarrow> m \<le> 1074 \<Longrightarrow> of_int n / 2 ^ m \<le> rnd x"
    by (metis rnd_mono)+
qed

section \<open>Square root\<close>

text \<open>The largest integer whose square is at most the argument, by bisection from above.\<close>

function isqrt :: "int \<Rightarrow> int" where
  "isqrt n = (if n \<le> 0 then 0 else let r = 2 * isqrt (n div 4) in if (r + 1) * (r + 1) \<le> n then r + 1 else r)"
  by pat_completeness auto
termination
  by (relation "measure nat") auto

declare isqrt.simps [simp del]

lemma isqrt_bounds: "0 \<le> n \<Longrightarrow> 0 \<le> isqrt n \<and> isqrt n * isqrt n \<le> n \<and> n < (isqrt n + 1) * (isqrt n + 1)"
proof (induction n rule: isqrt.induct)
  case (1 n)
  show ?case
  proof (cases "n \<le> 0")
    case True
    then have "isqrt n = 0" by (subst isqrt.simps) simp
    then show ?thesis using 1(2) True by simp
  next
    case False
    define h where "h = isqrt (n div 4)"
    have e: "isqrt n = (if (2 * h + 1) * (2 * h + 1) \<le> n then 2 * h + 1 else 2 * h)"
      using False by (subst isqrt.simps) (simp add: Let_def h_def)
    have h: "0 \<le> h" "h * h \<le> n div 4" "n div 4 < (h + 1) * (h + 1)" using 1(1) False by (simp_all add: h_def)
    have b: "4 * (h * h) \<le> n" "n < 4 * ((h + 1) * (h + 1))" using h by linarith+
    show ?thesis unfolding e using h(1) b by (simp add: algebra_simps)
  qed
qed

text \<open>The exponent of the root's last place is half the exponent of the argument; the root is rounded to the nearest
  multiple, comparing squares.\<close>

definition sqrt_ulp :: "rat \<Rightarrow> rat" where
  "sqrt_ulp x = 2 powi max (ilog2 x div 2 - 52) (- 1074)"

definition rsqrt :: "rat \<Rightarrow> rat" where
  "rsqrt x =
     (if x \<le> 0 then 0
      else let u = sqrt_ulp x; y = x / u ^ 2; n = isqrt \<lfloor>y\<rfloor>;
               m = (if (2 * of_int n + 1) ^ 2 < 4 * y then n + 1 else if 4 * y < (2 * of_int n + 1) ^ 2 then n else if even n then n else n + 1)
           in of_int m * u)"

lemma rsqrt_near:
  assumes "0 < x"
  shows "0 \<le> rsqrt x \<and> x \<le> (rsqrt x + sqrt_ulp x / 2) ^ 2 \<and> (rsqrt x = 0 \<or> (rsqrt x - sqrt_ulp x / 2) ^ 2 \<le> x)"
proof -
  define u where "u = sqrt_ulp x"
  define y where "y = x / u ^ 2"
  define n where "n = isqrt \<lfloor>y\<rfloor>"
  define m where "m = (if (2 * of_int n + 1) ^ 2 < 4 * y then n + 1 else if 4 * y < (2 * of_int n + 1) ^ 2 then n else if even n then n else n + 1)"
  have u: "0 < u" by (simp add: u_def sqrt_ulp_def)
  have r: "rsqrt x = of_int m * u" using assms by (simp only: rsqrt_def Let_def m_def n_def y_def u_def not_le [symmetric] if_False)
  have y: "0 \<le> y" "x = y * u ^ 2" using assms u by (simp_all add: y_def)
  have n: "0 \<le> n" "n * n \<le> \<lfloor>y\<rfloor>" "\<lfloor>y\<rfloor> < (n + 1) * (n + 1)" using isqrt_bounds [of "\<lfloor>y\<rfloor>"] y(1) by (simp_all add: n_def)
  have lo: "of_int n * of_int n \<le> y" using n(2) by (simp add: le_floor_iff)
  have hi: "y < (of_int n + 1) * (of_int n + 1)" using n(3) by (simp add: floor_less_iff)
  have up: "4 * y \<le> (2 * of_int m + 1) ^ 2" using hi by (auto simp: m_def power2_eq_square algebra_simps)
  have dn: "m = 0 \<or> (2 * of_int m - 1) ^ 2 \<le> 4 * y" using lo n(1) by (auto simp: m_def power2_eq_square algebra_simps)
  have sq: "(of_int m * u + u / 2) ^ 2 = (2 * of_int m + 1) ^ 2 / 4 * u ^ 2" "(of_int m * u - u / 2) ^ 2 = (2 * of_int m - 1) ^ 2 / 4 * u ^ 2"
    by (simp_all add: power2_eq_square field_simps)
  have "y * u ^ 2 \<le> (of_int m * u + u / 2) ^ 2" unfolding sq using up by (intro mult_right_mono) simp_all
  moreover have "(of_int m * u - u / 2) ^ 2 \<le> y * u ^ 2" if "(2 * of_int m - 1) ^ 2 \<le> 4 * y" unfolding sq using that by (intro mult_right_mono) simp_all
  moreover have "0 \<le> of_int m * u" using n(1) u by (simp add: m_def)
  ultimately show ?thesis unfolding r u_def [symmetric] y(2) [symmetric] using u dn by (auto simp: y(2))
qed

fun math_Sqrt :: "f64 \<Rightarrow> f64" where
  "math_Sqrt (Fin r) = (if r < 0 then NaN else Fin (rsqrt r))"
| "math_Sqrt PInf = PInf"
| "math_Sqrt _ = NaN"

end
