(* ===== verification/Pool_Grid.thy ===== *)
theory Pool_Grid
  imports Float_Order
begin

text \<open>
  The public price grid of the uniform-price pool (pkg/ares/pool/grid.go): the grid and its packing, the offers, and the
  packed step curves of sellers and buyers. A curve at a bucket is the sum of the quantities offered there, and for
  prices away from a bucket boundary these are the offers the documentation names.

  Arithmetic is the code's: \<open>int\<close> wraps at 64 bits, an index outside a slice is a panic (None), every float operation
  rounds. \<open>oob\<close> is what the platform makes of a float that does not fit an \<open>int\<close>.
\<close>

section \<open>Grid and offers\<close>

record grid_spec =
  TickCt :: f64
  NumBuckets :: int
  NumSlots :: int

record offer =
  o_Slot :: int
  o_PriceCt :: f64
  o_Quantity :: f64

datatype pool_error =
  BadTick f64 | BadBuckets int | BadSlots int
| SlotOutOfRange nat int int | NegativeQuantity nat f64 | NonFinitePrice nat f64
| NormExceeds f64 f64
| SupplyLength nat int | DemandLength nat int

definition tickEpsilon :: f64 where
  "tickEpsilon = f64_of_rat (1 / 10 ^ 9)"

definition Validate_grid :: "grid_spec \<Rightarrow> pool_error option" where
  "Validate_grid g =
     (if \<not> flt (Fin 0) (TickCt g) then Some (BadTick (TickCt g))
      else if NumBuckets g \<le> 0 then Some (BadBuckets (NumBuckets g))
      else if NumSlots g \<le> 0 then Some (BadSlots (NumSlots g))
      else None)"

definition Price :: "grid_spec \<Rightarrow> int \<Rightarrow> f64" where
  "Price g bucket = fmul (TickCt g) (f64_int bucket)"

definition Len :: "grid_spec \<Rightarrow> int" where
  "Len g = wrap_int64 (NumSlots g * NumBuckets g)"

definition Index :: "grid_spec \<Rightarrow> int \<Rightarrow> int \<Rightarrow> int" where
  "Index g slot bucket = wrap_int64 (wrap_int64 (slot * NumBuckets g) + bucket)"

definition offer_error :: "grid_spec \<Rightarrow> nat \<Rightarrow> offer \<Rightarrow> pool_error option" where
  "offer_error g i b =
     (if o_Slot b < 0 \<or> o_Slot b \<ge> NumSlots g then Some (SlotOutOfRange i (o_Slot b) (NumSlots g))
      else if flt (o_Quantity b) (Fin 0) then Some (NegativeQuantity i (o_Quantity b))
      else if o_PriceCt b \<in> {NaN, PInf, NInf} then Some (NonFinitePrice i (o_PriceCt b))
      else None)"

fun offers_error :: "grid_spec \<Rightarrow> nat \<Rightarrow> offer list \<Rightarrow> pool_error option" where
  "offers_error g i [] = None"
| "offers_error g i (b # offers) = (case offer_error g i b of Some e \<Rightarrow> Some e | None \<Rightarrow> offers_error g (Suc i) offers)"

definition validateOffers :: "grid_spec \<Rightarrow> offer list \<Rightarrow> pool_error option" where
  "validateOffers g offers = (case Validate_grid g of Some e \<Rightarrow> Some e | None \<Rightarrow> offers_error g 0 offers)"

section \<open>Packed curves\<close>

definition make_floats :: "int \<Rightarrow> f64 list option" where
  "make_floats n = (if 0 \<le> n then Some (replicate (nat n) (Fin 0)) else None)"

definition at_index :: "'a list \<Rightarrow> int \<Rightarrow> 'a option" where
  "at_index xs i = (if 0 \<le> i \<and> i < int (length xs) then Some (xs ! nat i) else None)"

fun add_at :: "int list \<Rightarrow> f64 \<Rightarrow> f64 list \<Rightarrow> f64 list option" where
  "add_at [] q out = Some out"
| "add_at (i # is) q out = (case at_index out i of None \<Rightarrow> None | Some v \<Rightarrow> add_at is q (out[nat i := fadd v q]))"

fun add_offers :: "(offer \<Rightarrow> int list) \<Rightarrow> grid_spec \<Rightarrow> offer list \<Rightarrow> f64 list \<Rightarrow> f64 list option" where
  "add_offers buckets g [] out = Some out"
| "add_offers buckets g (b # offers) out =
     (case add_at (map (Index g (o_Slot b)) (buckets b)) (o_Quantity b) out of
        None \<Rightarrow> None | Some out' \<Rightarrow> add_offers buckets g offers out')"

definition encode_curve :: "(offer \<Rightarrow> int list) \<Rightarrow> grid_spec \<Rightarrow> offer list \<Rightarrow> (pool_error + f64 list) option" where
  "encode_curve buckets g offers =
     (case validateOffers g offers of
        Some e \<Rightarrow> Some (Inl e)
      | None \<Rightarrow> (case make_floats (Len g) of None \<Rightarrow> None | Some out \<Rightarrow> map_option Inr (add_offers buckets g offers out)))"

text \<open>The buckets of a seller run from the first at or above the bid, those of a buyer to the last at or below the limit.\<close>

definition supply_buckets :: "(f64 \<Rightarrow> int) \<Rightarrow> grid_spec \<Rightarrow> offer \<Rightarrow> int list" where
  "supply_buckets oob g b =
     (let first = int64_of oob (math_Ceil (fsub (fdiv (o_PriceCt b) (TickCt g)) tickEpsilon))
      in [if first < 0 then 0 else first..NumBuckets g - 1])"

definition EncodeSupply :: "(f64 \<Rightarrow> int) \<Rightarrow> grid_spec \<Rightarrow> offer list \<Rightarrow> (pool_error + f64 list) option" where
  "EncodeSupply oob g offers = encode_curve (supply_buckets oob g) g offers"

definition demand_buckets :: "(f64 \<Rightarrow> int) \<Rightarrow> grid_spec \<Rightarrow> offer \<Rightarrow> int list" where
  "demand_buckets oob g b =
     (let last = int64_of oob (math_Floor (fadd (fdiv (o_PriceCt b) (TickCt g)) tickEpsilon))
      in [0..if last \<ge> NumBuckets g then NumBuckets g - 1 else last])"

definition EncodeDemand :: "(f64 \<Rightarrow> int) \<Rightarrow> grid_spec \<Rightarrow> offer list \<Rightarrow> (pool_error + f64 list) option" where
  "EncodeDemand oob g offers = encode_curve (demand_buckets oob g) g offers"

fun set_at :: "int list \<Rightarrow> 'a \<Rightarrow> 'a list \<Rightarrow> 'a list option" where
  "set_at [] v out = Some out"
| "set_at (i # is) v out = (if 0 \<le> i \<and> i < int (length out) then set_at is v (out[nat i := v]) else None)"

definition SlotBoundaryMask :: "grid_spec \<Rightarrow> f64 list option" where
  "SlotBoundaryMask g =
     (if 0 \<le> Len g then set_at (map (\<lambda>slot. Index g slot 0) [0..NumSlots g - 1]) (Fin 0) (replicate (nat (Len g)) (Fin 1)) else None)"

definition PaddingValue :: "f64 list \<Rightarrow> f64 \<Rightarrow> pool_error + f64" where
  "PaddingValue vec c =
     (let norm = foldl (\<lambda>norm v. fadd norm (fmul v v)) (Fin 0) vec
      in if flt c norm then Inl (NormExceeds norm c) else Inr (math_Sqrt (fsub c norm)))"

section \<open>The packing\<close>

text \<open>A grid whose packed length fits an \<open>int\<close>.\<close>

definition grid_ok :: "grid_spec \<Rightarrow> bool" where
  "grid_ok g \<longleftrightarrow> Validate_grid g = None \<and> NumSlots g * NumBuckets g < 2 ^ 63"

lemma grid_okD: "grid_ok g \<Longrightarrow> 0 < NumBuckets g \<and> 0 < NumSlots g \<and> NumSlots g * NumBuckets g < 2 ^ 63 \<and> flt (Fin 0) (TickCt g)"
  by (auto simp: grid_ok_def Validate_grid_def split: if_splits)

definition in_grid :: "grid_spec \<Rightarrow> int \<Rightarrow> int \<Rightarrow> bool" where
  "in_grid g slot k \<longleftrightarrow> 0 \<le> slot \<and> slot < NumSlots g \<and> 0 \<le> k \<and> k < NumBuckets g"

lemma packed:
  assumes "grid_ok g" "in_grid g slot k"
  shows "Index g slot k = slot * NumBuckets g + k" "0 \<le> Index g slot k" "Index g slot k < Len g" "Len g = NumSlots g * NumBuckets g"
proof -
  let ?K = "NumBuckets g"
  have g: "0 < ?K" "0 < NumSlots g" "NumSlots g * ?K < 2 ^ 63" using grid_okD [OF assms(1)] by simp_all
  have s: "0 \<le> slot" "slot + 1 \<le> NumSlots g" "0 \<le> k" "k < ?K" using assms(2) by (simp_all add: in_grid_def)
  have "(slot + 1) * ?K \<le> NumSlots g * ?K" using s(2) g(1) by (simp add: mult_right_mono)
  then have b: "slot * ?K + k < NumSlots g * ?K" "0 \<le> slot * ?K" using s g(1) by (simp_all add: distrib_right)
  have len: "0 \<le> NumSlots g * ?K" using g by simp
  show i: "Index g slot k = slot * ?K + k" using b s(3) g(3) by (simp add: Index_def)
  show l: "Len g = NumSlots g * ?K" using len g(3) by (simp add: Len_def)
  show "0 \<le> Index g slot k" "Index g slot k < Len g" using i l b s(3) by simp_all
qed

lemma packed_inj:
  assumes "grid_ok g" "in_grid g s k" "in_grid g s' k'" "Index g s k = Index g s' k'"
  shows "s = s' \<and> k = k'"
proof -
  have K: "0 < NumBuckets g" using grid_okD [OF assms(1)] by simp
  have e: "s * NumBuckets g + k = s' * NumBuckets g + k'" using packed(1) [OF assms(1)] assms(2-4) by simp
  have k: "(s * NumBuckets g + k) div NumBuckets g = s" "(s * NumBuckets g + k) mod NumBuckets g = k"
    "(s' * NumBuckets g + k') div NumBuckets g = s'" "(s' * NumBuckets g + k') mod NumBuckets g = k'"
    using assms(2,3) K by (simp_all add: in_grid_def)
  then show ?thesis using e by metis
qed

lemma add_at_spec:
  assumes "\<forall>i\<in>set is. 0 \<le> i \<and> i < int (length out)" "distinct is"
  shows "\<exists>out'. add_at is q out = Some out' \<and> length out' = length out
    \<and> (\<forall>j. 0 \<le> j \<longrightarrow> j < int (length out) \<longrightarrow> out' ! nat j = (if j \<in> set is then fadd (out ! nat j) q else out ! nat j))"
  using assms
proof (induction "is" arbitrary: out)
  case (Cons i "is")
  then have "\<exists>out'. add_at is q (out[nat i := fadd (out ! nat i) q]) = Some out' \<and> length out' = length out
    \<and> (\<forall>j. 0 \<le> j \<longrightarrow> j < int (length out) \<longrightarrow> out' ! nat j =
        (if j \<in> set is then fadd (out[nat i := fadd (out ! nat i) q] ! nat j) q else out[nat i := fadd (out ! nat i) q] ! nat j))"
    using Cons.IH [of "out[nat i := fadd (out ! nat i) q]"] by (simp del: nth_list_update)
  then show ?case using Cons.prems by (fastforce simp: at_index_def nth_list_update nat_eq_iff)
qed simp

lemma set_at_spec:
  assumes "\<forall>i\<in>set is. 0 \<le> i \<and> i < int (length out)"
  shows "\<exists>out'. set_at is v out = Some out' \<and> length out' = length out
    \<and> (\<forall>j. 0 \<le> j \<longrightarrow> j < int (length out) \<longrightarrow> out' ! nat j = (if j \<in> set is then v else out ! nat j))"
  using assms
proof (induction "is" arbitrary: out)
  case (Cons i "is")
  then have "\<exists>out'. set_at is v (out[nat i := v]) = Some out' \<and> length out' = length out
    \<and> (\<forall>j. 0 \<le> j \<longrightarrow> j < int (length out) \<longrightarrow> out' ! nat j = (if j \<in> set is then v else out[nat i := v] ! nat j))"
    using Cons.IH [of "out[nat i := v]"] by simp
  then show ?case using Cons.prems by (fastforce simp: nth_list_update nat_eq_iff)
qed simp

end
