(* ===== verification/Pool_Curves.thy ===== *)
theory Pool_Curves
  imports Pool_Grid
begin

text \<open>
  What the packed curves of the pool hold: the entry of a delivery slot and a bucket is the rounded sum of the quantities
  offered there, supply rises and demand falls along the price axis, and the offers counted at a bucket are those whose
  price is on the right side of the bucket's price.
\<close>

section \<open>Entries\<close>

definition curve_at :: "(offer \<Rightarrow> int list) \<Rightarrow> offer list \<Rightarrow> int \<Rightarrow> int \<Rightarrow> f64" where
  "curve_at buckets offers slot k = foldl fadd (Fin 0) (map o_Quantity (filter (\<lambda>b. o_Slot b = slot \<and> k \<in> set (buckets b)) offers))"

locale packed_curve =
  fixes buckets :: "grid_spec \<Rightarrow> offer \<Rightarrow> int list"
  assumes in_range: "set (buckets g b) \<subseteq> {0..<NumBuckets g}"
    and once: "distinct (buckets g b)"
begin

lemma add_offers_spec:
  assumes "grid_ok g" "\<forall>b\<in>set offers. 0 \<le> o_Slot b \<and> o_Slot b < NumSlots g" "int (length out) = Len g"
  shows "\<exists>out'. add_offers (buckets g) g offers out = Some out' \<and> length out' = length out
    \<and> (\<forall>slot k. in_grid g slot k \<longrightarrow> out' ! nat (Index g slot k) =
        foldl fadd (out ! nat (Index g slot k)) (map o_Quantity (filter (\<lambda>b. o_Slot b = slot \<and> k \<in> set (buckets g b)) offers)))"
  using assms(2,3)
proof (induction offers arbitrary: out)
  case (Cons b offers)
  let ?is = "map (Index g (o_Slot b)) (buckets g b)"
  have cell: "in_grid g (o_Slot b) k" if "k \<in> set (buckets g b)" for k using in_range [of g b] that Cons.prems(1) by (auto simp: in_grid_def)
  have "\<forall>i\<in>set ?is. 0 \<le> i \<and> i < int (length out)" using packed(2,3) [OF assms(1) cell] Cons.prems(2) by auto
  moreover have "distinct ?is" using once [of g b] packed_inj [OF assms(1)] cell by (simp add: distinct_map inj_on_def) blast
  ultimately obtain out1 where o: "add_at ?is (o_Quantity b) out = Some out1" "length out1 = length out"
    and o1: "\<forall>j. 0 \<le> j \<longrightarrow> j < int (length out) \<longrightarrow> out1 ! nat j = (if j \<in> set ?is then fadd (out ! nat j) (o_Quantity b) else out ! nat j)"
    using add_at_spec [of ?is out] by metis
  have at: "out1 ! nat (Index g slot k) = (if o_Slot b = slot \<and> k \<in> set (buckets g b) then fadd (out ! nat (Index g slot k)) (o_Quantity b) else out ! nat (Index g slot k))"
    if "in_grid g slot k" for slot k
    using o1 packed(2,3) [OF assms(1) that] Cons.prems(2) packed_inj [OF assms(1) that cell] by auto
  show ?case using Cons.IH [of out1] Cons.prems o by (auto simp: at)
qed simp

lemma encode_curve_spec:
  assumes "grid_ok g" "validateOffers g offers = None" "\<forall>b\<in>set offers. 0 \<le> o_Slot b \<and> o_Slot b < NumSlots g"
  shows "\<exists>out. encode_curve (buckets g) g offers = Some (Inr out) \<and> int (length out) = Len g
    \<and> (\<forall>slot k. in_grid g slot k \<longrightarrow> out ! nat (Index g slot k) = curve_at (buckets g) offers slot k)"
proof -
  have "in_grid g 0 0" using grid_okD [OF assms(1)] by (simp add: in_grid_def)
  then have len: "0 \<le> Len g" using packed(2,3) [OF assms(1)] by (meson order.trans less_imp_le)
  let ?zero = "replicate (nat (Len g)) (Fin 0)"
  obtain out where o: "add_offers (buckets g) g offers ?zero = Some out" "length out = length ?zero"
    "\<forall>slot k. in_grid g slot k \<longrightarrow> out ! nat (Index g slot k) =
        foldl fadd (?zero ! nat (Index g slot k)) (map o_Quantity (filter (\<lambda>b. o_Slot b = slot \<and> k \<in> set (buckets g b)) offers))"
    using add_offers_spec [OF assms(1,3), of ?zero] len by auto
  have "?zero ! nat (Index g slot k) = Fin 0" if "in_grid g slot k" for slot k
    using packed(2,3) [OF assms(1) that] by (simp add: nat_less_iff)
  then show ?thesis using o len assms(2) by (simp add: encode_curve_def make_floats_def curve_at_def)
qed

end

interpretation sell: packed_curve "supply_buckets oob" for oob
  by unfold_locales (auto simp: supply_buckets_def Let_def)

interpretation buy: packed_curve "demand_buckets oob" for oob
  by unfold_locales (auto simp: demand_buckets_def Let_def)

lemma offers_valid:
  assumes "offers_error g i offers = None" "b \<in> set offers"
  shows "0 \<le> o_Slot b \<and> o_Slot b < NumSlots g \<and> \<not> flt (o_Quantity b) (Fin 0) \<and> is_fin (o_PriceCt b)"
  using assms
proof (induction offers arbitrary: i)
  case (Cons a offers)
  then show ?case by (cases "o_PriceCt a") (auto simp: offer_error_def split: option.splits if_splits)
qed simp

lemma validateOffersD: "validateOffers g offers = None \<Longrightarrow> Validate_grid g = None \<and> offers_error g 0 offers = None"
  by (simp add: validateOffers_def split: option.splits)

lemmas encoded_offers = offers_valid [OF validateOffersD [THEN conjunct2]]

section \<open>Monotone curves\<close>

lemma sum_nonneg_ok:
  assumes "f64_ok a" "fle (Fin 0) a" "\<forall>q\<in>set qs. fle (Fin 0) q"
  shows "f64_ok (foldl fadd a qs) \<and> fle (Fin 0) (foldl fadd a qs)"
  using assms by (induction qs arbitrary: a) (simp_all add: fadd_nonneg)

lemma sum_filter_mono:
  assumes "f64_ok a" "f64_ok a'" "fle (Fin 0) a" "fle a a'" "\<forall>b\<in>set offers. fle (Fin 0) (o_Quantity b)" "\<forall>b\<in>set offers. P b \<longrightarrow> P' b"
  shows "fle (foldl fadd a (map o_Quantity (filter P offers))) (foldl fadd a' (map o_Quantity (filter P' offers)))"
  using assms
proof (induction offers arbitrary: a a')
  case (Cons b offers)
  have q: "fle (Fin 0) (o_Quantity b)" using Cons.prems(5) by simp
  have up: "fle (fadd a (o_Quantity b)) (fadd a' (o_Quantity b))" using fadd_mono [OF Cons.prems(4,3) q] .
  have grow: "fle a (fadd a' (o_Quantity b))" using fle_trans [OF Cons.prems(4) fadd_grows] fle_trans Cons.prems q by blast
  have "fle (Fin 0) (fadd a (o_Quantity b))" using fadd_nonneg [OF Cons.prems(1,3) q] .
  then show ?case using Cons.IH [of "fadd a (o_Quantity b)" "fadd a' (o_Quantity b)"] Cons.IH [of a "fadd a' (o_Quantity b)"] Cons.IH [of a a']
      Cons.prems up grow by auto
qed simp

lemma curve_at_mono:
  assumes "\<forall>b\<in>set offers. fle (Fin 0) (o_Quantity b)" "\<forall>b\<in>set offers. k \<in> set (buckets b) \<longrightarrow> k' \<in> set (buckets b)"
  shows "fle (curve_at buckets offers slot k) (curve_at buckets offers slot k')"
  unfolding curve_at_def using assms by (intro sum_filter_mono) auto

lemma curve_at_ok:
  assumes "\<forall>b\<in>set offers. fle (Fin 0) (o_Quantity b)"
  shows "f64_ok (curve_at buckets offers slot k) \<and> fle (Fin 0) (curve_at buckets offers slot k)"
  unfolding curve_at_def using assms by (intro sum_nonneg_ok) auto

lemma supply_rises:
  assumes "\<forall>b\<in>set offers. fle (Fin 0) (o_Quantity b)" "k \<le> k'" "k' < NumBuckets g"
  shows "fle (curve_at (supply_buckets oob g) offers slot k) (curve_at (supply_buckets oob g) offers slot k')"
  using assms by (intro curve_at_mono) (auto simp: supply_buckets_def Let_def split: if_splits)

lemma demand_falls:
  assumes "\<forall>b\<in>set offers. fle (Fin 0) (o_Quantity b)" "0 \<le> k" "k \<le> k'"
  shows "fle (curve_at (demand_buckets oob g) offers slot k') (curve_at (demand_buckets oob g) offers slot k)"
  using assms by (intro curve_at_mono) (auto simp: demand_buckets_def Let_def split: if_splits)

section \<open>Sampling\<close>

lemma tickEpsilon_bounds: obtains e where "tickEpsilon = Fin e" "1 / 2 ^ 30 \<le> e" "e \<le> 1 / 2 ^ 29"
proof
  show "tickEpsilon = Fin (rnd (1 / 10 ^ 9))" by (simp add: tickEpsilon_def f64_of_rat_small)
  show "1 / 2 ^ 30 \<le> rnd (1 / 10 ^ 9)" using rnd_le_dyadic(2) [of 1 30 "1 / 10 ^ 9"] by simp
  show "rnd (1 / 10 ^ 9) \<le> 1 / 2 ^ 29" using rnd_le_dyadic(1) [of 1 "1 / 10 ^ 9" 29] by simp
qed

text \<open>The distance, in ticks, at which the tolerance no longer moves an offer across a bucket boundary.\<close>

abbreviation tick_margin :: rat where
  "tick_margin \<equiv> 1 / 2 ^ 28"

lemma int64_of_small: "\<bar>n\<bar> \<le> 2 ^ 53 \<Longrightarrow> int64_of oob (Fin (of_int n)) = n"
  by (auto simp: int64_of_def float_to_def abs_le_iff)

lemma rnd_abs_le:
  assumes "\<bar>x\<bar> \<le> of_int n" "n \<le> 2 ^ 53"
  shows "\<bar>rnd x\<bar> \<le> of_int n"
proof -
  have n: "0 \<le> (of_int n :: rat)" using assms(1) by linarith
  then show ?thesis using rnd_le_dyadic(1) [of n x 0] rnd_le_dyadic(2) [of "- n" 0 x] assms by (simp add: abs_le_iff)
qed

lemma rounded_int_abs:
  assumes "\<bar>x :: rat\<bar> \<le> 2 ^ 52 + 1"
  shows "\<bar>\<lceil>x\<rceil>\<bar> \<le> 2 ^ 53" "\<bar>\<lfloor>x\<rfloor>\<bar> \<le> 2 ^ 53"
proof -
  have x: "x \<le> of_int (2 ^ 52 + 1)" "of_int (- (2 ^ 52 + 1)) \<le> x" using assms by (simp_all add: abs_le_iff)
  have "\<lceil>x\<rceil> \<le> 2 ^ 52 + 1" "- (2 ^ 52 + 1) \<le> \<lfloor>x\<rfloor>" using x by (simp_all only: ceiling_le_iff le_floor_iff)
  then show "\<bar>\<lceil>x\<rceil>\<bar> \<le> 2 ^ 53" "\<bar>\<lfloor>x\<rfloor>\<bar> \<le> 2 ^ 53" 
    using floor_le_ceiling [of x] power_increasing [of 52 53 "2 :: int"] power_strict_increasing [of 52 53 "2 :: int"] unfolding abs_le_iff by linarith+
qed

lemma rounded_ticks:
  assumes "0 < t" "\<bar>p\<bar> \<le> 2 ^ 52 * t" "\<bar>d\<bar> \<le> 1"
  shows "fadd (fdiv (Fin p) (Fin t)) (Fin d) = Fin (rnd (rnd (p / t) + d))" "\<bar>rnd (p / t)\<bar> \<le> 2 ^ 52" "\<bar>rnd (rnd (p / t) + d)\<bar> \<le> 2 ^ 52 + 1"
proof -
  have q: "\<bar>p / t\<bar> \<le> 2 ^ 52" using assms(1,2) by (simp add: abs_divide divide_le_eq)
  then show r: "\<bar>rnd (p / t)\<bar> \<le> 2 ^ 52" using rnd_abs_le [of "p / t" "2 ^ 52"] by simp
  have "fdiv (Fin p) (Fin t) = f64_of_rat (p / t)" using assms(1) by simp
  also have "\<dots> = Fin (rnd (p / t))" by (rule f64_of_rat_small [OF order_trans [OF q]]) simp
  finally show "fadd (fdiv (Fin p) (Fin t)) (Fin d) = Fin (rnd (rnd (p / t) + d))"
    using r assms(3) f64_of_rat_small [of "rnd (p / t) + d"] by simp
  have "\<bar>rnd (p / t) + d\<bar> \<le> of_int (2 ^ 52 + 1)" using r assms(3) by simp
  then show "\<bar>rnd (rnd (p / t) + d)\<bar> \<le> 2 ^ 52 + 1" using rnd_abs_le [of "rnd (p / t) + d" "2 ^ 52 + 1"] by simp
qed

lemma rounded_above:
  assumes "0 < t" "0 \<le> k" "k < 2 ^ 24" "tickEpsilon = Fin e" "1 / 2 ^ 30 \<le> e" "e \<le> 1 / 2 ^ 29"
  shows "p \<le> t * of_int k \<Longrightarrow> rnd (rnd (p / t) - e) \<le> of_int k" "t * (of_int k + tick_margin) \<le> p \<Longrightarrow> of_int k < rnd (rnd (p / t) - e)"
proof -
  assume "p \<le> t * of_int k"
  then have "p / t \<le> of_int k" using assms(1) by (simp add: divide_le_eq mult.commute)
  then have "rnd (p / t) \<le> of_int k" using rnd_le_dyadic(1) [of k "p / t" 0] assms(2,3) by simp
  then have "rnd (p / t) - e \<le> of_int k" using order_trans [OF _ assms(5), of 0] by simp
  then show "rnd (rnd (p / t) - e) \<le> of_int k" using rnd_le_dyadic(1) [of k _ 0] assms(2,3) by simp
next
  assume "t * (of_int k + tick_margin) \<le> p"
  then have "of_int k + tick_margin \<le> p / t" using assms(1) by (simp add: le_divide_eq mult.commute)
  then have "of_int (k * 2 ^ 28 + 1) / 2 ^ 28 \<le> rnd (p / t)" using rnd_le_dyadic(2) [of "k * 2 ^ 28 + 1" 28 "p / t"] assms(2,3) by (simp add: field_simps)
  then have "of_int (k * 2 ^ 29 + 1) / 2 ^ 29 \<le> rnd (p / t) - e" using assms(6) by (simp add: field_simps)
  then have "of_int (k * 2 ^ 29 + 1) / 2 ^ 29 \<le> rnd (rnd (p / t) - e)" using rnd_le_dyadic(2) [of "k * 2 ^ 29 + 1" 29] assms(2,3) by simp
  then show "of_int k < rnd (rnd (p / t) - e)" by (simp add: field_simps)
qed

lemma rounded_below:
  assumes "0 < t" "0 \<le> k" "k < 2 ^ 24" "tickEpsilon = Fin e" "1 / 2 ^ 30 \<le> e" "e \<le> 1 / 2 ^ 29"
  shows "t * of_int k \<le> p \<Longrightarrow> of_int k \<le> rnd (rnd (p / t) + e)" "p \<le> t * (of_int k - tick_margin) \<Longrightarrow> rnd (rnd (p / t) + e) < of_int k"
proof -
  assume "t * of_int k \<le> p"
  then have "of_int k \<le> p / t" using assms(1) by (simp add: le_divide_eq mult.commute)
  then have "of_int k \<le> rnd (p / t)" using rnd_le_dyadic(2) [of k 0 "p / t"] assms(2,3) by simp
  then have "of_int k \<le> rnd (p / t) + e" using order_trans [OF _ assms(5), of 0] by simp
  then show "of_int k \<le> rnd (rnd (p / t) + e)" using rnd_le_dyadic(2) [of k 0] assms(2,3) by simp
next
  assume "p \<le> t * (of_int k - tick_margin)"
  then have "p / t \<le> of_int k - tick_margin" using assms(1) by (simp add: divide_le_eq mult.commute)
  then have "rnd (p / t) \<le> of_int (k * 2 ^ 28 - 1) / 2 ^ 28" using rnd_le_dyadic(1) [of "k * 2 ^ 28 - 1" "p / t" 28] assms(2,3) by (simp add: field_simps)
  then have "rnd (p / t) + e \<le> of_int (k * 2 ^ 29 - 1) / 2 ^ 29" using assms(6) by (simp add: field_simps)
  then have "rnd (rnd (p / t) + e) \<le> of_int (k * 2 ^ 29 - 1) / 2 ^ 29" using rnd_le_dyadic(1) [of "k * 2 ^ 29 - 1" _ 29] assms(2,3) by simp
  then show "rnd (rnd (p / t) + e) < of_int k" by (simp add: field_simps)
qed

definition clear_of :: "rat \<Rightarrow> int \<Rightarrow> offer \<Rightarrow> bool" where
  "clear_of t k b \<longleftrightarrow> \<bar>fval (o_PriceCt b)\<bar> \<le> 2 ^ 52 * t
     \<and> (fval (o_PriceCt b) = t * of_int k \<or> tick_margin * t \<le> \<bar>fval (o_PriceCt b) - t * of_int k\<bar>)"

lemma clear_of_cases:
  assumes "clear_of t k b" "is_fin (o_PriceCt b)"
  obtains p where "o_PriceCt b = Fin p" "\<bar>p\<bar> \<le> 2 ^ 52 * t"
    "p \<le> t * of_int k \<or> t * (of_int k + tick_margin) \<le> p" "t * of_int k \<le> p \<or> p \<le> t * (of_int k - tick_margin)"
proof -
  obtain p where p: "o_PriceCt b = Fin p" using assms(2) by (cases "o_PriceCt b") simp_all
  have "p = t * of_int k \<or> tick_margin * t \<le> \<bar>p - t * of_int k\<bar>" using assms(1) p by (simp add: clear_of_def)
  then have "p \<le> t * of_int k \<or> t * (of_int k + tick_margin) \<le> p" "t * of_int k \<le> p \<or> p \<le> t * (of_int k - tick_margin)"
    by (auto simp: algebra_simps abs_if split: if_splits)
  then show ?thesis using that p assms(1) by (simp add: clear_of_def)
qed

lemma supply_bucket_iff:
  assumes "TickCt g = Fin t" "0 < t" "in_grid g slot k" "k < 2 ^ 24" "clear_of t k b" "is_fin (o_PriceCt b)"
  shows "k \<in> set (supply_buckets oob g b) \<longleftrightarrow> fval (o_PriceCt b) \<le> t * of_int k"
proof -
  obtain p where p: "o_PriceCt b = Fin p" "\<bar>p\<bar> \<le> 2 ^ 52 * t" "p \<le> t * of_int k \<or> t * (of_int k + tick_margin) \<le> p"
    using clear_of_cases [OF assms(5,6)] by metis
  obtain e where e: "tickEpsilon = Fin e" "1 / 2 ^ 30 \<le> e" "e \<le> 1 / 2 ^ 29" using tickEpsilon_bounds .
  have k: "0 \<le> k" "k < NumBuckets g" using assms(3) by (simp_all add: in_grid_def)
  let ?x = "rnd (rnd (p / t) - e)"
  have d: "\<bar>- e\<bar> \<le> 1" using e(2,3) by (simp add: abs_le_iff)
  have x: "fsub (fdiv (Fin p) (Fin t)) tickEpsilon = Fin ?x" "\<bar>?x\<bar> \<le> 2 ^ 52 + 1"
    using rounded_ticks(1,3) [OF assms(2) p(2) d] by (simp_all add: fsub_def e(1) del: fdiv.simps)
  have "\<bar>\<lceil>?x\<rceil>\<bar> \<le> 2 ^ 53" using rounded_int_abs(1) [OF x(2)] .
  then have "k \<in> set (supply_buckets oob g b) \<longleftrightarrow> \<lceil>?x\<rceil> \<le> k"
    using k by (simp add: supply_buckets_def assms(1) p(1) x(1) int64_of_small Let_def del: fdiv.simps) linarith
  also have "\<dots> \<longleftrightarrow> ?x \<le> of_int k" by (rule ceiling_le_iff)
  also have "\<dots> \<longleftrightarrow> p \<le> t * of_int k" using rounded_above [OF assms(2) k(1) assms(4) e, of p] p(3) by force
  finally show ?thesis by (simp add: p(1))
qed

lemma demand_bucket_iff:
  assumes "TickCt g = Fin t" "0 < t" "in_grid g slot k" "k < 2 ^ 24" "clear_of t k b" "is_fin (o_PriceCt b)"
  shows "k \<in> set (demand_buckets oob g b) \<longleftrightarrow> t * of_int k \<le> fval (o_PriceCt b)"
proof -
  obtain p where p: "o_PriceCt b = Fin p" "\<bar>p\<bar> \<le> 2 ^ 52 * t" "t * of_int k \<le> p \<or> p \<le> t * (of_int k - tick_margin)"
    using clear_of_cases [OF assms(5,6)] by metis
  obtain e where e: "tickEpsilon = Fin e" "1 / 2 ^ 30 \<le> e" "e \<le> 1 / 2 ^ 29" using tickEpsilon_bounds .
  have k: "0 \<le> k" "k < NumBuckets g" using assms(3) by (simp_all add: in_grid_def)
  let ?x = "rnd (rnd (p / t) + e)"
  have d: "\<bar>e\<bar> \<le> 1" using e(2,3) by (simp add: abs_le_iff)
  have x: "fadd (fdiv (Fin p) (Fin t)) tickEpsilon = Fin ?x" "\<bar>?x\<bar> \<le> 2 ^ 52 + 1"
    using rounded_ticks(1,3) [OF assms(2) p(2) d] by (simp_all add: e(1) del: fdiv.simps)
  have "\<bar>\<lfloor>?x\<rfloor>\<bar> \<le> 2 ^ 53" using rounded_int_abs(2) [OF x(2)] .
  then have "k \<in> set (demand_buckets oob g b) \<longleftrightarrow> k \<le> \<lfloor>?x\<rfloor>"
    using k by (simp add: demand_buckets_def assms(1) p(1) x(1) int64_of_small Let_def del: fdiv.simps)
  also have "\<dots> \<longleftrightarrow> of_int k \<le> ?x" by (rule le_floor_iff)
  also have "\<dots> \<longleftrightarrow> t * of_int k \<le> p" using rounded_below [OF assms(2) k(1) assms(4) e, of p] p(3) by force
  finally show ?thesis by (simp add: p(1))
qed



end
