(* ===== verification/Pool_Clearing.thy ===== *)
theory Pool_Clearing
  imports Pool_Curves
begin

text \<open>
  The reference clearing of the pool (pkg/ares/pool/clearing.go): the first bucket above the guard where supply covers
  demand, and the rationing of the sellers there.
\<close>

section \<open>Clearing\<close>

definition NoClearing :: int where
  "NoClearing = - 1"

record slot_result =
  sr_Bucket :: int
  sr_PriceCt :: f64
  sr_Supply :: f64
  sr_SupplyPrev :: f64
  sr_Demand :: f64
  sr_Cleared :: f64
  sr_MarginalRatio :: f64
  sr_InframarginalRatio :: f64

definition no_result :: slot_result where
  "no_result = \<lparr>sr_Bucket = NoClearing, sr_PriceCt = Fin 0, sr_Supply = Fin 0, sr_SupplyPrev = Fin 0, sr_Demand = Fin 0, sr_Cleared = Fin 0,
     sr_MarginalRatio = Fin 0, sr_InframarginalRatio = Fin 0\<rparr>"

definition clip_unit :: "f64 \<Rightarrow> f64" where
  "clip_unit ratio = (let ratio0 = (if flt ratio (Fin 0) then Fin 0 else ratio) in if flt (Fin 1) ratio0 then Fin 1 else ratio0)"

definition inframarginal :: "f64 \<Rightarrow> f64 \<Rightarrow> f64" where
  "inframarginal cleared prev = (if flt cleared prev \<and> flt (Fin 0) prev then fdiv cleared prev else Fin 1)"

definition marginal :: "f64 \<Rightarrow> f64 \<Rightarrow> f64 \<Rightarrow> f64 \<Rightarrow> f64" where
  "marginal unset cleared prev supply =
     (let tranche = fsub supply prev in if flt (Fin 0) tranche then clip_unit (fdiv (fsub cleared prev) tranche) else unset)"

definition deriveAllocation :: "slot_result \<Rightarrow> slot_result" where
  "deriveAllocation res =
     (let cleared = (if flt (sr_Demand res) (sr_Supply res) then sr_Demand res else sr_Supply res)
      in if fle cleared (Fin 0) then no_result
         else res\<lparr>sr_Cleared := cleared, sr_InframarginalRatio := inframarginal cleared (sr_SupplyPrev res),
                sr_MarginalRatio := marginal (sr_MarginalRatio res) cleared (sr_SupplyPrev res) (sr_Supply res)\<rparr>)"

text \<open>The first element of a list that passes a test; the outer option is None when the test panics first.\<close>

fun first_where :: "(int \<Rightarrow> bool option) \<Rightarrow> int list \<Rightarrow> int option option" where
  "first_where test [] = Some None"
| "first_where test (k # ks) = (case test k of None \<Rightarrow> None | Some b \<Rightarrow> if b then Some (Some k) else first_where test ks)"

definition clearSlot :: "grid_spec \<Rightarrow> f64 list \<Rightarrow> f64 list \<Rightarrow> int \<Rightarrow> slot_result option" where
  "clearSlot g supply demand slot =
     (case first_where
             (\<lambda>k. case (at_index supply (Index g slot k), at_index demand (Index g slot k)) of
                (Some s, Some d) \<Rightarrow> Some (\<not> flt (fsub s d) (Fin 0))
              | _ \<Rightarrow> None) [1..NumBuckets g - 1] of
        None \<Rightarrow> None
      | Some None \<Rightarrow> Some no_result
      | Some (Some k) \<Rightarrow>
          (case at_index supply (Index g slot (k - 1)) of
             None \<Rightarrow> None
           | Some prev \<Rightarrow>
               Some (deriveAllocation (no_result\<lparr>sr_Bucket := k, sr_PriceCt := Price g k, sr_Supply := supply ! nat (Index g slot k),
                 sr_Demand := demand ! nat (Index g slot k), sr_SupplyPrev := prev\<rparr>))))"

definition ClearPlaintext :: "grid_spec \<Rightarrow> f64 list \<Rightarrow> f64 list \<Rightarrow> (pool_error + slot_result list) option" where
  "ClearPlaintext g supply demand =
     (case Validate_grid g of
        Some e \<Rightarrow> Some (Inl e)
      | None \<Rightarrow>
          if int (length supply) \<noteq> Len g then Some (Inl (SupplyLength (length supply) (Len g)))
          else if int (length demand) \<noteq> Len g then Some (Inl (DemandLength (length demand) (Len g)))
          else map_option Inr (those (map (clearSlot g supply demand) [0..NumSlots g - 1])))"

section \<open>The crossing\<close>

lemma first_where_spec:
  assumes "\<forall>k\<in>set ks. test k = Some (P k)" "sorted ks"
  shows "(first_where test ks = Some None \<and> (\<forall>k\<in>set ks. \<not> P k))
    \<or> (\<exists>k\<in>set ks. first_where test ks = Some (Some k) \<and> P k \<and> (\<forall>j\<in>set ks. j < k \<longrightarrow> \<not> P j))"
  using assms by (induction ks) auto

lemma those_map_total: "\<forall>x\<in>set xs. f x = Some (g x) \<Longrightarrow> those (map f xs) = Some (map g xs)"
  by (induction xs) auto

lemma rnd_unit: "0 \<le> x \<Longrightarrow> x \<le> 1 \<Longrightarrow> \<exists>r. f64_of_rat x = Fin r \<and> 0 \<le> r \<and> r \<le> 1"
  using rnd_le_dyadic(1) [of 1 x 0] rnd_nonneg [of x] by (simp add: f64_of_rat_small)

lemma clipped_unit: "x \<noteq> NaN \<Longrightarrow> \<exists>r. clip_unit x = Fin r \<and> 0 \<le> r \<and> r \<le> 1"
  by (cases x) (simp_all add: clip_unit_def Let_def)

lemma fsub_nonneg_fin:
  assumes "f64_ok (Fin a)" "f64_ok (Fin b)" "0 \<le> a" "0 \<le> b"
  shows "\<exists>r. fsub (Fin a) (Fin b) = Fin r"
proof -
  have r: "rnd (a - b) \<le> a" "- b \<le> rnd (a - b)"
    using rnd_between(2) [of a "a - b"] rnd_between(1) [of "- b" "a - b"] assms by (simp_all add: rnd_minus)
  have "\<bar>rnd (a - b)\<bar> \<le> \<bar>a\<bar> \<or> \<bar>rnd (a - b)\<bar> \<le> \<bar>b\<bar>" using r assms(3,4) by linarith
  then have "fits (rnd (a - b))" using fits_le assms(1,2) by auto
  then show ?thesis by (simp add: fsub_Fin f64_of_rat_def Let_def)
qed

lemma fdiv_not_NaN: "0 < b \<Longrightarrow> fdiv (Fin a) (Fin b) \<noteq> NaN"
  by simp

lemma allocation:
  assumes ok: "f64_ok (Fin s)" "f64_ok (Fin d)" "f64_ok (Fin p)" and le: "0 \<le> p" "p \<le> s" "0 < d" "d \<le> s"
    and res: "sr_Supply res = Fin s" "sr_Demand res = Fin d" "sr_SupplyPrev res = Fin p" "sr_MarginalRatio res = Fin 0"
  obtains a b where "deriveAllocation res = res\<lparr>sr_Cleared := Fin d, sr_InframarginalRatio := Fin a, sr_MarginalRatio := Fin b\<rparr>"
    "0 \<le> a" "a \<le> 1" "0 \<le> b" "b \<le> 1" "p \<le> d \<Longrightarrow> a = 1"
proof -
  have c: "(if flt (sr_Demand res) (sr_Supply res) then sr_Demand res else sr_Supply res) = Fin d" using le(4) by (auto simp: res)
  obtain t where t: "fsub (Fin s) (Fin p) = Fin t" using fsub_nonneg_fin [OF ok(1,3)] le by auto
  obtain m where m: "fsub (Fin d) (Fin p) = Fin m" using fsub_nonneg_fin [OF ok(2,3)] le by auto
  obtain b where b: "marginal (Fin 0) (Fin d) (Fin p) (Fin s) = Fin b" "0 \<le> b" "b \<le> 1"
    using clipped_unit [OF fdiv_not_NaN, of t m] by (cases "0 < t") (auto simp: marginal_def t m simp del: fdiv.simps)
  obtain a where a: "inframarginal (Fin d) (Fin p) = Fin a" "0 \<le> a" "a \<le> 1" "p \<le> d \<longrightarrow> a = 1"
    using rnd_unit [of "d / p"] le by (cases "d < p") (auto simp: inframarginal_def)
  have "deriveAllocation res = res\<lparr>sr_Cleared := Fin d, sr_InframarginalRatio := Fin a, sr_MarginalRatio := Fin b\<rparr>"
    unfolding deriveAllocation_def c Let_def using a(1) b(1) le(3) res by simp
  then show ?thesis using that a(2-4) b(2,3) by blast
qed

text \<open>The curves of one delivery slot, as exact numbers.\<close>

definition entry :: "grid_spec \<Rightarrow> f64 list \<Rightarrow> int \<Rightarrow> int \<Rightarrow> rat" where
  "entry g curve slot k = fval (curve ! nat (slot * NumBuckets g + k))"

definition cleared_at :: "grid_spec \<Rightarrow> f64 list \<Rightarrow> f64 list \<Rightarrow> int \<Rightarrow> int \<Rightarrow> slot_result \<Rightarrow> bool" where
  "cleared_at g supply demand slot k r \<longleftrightarrow>
     sr_Bucket r = k \<and> sr_PriceCt r = Price g k \<and> 1 \<le> k \<and> k < NumBuckets g
     \<and> sr_Supply r = Fin (entry g supply slot k) \<and> sr_Demand r = Fin (entry g demand slot k) \<and> sr_SupplyPrev r = Fin (entry g supply slot (k - 1))
     \<and> sr_Cleared r = Fin (entry g demand slot k) \<and> 0 < entry g demand slot k
     \<and> (\<forall>j\<in>{1..<k}. entry g supply slot j < entry g demand slot j) \<and> (\<forall>j\<in>{k..<NumBuckets g}. entry g demand slot j \<le> entry g supply slot j)
     \<and> fval (sr_InframarginalRatio r) \<in> {0..1} \<and> fval (sr_MarginalRatio r) \<in> {0..1}
     \<and> (entry g supply slot (k - 1) \<le> entry g demand slot k \<longrightarrow> sr_InframarginalRatio r = Fin 1)"

lemma clearSlot_spec:
  assumes g: "grid_ok g" "0 \<le> slot" "slot < NumSlots g" and len: "int (length supply) = Len g" "int (length demand) = Len g"
    and fin: "\<forall>k. in_grid g slot k \<longrightarrow> (\<exists>s d. supply ! nat (Index g slot k) = Fin s \<and> f64_ok (Fin s) \<and> 0 \<le> s \<and> demand ! nat (Index g slot k) = Fin d \<and> f64_ok (Fin d) \<and> 0 \<le> d)"
    and mono: "\<forall>j k. 0 \<le> j \<longrightarrow> j \<le> k \<longrightarrow> k < NumBuckets g \<longrightarrow> entry g supply slot j \<le> entry g supply slot k \<and> entry g demand slot k \<le> entry g demand slot j"
  shows "\<exists>r. clearSlot g supply demand slot = Some r
    \<and> (r = no_result \<and> (\<forall>k\<in>{1..<NumBuckets g}. entry g demand slot k \<le> entry g supply slot k \<longrightarrow> entry g demand slot k = 0)
       \<or> (\<exists>k. cleared_at g supply demand slot k r))"
proof -
  let ?S = "entry g supply slot" and ?D = "entry g demand slot"
  let ?t = "\<lambda>k. case (at_index supply (Index g slot k), at_index demand (Index g slot k)) of (Some s, Some d) \<Rightarrow> Some (\<not> flt (fsub s d) (Fin 0)) | _ \<Rightarrow> None"
  have cell: "in_grid g slot k" if "0 \<le> k" "k < NumBuckets g" for k using that g by (simp add: in_grid_def)
  have val: "at_index supply (Index g slot k) = Some (Fin (?S k))" "at_index demand (Index g slot k) = Some (Fin (?D k))"
    "f64_ok (Fin (?S k))" "f64_ok (Fin (?D k))" "0 \<le> ?S k" "0 \<le> ?D k" if "0 \<le> k" "k < NumBuckets g" for k
    using fin [rule_format, OF cell [OF that]] packed(1-3) [OF g(1) cell [OF that]] len by (auto simp: at_index_def entry_def)
  have t: "\<forall>k\<in>set [1..NumBuckets g - 1]. ?t k = Some (?D k \<le> ?S k)" using val fsub_lt0_iff by (auto simp: not_less)
  consider (none) "first_where ?t [1..NumBuckets g - 1] = Some None" "\<forall>k\<in>{1..<NumBuckets g}. ?S k < ?D k"
    | (some) k where "first_where ?t [1..NumBuckets g - 1] = Some (Some k)" "1 \<le> k" "k < NumBuckets g" "?D k \<le> ?S k" "\<forall>j\<in>{1..<k}. ?S j < ?D j"
    using first_where_spec [OF t sorted_upto] by (fastforce simp: not_le)
  then show ?thesis
  proof cases
    case none
    then show ?thesis unfolding clearSlot_def none(1) by fastforce
  next
    case some
    let ?res = "no_result\<lparr>sr_Bucket := k, sr_PriceCt := Price g k, sr_Supply := Fin (?S k), sr_Demand := Fin (?D k), sr_SupplyPrev := Fin (?S (k - 1))\<rparr>"
    have v: "supply ! nat (Index g slot k) = Fin (?S k)" "demand ! nat (Index g slot k) = Fin (?D k)" "at_index supply (Index g slot (k - 1)) = Some (Fin (?S (k - 1)))"
      using val [of k] val [of "k - 1"] some(2,3) by (auto simp: at_index_def split: if_splits)
    have c: "clearSlot g supply demand slot = Some (deriveAllocation ?res)" unfolding clearSlot_def some(1) by (simp add: v)
    have above: "\<forall>j\<in>{k..<NumBuckets g}. ?D j \<le> ?S j" using mono some(2,4) by (meson atLeastLessThan_iff dual_order.trans zero_le_one)
    show ?thesis
    proof (cases "?D k = 0")
      case True
      have "?D j = 0" if "j \<in> {1..<NumBuckets g}" "?D j \<le> ?S j" for j
        using that some(2,5) mono [rule_format, of k j] val(6) [of j] True by (cases "j < k") (auto simp: Ball_def not_le [symmetric])
      moreover have "deriveAllocation ?res = no_result" using True val(5) [of k] some(2,3) by (auto simp: deriveAllocation_def)
      ultimately show ?thesis using c by auto
    next
      case False
      then have d: "0 < ?D k" using val(6) [of k] some(2,3) by auto
      obtain a b where "deriveAllocation ?res = ?res\<lparr>sr_Cleared := Fin (?D k), sr_InframarginalRatio := Fin a, sr_MarginalRatio := Fin b\<rparr>"
        "0 \<le> a" "a \<le> 1" "0 \<le> b" "b \<le> 1" "?S (k - 1) \<le> ?D k \<Longrightarrow> a = 1"
        by (rule allocation [of "?S k" "?D k" "?S (k - 1)" ?res])
          (use val [of k] val [of "k - 1"] mono [rule_format, of "k - 1" k] d some(2-4) in \<open>auto simp: no_result_def simp del: f64_ok.simps\<close>)
      then have "cleared_at g supply demand slot k (deriveAllocation ?res)" using some(2,3,5) d above by (simp add: cleared_at_def)
      then show ?thesis using c by blast
    qed
  qed
qed

lemma encoded_curve:
  assumes "encode_curve B g offers = Some (Inr out)"
  shows "validateOffers g offers = None"
  using assms by (auto simp: encode_curve_def split: option.splits)

lemma encoded_cells:
  assumes "\<forall>x\<in>set out. is_fin x" "grid_ok g" "int (length out) = Len g" "\<forall>b\<in>set offers. fle (Fin 0) (o_Quantity b)"
    and spec: "\<forall>slot k. in_grid g slot k \<longrightarrow> out ! nat (Index g slot k) = curve_at B offers slot k" and cell: "in_grid g slot k"
  shows "curve_at B offers slot k = Fin (entry g out slot k) \<and> out ! nat (Index g slot k) = Fin (entry g out slot k)
    \<and> f64_ok (Fin (entry g out slot k)) \<and> 0 \<le> entry g out slot k"
proof -
  have "out ! nat (Index g slot k) \<in> set out" using packed(2,3) [OF assms(2) cell] assms(3) by (simp add: nat_less_iff)
  then obtain x where x: "out ! nat (Index g slot k) = Fin x" using assms(1) by (metis f64.exhaust is_fin.simps(2-4))
  then have "entry g out slot k = x" using packed(1) [OF assms(2) cell] by (simp add: entry_def)
  moreover have "f64_ok (Fin x)" "0 \<le> x" using curve_at_ok [OF assms(4), of B slot k] spec cell x by (metis fle_Fin)+
  ultimately show ?thesis using spec cell x by simp
qed

text \<open>C30. Clearing of encoded offers: for curves encoded from valid offers whose quantities are numbers and whose sums stay
  finite, every delivery slot is cleared. Either the slot clears at the unique crossing, the first bucket above the guard
  where supply covers demand: then exactly the demand there is dispatched, both rationing ratios lie between 0 and 1 and
  the cheaper sellers are rationed only if they alone oversupply. Or nothing is dispatched, and then in no bucket supply
  covers a demand other than zero.\<close>

theorem pool_clearing:
  assumes grid: "NumSlots g * NumBuckets g < 2 ^ 63" "0 \<le> slot" "slot < NumSlots g"
    and curves: "EncodeSupply oob g sells = Some (Inr supply)" "EncodeDemand oob g buys = Some (Inr demand)"
    and numbers: "\<forall>b\<in>set (sells @ buys). o_Quantity b \<noteq> NaN" "\<forall>x\<in>set (supply @ demand). is_fin x"
  shows "\<exists>out. ClearPlaintext g supply demand = Some (Inr out) \<and> length out = nat (NumSlots g)
    \<and> (out ! nat slot = no_result \<and> (\<forall>k\<in>{1..<NumBuckets g}. entry g demand slot k \<le> entry g supply slot k \<longrightarrow> entry g demand slot k = 0)
       \<or> (\<exists>k. cleared_at g supply demand slot k (out ! nat slot)))"
proof -
  note enc = curves [unfolded EncodeSupply_def EncodeDemand_def]
  have v: "validateOffers g sells = None" "validateOffers g buys = None" using encoded_curve enc by blast+
  have g: "grid_ok g" using validateOffersD [OF v(1)] grid(1) by (simp add: grid_ok_def)
  have q: "\<forall>b\<in>set sells. fle (Fin 0) (o_Quantity b)" "\<forall>b\<in>set buys. fle (Fin 0) (o_Quantity b)"
    using encoded_offers [OF v(1)] encoded_offers [OF v(2)] numbers(1) by (auto simp: not_flt_fle)
  have slots: "\<forall>b\<in>set sells. 0 \<le> o_Slot b \<and> o_Slot b < NumSlots g" "\<forall>b\<in>set buys. 0 \<le> o_Slot b \<and> o_Slot b < NumSlots g"
    using encoded_offers [OF v(1)] encoded_offers [OF v(2)] by blast+
  have S: "int (length supply) = Len g" "\<forall>slot k. in_grid g slot k \<longrightarrow> supply ! nat (Index g slot k) = curve_at (supply_buckets oob g) sells slot k"
    using sell.encode_curve_spec [OF g v(1) slots(1), of oob] enc(1) by auto
  have D: "int (length demand) = Len g" "\<forall>slot k. in_grid g slot k \<longrightarrow> demand ! nat (Index g slot k) = curve_at (demand_buckets oob g) buys slot k"
    using buy.encode_curve_spec [OF g v(2) slots(2), of oob] enc(2) by auto
  have fin: "\<forall>x\<in>set supply. is_fin x" "\<forall>x\<in>set demand. is_fin x" using numbers(2) by simp_all
  note cs = encoded_cells [OF fin(1) g S(1) q(1) S(2)] and cd = encoded_cells [OF fin(2) g D(1) q(2) D(2)]
  have cleared: "\<exists>r. clearSlot g supply demand sl = Some r
      \<and> (r = no_result \<and> (\<forall>k\<in>{1..<NumBuckets g}. entry g demand sl k \<le> entry g supply sl k \<longrightarrow> entry g demand sl k = 0)
         \<or> (\<exists>k. cleared_at g supply demand sl k r))" if sl: "0 \<le> sl" "sl < NumSlots g" for sl
  proof (rule clearSlot_spec [OF g sl S(1) D(1)])
    have cell: "in_grid g sl k" if "0 \<le> k" "k < NumBuckets g" for k using that sl by (simp add: in_grid_def)
    show "\<forall>j k. 0 \<le> j \<longrightarrow> j \<le> k \<longrightarrow> k < NumBuckets g \<longrightarrow> entry g supply sl j \<le> entry g supply sl k \<and> entry g demand sl k \<le> entry g demand sl j"
      using supply_rises [OF q(1), of _ _ g oob sl] demand_falls [OF q(2), of _ _ oob g sl] cs [OF cell] cd [OF cell] by (metis fle_Fin order.trans le_less_trans)
  qed (use cs cd in blast)
  define f where "f = (\<lambda>sl. the (clearSlot g supply demand sl))"
  have "\<forall>sl\<in>set [0..NumSlots g - 1]. clearSlot g supply demand sl = Some (f sl)" using cleared by (fastforce simp: f_def)
  then have "those (map (clearSlot g supply demand) [0..NumSlots g - 1]) = Some (map f [0..NumSlots g - 1])" by (rule those_map_total)
  then have "ClearPlaintext g supply demand = Some (Inr (map f [0..NumSlots g - 1]))"
    using g S(1) D(1) by (simp add: ClearPlaintext_def grid_ok_def)
  moreover have "map f [0..NumSlots g - 1] ! nat slot = f slot" using grid by (simp add: nth_upto)
  moreover have "clearSlot g supply demand slot = Some (f slot)" using cleared [OF grid(2,3)] by (auto simp: f_def)
  ultimately show ?thesis using cleared [OF grid(2,3)] grid by auto
qed

lemma demo_curves:
  "EncodeSupply (\<lambda>x. 0) \<lparr>TickCt = Fin 1, NumBuckets = 3, NumSlots = 1\<rparr> [\<lparr>o_Slot = 0, o_PriceCt = Fin 1, o_Quantity = Fin 5\<rparr>] = Some (Inr [Fin 0, Fin 5, Fin 5])"
  "EncodeDemand (\<lambda>x. 0) \<lparr>TickCt = Fin 1, NumBuckets = 3, NumSlots = 1\<rparr> [\<lparr>o_Slot = 0, o_PriceCt = Fin 2, o_Quantity = Fin 4\<rparr>] = Some (Inr [Fin 4, Fin 4, Fin 4])"
  by code_simp+

lemma pool_clearing_witness:
  "\<exists>supply demand out. EncodeSupply (\<lambda>x. 0) \<lparr>TickCt = Fin 1, NumBuckets = 3, NumSlots = 1\<rparr> [\<lparr>o_Slot = 0, o_PriceCt = Fin 1, o_Quantity = Fin 5\<rparr>] = Some (Inr supply)
     \<and> EncodeDemand (\<lambda>x. 0) \<lparr>TickCt = Fin 1, NumBuckets = 3, NumSlots = 1\<rparr> [\<lparr>o_Slot = 0, o_PriceCt = Fin 2, o_Quantity = Fin 4\<rparr>] = Some (Inr demand)
     \<and> ClearPlaintext \<lparr>TickCt = Fin 1, NumBuckets = 3, NumSlots = 1\<rparr> supply demand = Some (Inr out) \<and> sr_Bucket (out ! 0) = 1 \<and> sr_Cleared (out ! 0) = Fin 4"
proof -
  let ?g = "\<lparr>TickCt = Fin 1, NumBuckets = 3, NumSlots = 1\<rparr>" and ?s = "[Fin 0, Fin 5, Fin 5]" and ?d = "[Fin 4, Fin 4, Fin 4]"
  obtain out where out: "ClearPlaintext ?g ?s ?d = Some (Inr out)"
    "out ! 0 = no_result \<and> (\<forall>k\<in>{1..<3}. entry ?g ?d 0 k \<le> entry ?g ?s 0 k \<longrightarrow> entry ?g ?d 0 k = 0) \<or> (\<exists>k. cleared_at ?g ?s ?d 0 k (out ! 0))"
    using pool_clearing [OF _ _ _ demo_curves, of 0] by auto
  have e: "entry ?g ?d 0 1 = 4" "entry ?g ?s 0 1 = 5" by (simp_all add: entry_def)
  have "\<exists>k\<in>{1..<3}. entry ?g ?d 0 k \<le> entry ?g ?s 0 k \<and> entry ?g ?d 0 k \<noteq> 0" by (rule bexI [of _ 1]) (simp_all add: e)
  then obtain k where k: "cleared_at ?g ?s ?d 0 k (out ! 0)" using out(2) by blast
  then have below: "1 \<le> k" "\<forall>j\<in>{1..<k}. entry ?g ?s 0 j < entry ?g ?d 0 j" by (simp_all add: cleared_at_def)
  have "\<not> 1 < k"
  proof
    assume "1 < k"
    then have "1 \<in> {1..<k}" by simp
    with below(2) have "entry ?g ?s 0 1 < entry ?g ?d 0 1" by (rule bspec)
    then show False using e by simp
  qed
  with below(1) have "k = 1" by simp
  then show ?thesis using k out(1) demo_curves e by (auto simp: cleared_at_def)
qed

end
