(* ===== verification/Pool_Circuit.thy ===== *)
theory Pool_Circuit
  imports Pool_Clearing Helper_Client
begin

text \<open>
  The homomorphic clearing circuit of the pool (pkg/ares/pool/circuit_openfhe.go): the comparator polynomial, the circuit over
  a context handle (the interface of pkg/ares/crypto/fhecalib/calibrator.go), and the readout of the decrypted vectors.

  The operations of the handle run in the OpenFHE library; the record of functions stands for them, and what a theorem
  relies on is the slot-wise arithmetic the interface documents. \<open>pow\<close> stands for \<open>math.Pow\<close>, whose accuracy the language
  leaves to the platform.
\<close>

section \<open>The context handle\<close>

record context_handle =
  h_Params :: contract_params
  h_EvalMult :: "bytes \<Rightarrow> bytes \<Rightarrow> string + bytes"
  h_EvalSubConst :: "bytes \<Rightarrow> f64 list \<Rightarrow> string + bytes"
  h_EvalProductSum :: "bytes \<Rightarrow> bytes \<Rightarrow> int \<Rightarrow> string + bytes"
  h_EvalAdd :: "bytes \<Rightarrow> bytes \<Rightarrow> string + bytes"
  h_EvalSub :: "bytes \<Rightarrow> bytes \<Rightarrow> string + bytes"
  h_EvalPoly :: "bytes \<Rightarrow> f64 list \<Rightarrow> string + bytes"
  h_EvalMultConst :: "bytes \<Rightarrow> f64 \<Rightarrow> string + bytes"
  h_EvalAtIndex :: "bytes \<Rightarrow> int \<Rightarrow> string + bytes"
  h_Encrypt :: "f64 list \<Rightarrow> string + bytes"

section \<open>The comparator\<close>

definition tanhSeries :: "f64 list" where
  "tanhSeries = map f64_of_rat [1, - 1 / 3, 2 / 15, - 17 / 315, 62 / 2835, - 1382 / 155925, 21844 / 6081075]"

fun fill_odd :: "(f64 \<Rightarrow> f64 \<Rightarrow> f64) \<Rightarrow> int \<Rightarrow> f64 \<Rightarrow> int \<Rightarrow> f64 list \<Rightarrow> f64 list \<Rightarrow> f64 list" where
  "fill_odd pow degree half i [] coeffs = coeffs"
| "fill_odd pow degree half i (tc # series) coeffs =
     (let d = 2 * i + 1
      in if d > degree then coeffs
         else fill_odd pow degree half (i + 1) series (coeffs[nat d := fmul (fmul (Fin (1 / 2)) tc) (pow half (f64_int d))]))"

definition LogisticCoeffs :: "(f64 \<Rightarrow> f64 \<Rightarrow> f64) \<Rightarrow> int \<Rightarrow> f64 \<Rightarrow> f64 list" where
  "LogisticCoeffs pow degree gain =
     (let degree = (if degree < 1 then 1 else degree)
      in fill_odd pow degree (fdiv gain (Fin 2)) 0 tanhSeries ((replicate (nat (degree + 1)) (Fin 0))[0 := Fin (1 / 2)]))"

definition evalPolyAt :: "f64 list \<Rightarrow> f64 \<Rightarrow> f64" where
  "evalPolyAt coeffs x = foldr (\<lambda>c acc. fadd (fmul acc x) c) coeffs (Fin 0)"

section \<open>The circuit\<close>

record clearing_inputs =
  in_Supply :: bytes
  in_Demand :: bytes

record clearing_outputs =
  out_Step :: bytes
  out_OneHot :: bytes
  out_SupplyAt :: bytes
  out_SupplyPrevAt :: bytes
  out_DemandAt :: bytes

datatype circuit_error = BadGrid pool_error | MissingCurves | MissingCoeffs | BadScale f64 | OpFailed string string | MaskPanics | WrongInputs nat

definition op :: "string \<Rightarrow> string + bytes \<Rightarrow> circuit_error + bytes" where
  "op label x = (case x of Inl e \<Rightarrow> Inl (OpFailed label e) | Inr ct \<Rightarrow> Inr ct)"

definition clearing_checks :: "grid_spec \<Rightarrow> clearing_inputs \<Rightarrow> f64 list \<Rightarrow> f64 \<Rightarrow> circuit_error option" where
  "clearing_checks g inp coeffs scale =
     (case Validate_grid g of
        Some e \<Rightarrow> Some (BadGrid e)
      | None \<Rightarrow>
          if in_Supply inp = [] \<or> in_Demand inp = [] then Some MissingCurves
          else if coeffs = [] then Some MissingCoeffs
          else if \<not> flt (Fin 0) scale then Some (BadScale scale)
          else None)"

definition EvalClearing ::
  "context_handle \<Rightarrow> grid_spec \<Rightarrow> clearing_inputs \<Rightarrow> f64 list \<Rightarrow> f64 \<Rightarrow> circuit_error + clearing_outputs" where
  "EvalClearing h g inp coeffs scale =
     (case clearing_checks g inp coeffs scale of
        Some e \<Rightarrow> Inl e
      | None \<Rightarrow>
          and_then (op ''excess supply'' (h_EvalSub h (in_Supply inp) (in_Demand inp))) (\<lambda>excess.
          and_then (op ''range control'' (h_EvalMultConst h excess (fdiv (Fin 1) scale))) (\<lambda>normalized.
          and_then (op ''comparator'' (h_EvalPoly h normalized coeffs)) (\<lambda>step.
          and_then (op ''price-axis shift'' (h_EvalAtIndex h step (- 1))) (\<lambda>prev.
          and_then (op ''one-hot'' (h_EvalSub h step prev)) (\<lambda>diff.
          and_then (case SlotBoundaryMask g of None \<Rightarrow> Inl MaskPanics | Some boundary \<Rightarrow> Inr boundary) (\<lambda>boundary.
          and_then (op ''encrypt boundary mask'' (h_Encrypt h boundary)) (\<lambda>ctMask.
          and_then (op ''apply boundary mask'' (h_EvalMult h diff ctMask)) (\<lambda>oneHot.
          and_then (op ''shift supply'' (h_EvalAtIndex h (in_Supply inp) (- 1))) (\<lambda>supplyPrev.
          and_then (op ''mask supply'' (h_EvalMult h oneHot (in_Supply inp))) (\<lambda>supplyAt.
          and_then (op ''mask supply-prev'' (h_EvalMult h oneHot supplyPrev)) (\<lambda>supplyPrevAt.
          and_then (op ''mask demand'' (h_EvalMult h oneHot (in_Demand inp))) (\<lambda>demandAt.
          Inr \<lparr>out_Step = step, out_OneHot = oneHot, out_SupplyAt = supplyAt, out_SupplyPrevAt = supplyPrevAt, out_DemandAt = demandAt\<rparr>)))))))))))))"

section \<open>The readout\<close>

definition oneHotThreshold :: f64 where
  "oneHotThreshold = f64_of_rat (1 / 100)"

definition crossing_level :: f64 where
  "crossing_level = f64_of_rat (1 / 2 - 1 / 1000)"

definition crossing_of :: "grid_spec \<Rightarrow> f64 list \<Rightarrow> int \<Rightarrow> int option" where
  "crossing_of g step slot =
     map_option (\<lambda>found. case found of None \<Rightarrow> NoClearing | Some k \<Rightarrow> k)
       (first_where (\<lambda>k. map_option (fle crossing_level) (at_index step (Index g slot k))) [1..NumBuckets g - 1])"

text \<open>\<open>make\<close> with a negative length panics.\<close>

definition over_delivery_slots :: "grid_spec \<Rightarrow> (int \<Rightarrow> 'a option) \<Rightarrow> 'a list option" where
  "over_delivery_slots g f = (if NumSlots g < 0 then None else those (map f [0..NumSlots g - 1]))"

definition DecodeCrossing :: "grid_spec \<Rightarrow> f64 list \<Rightarrow> int list option" where
  "DecodeCrossing g step = over_delivery_slots g (crossing_of g step)"

definition tallest :: "grid_spec \<Rightarrow> f64 list \<Rightarrow> int \<Rightarrow> int option" where
  "tallest g oneHot slot =
     map_option fst
       (foldl (\<lambda>acc k. case (acc, at_index oneHot (Index g slot k)) of
                 (Some (best, bestVal), Some v) \<Rightarrow> Some (if flt bestVal v then (k, v) else (best, bestVal))
               | _ \<Rightarrow> None)
          (Some (NoClearing, oneHotThreshold)) [1..NumBuckets g - 1])"

definition DecodeOneHot :: "grid_spec \<Rightarrow> f64 list \<Rightarrow> int list option" where
  "DecodeOneHot g oneHot = over_delivery_slots g (tallest g oneHot)"

definition decode_slot ::
  "grid_spec \<Rightarrow> f64 list \<Rightarrow> f64 list \<Rightarrow> f64 list \<Rightarrow> f64 list \<Rightarrow> int \<times> int \<Rightarrow> slot_result option" where
  "decode_slot g oneHot supplyAt supplyPrevAt demandAt = (\<lambda>(slot, k).
     if k = NoClearing then Some no_result
     else let idx = Index g slot k
          in case at_index oneHot idx of
               None \<Rightarrow> None
             | Some m \<Rightarrow>
                 if flt m oneHotThreshold then Some (no_result\<lparr>sr_Bucket := k, sr_PriceCt := Price g k\<rparr>)
                 else (case (at_index supplyAt idx, at_index supplyPrevAt idx, at_index demandAt idx) of
                         (Some s, Some p, Some d) \<Rightarrow>
                           (let res = deriveAllocation (no_result\<lparr>sr_Bucket := k, sr_PriceCt := Price g k, sr_Supply := fdiv s m,
                                  sr_SupplyPrev := fdiv p m, sr_Demand := fdiv d m\<rparr>)
                            in Some (if sr_Bucket res \<noteq> NoClearing then res\<lparr>sr_Bucket := k, sr_PriceCt := Price g k\<rparr> else res))
                       | _ \<Rightarrow> None))"

definition DecodeClearing ::
  "grid_spec \<Rightarrow> f64 list \<Rightarrow> f64 list \<Rightarrow> f64 list \<Rightarrow> f64 list \<Rightarrow> f64 list \<Rightarrow> slot_result list option" where
  "DecodeClearing g step oneHot supplyAt supplyPrevAt demandAt =
     (case DecodeCrossing g step of
        None \<Rightarrow> None
      | Some buckets \<Rightarrow> those (map (decode_slot g oneHot supplyAt supplyPrevAt demandAt) (zip [0..NumSlots g - 1] buckets)))"

definition PinnedDepth :: int where
  "PinnedDepth = 7"

section \<open>The circuit under calibration\<close>

record clearing_circuit =
  cc_Grid :: grid_spec
  cc_Supply :: "f64 list"
  cc_Demand :: "f64 list"
  cc_Coeffs :: "f64 list"
  cc_Scale :: f64

definition clearing_Inputs :: "clearing_circuit \<Rightarrow> f64 list list" where
  "clearing_Inputs c = [cc_Supply c, cc_Demand c]"

definition expected_cell :: "clearing_circuit \<Rightarrow> f64 list \<Rightarrow> f64 list \<Rightarrow> f64 list \<Rightarrow> int \<Rightarrow> int \<Rightarrow> f64 option" where
  "expected_cell c supply step boundary slot k =
     (let idx = Index (cc_Grid c) slot k
      in case (at_index step idx, if k > 0 then at_index step (idx - 1) else Some (Fin 0), at_index boundary idx, at_index supply idx) of
           (Some s, Some prev, Some m, Some x) \<Rightarrow> Some (fmul (fmul (fsub s prev) m) x)
         | _ \<Rightarrow> None)"

fun fill_cells :: "(int \<times> f64 option) list \<Rightarrow> f64 list \<Rightarrow> f64 list option" where
  "fill_cells [] out = Some out"
| "fill_cells ((i, v) # cells) out =
     (case v of None \<Rightarrow> None | Some x \<Rightarrow> if 0 \<le> i \<and> i < int (length out) then fill_cells cells (out[nat i := x]) else None)"

definition clearing_Expected :: "clearing_circuit \<Rightarrow> f64 list \<Rightarrow> f64 list \<Rightarrow> f64 list option" where
  "clearing_Expected c supply demand =
     (if Len (cc_Grid c) < 0 \<or> int (length supply) < Len (cc_Grid c) \<or> int (length demand) < Len (cc_Grid c) then None
      else let step = map (\<lambda>i. evalPolyAt (cc_Coeffs c) (fdiv (fsub (supply ! i) (demand ! i)) (cc_Scale c))) [0..<nat (Len (cc_Grid c))]
           in case SlotBoundaryMask (cc_Grid c) of
                None \<Rightarrow> None
              | Some boundary \<Rightarrow>
                  fill_cells (concat (map (\<lambda>slot. map (\<lambda>k. (Index (cc_Grid c) slot k, expected_cell c supply step boundary slot k)) [0..NumBuckets (cc_Grid c) - 1])
                    [0..NumSlots (cc_Grid c) - 1])) (replicate (nat (Len (cc_Grid c))) (Fin 0)))"

definition clearing_Eval :: "clearing_circuit \<Rightarrow> context_handle \<Rightarrow> bytes list \<Rightarrow> circuit_error + bytes" where
  "clearing_Eval c h encInputs =
     (if length encInputs \<noteq> 2 then Inl (WrongInputs (length encInputs))
      else and_then (EvalClearing h (cc_Grid c) \<lparr>in_Supply = encInputs ! 0, in_Demand = encInputs ! 1\<rparr> (cc_Coeffs c) (cc_Scale c))
             (\<lambda>out. Inr (out_SupplyAt out)))"

end
