(* ===== verification/Calibration.thy ===== *)
theory Calibration
  imports Pool_Circuit "HOL-Library.Word"
begin

text \<open>
  Depth calibration (pkg/ares/crypto/fhecalib): the worst-slot error, the modulus budget, the sweep over depths and the
  reference circuit; and the slot encoding of the BFV circuits (pkg/ares/crypto/bfv/encoding.go).

  A depth is a 32-bit word: the loop of the sweep increments it, and a sweep up to the largest word wraps around. The
  sweep is a partial function whose None is that it never returns.
\<close>

section \<open>The error of a run\<close>

fun math_Abs :: "f64 \<Rightarrow> f64" where
  "math_Abs (Fin r) = Fin \<bar>r\<bar>"
| "math_Abs NInf = PInf"
| "math_Abs x = x"

definition maxSlotAbsError :: "f64 list \<Rightarrow> f64 list \<Rightarrow> f64" where
  "maxSlotAbsError got want = foldl (\<lambda>worst (g, w). let d = math_Abs (fsub g w) in if flt worst d then d else worst) (Fin 0) (zip got want)"

section \<open>The sweep\<close>

record calibration_params =
  ca_Base :: contract_params
  ca_StartDepth :: "32 word"
  ca_MaxDepth :: "32 word"
  ca_Tolerance :: f64

record calibration_result =
  cr_Circuit :: string
  cr_Depth :: "32 word"
  cr_ScalingModSize :: int
  cr_RingDim :: int
  cr_AchievedAbsError :: f64
  cr_Passed :: bool

datatype sweep_error = RunFailed "32 word" string | ErrModulusCap "32 word"

type_synonym run_at_depth = "32 word \<Rightarrow> f64 \<times> bool \<times> string option"

partial_function (option) sweep_from ::
  "calibration_params \<Rightarrow> run_at_depth \<Rightarrow> 32 word \<Rightarrow> calibration_result \<Rightarrow> (calibration_result \<times> sweep_error option) option" where
  "sweep_from p run depth res =
     (if depth \<le> ca_MaxDepth p
      then case run depth of (absErr, capHit, err) \<Rightarrow>
        (case err of
           Some e \<Rightarrow> Some (res, Some (RunFailed depth e))
         | None \<Rightarrow>
             if capHit then Some (res, Some (ErrModulusCap depth))
             else let res1 = (if flt absErr (cr_AchievedAbsError res) then res\<lparr>cr_AchievedAbsError := absErr\<rparr> else res)
                  in if fle absErr (ca_Tolerance p) then Some (res1\<lparr>cr_Depth := depth, cr_Passed := True\<rparr>, None)
                     else sweep_from p run (depth + 1) res1)
      else Some (res, None))"

declare sweep_from.simps [code]

definition sweep :: "calibration_params \<Rightarrow> run_at_depth \<Rightarrow> (calibration_result \<times> sweep_error option) option" where
  "sweep p run = sweep_from p run (ca_StartDepth p)
     \<lparr>cr_Circuit = [], cr_Depth = 0, cr_ScalingModSize = cp_ScalingModSize (ca_Base p), cr_RingDim = cp_RingDim (ca_Base p),
      cr_AchievedAbsError = PInf, cr_Passed = False\<rparr>"

section \<open>The modulus budget\<close>

definition ckksFirstModSize :: "64 word" where
  "ckksFirstModSize = 60"

definition maxLog2Q :: "32 word \<Rightarrow> 64 word" where
  "maxLog2Q ringDim = ucast ringDim * 1761 div 65536"

definition exceedsModulusBudget :: "32 word \<Rightarrow> 32 word \<Rightarrow> int \<Rightarrow> bool" where
  "exceedsModulusBudget ringDim depth scalingModSize =
     (if ringDim = 0 \<or> scalingModSize = 0 then False
      else maxLog2Q ringDim < ckksFirstModSize + ucast depth * word_of_int scalingModSize)"

section \<open>The reference circuit\<close>

definition square_Expected :: "f64 list list \<Rightarrow> f64 list option" where
  "square_Expected inputs = (case inputs of [] \<Rightarrow> None | v # _ \<Rightarrow> Some (map (\<lambda>x. fmul x x) v))"

definition square_Eval :: "context_handle \<Rightarrow> bytes list \<Rightarrow> (string + bytes) option" where
  "square_Eval h encInputs = (case encInputs of [] \<Rightarrow> None | ct # _ \<Rightarrow> Some (h_EvalMult h ct ct))"

section \<open>Slots of a BFV circuit\<close>

text \<open>\<open>math.Round\<close> rounds halves away from zero.\<close>

fun math_Round :: "f64 \<Rightarrow> f64" where
  "math_Round (Fin r) = Fin (if 0 \<le> r then of_int \<lfloor>r + 1 / 2\<rfloor> else - of_int \<lfloor>- r + 1 / 2\<rfloor>)"
| "math_Round x = x"

definition QuantizeSigned :: "(f64 \<Rightarrow> int) \<Rightarrow> f64 list \<Rightarrow> int \<Rightarrow> int list" where
  "QuantizeSigned oob values scale =
     (if scale \<le> 0 then replicate (length values) 0
      else map (\<lambda>v. let q = int64_of oob (math_Round (fmul v (f64_int scale)));
                       q1 = (if q < - scale then - scale else q)
                   in if scale < q1 then scale else q1) values)"

definition PayloadBytesToSlots :: "bytes \<Rightarrow> int \<Rightarrow> int list option" where
  "PayloadBytesToSlots payload slotCount =
     (if slotCount < 0 then None
      else let n = nat slotCount; bs = take n payload in Some (map of_char bs @ replicate (n - length bs) 0))"

datatype slot_error = NegativeLength | LengthExceeds int nat | OutsideByte nat int

fun bytes_from :: "nat \<Rightarrow> int list \<Rightarrow> slot_error + bytes" where
  "bytes_from i [] = Inr []"
| "bytes_from i (s # slots) =
     (if s < 0 \<or> 255 < s then Inl (OutsideByte i s) else and_then (bytes_from (Suc i) slots) (\<lambda>bs. Inr (char_of (nat s) # bs)))"

definition SlotsToPayloadBytes :: "int list \<Rightarrow> int \<Rightarrow> slot_error + bytes" where
  "SlotsToPayloadBytes slots payloadLen =
     (if payloadLen < 0 then Inl NegativeLength
      else if int (length slots) < payloadLen then Inl (LengthExceeds payloadLen (length slots))
      else bytes_from 0 (take (nat payloadLen) slots))"

section \<open>What the sweep finds\<close>

definition missed :: "calibration_params \<Rightarrow> run_at_depth \<Rightarrow> 32 word \<Rightarrow> bool" where
  "missed p run d \<longleftrightarrow> (\<exists>e. run d = (e, False, None) \<and> \<not> fle e (ca_Tolerance p))"

definition first_pass :: "calibration_params \<Rightarrow> run_at_depth \<Rightarrow> 32 word \<Rightarrow> 32 word \<Rightarrow> bool" where
  "first_pass p run start d \<longleftrightarrow> start \<le> d \<and> d \<le> ca_MaxDepth p \<and> (\<exists>e. run d = (e, False, None) \<and> fle e (ca_Tolerance p))
     \<and> (\<forall>j. start \<le> j \<longrightarrow> j < d \<longrightarrow> missed p run j)"

definition all_missed :: "calibration_params \<Rightarrow> run_at_depth \<Rightarrow> 32 word \<Rightarrow> bool" where
  "all_missed p run start \<longleftrightarrow> (\<forall>d. start \<le> d \<longrightarrow> d \<le> ca_MaxDepth p \<longrightarrow> missed p run d)"

lemma word_step:
  fixes d :: "32 word"
  assumes "d < - 1"
  shows "2 ^ 32 - unat (d + 1) < 2 ^ 32 - unat d" "d < d + 1" "d \<le> j \<Longrightarrow> j = d \<or> d + 1 \<le> j"
proof -
  have "d + 1 \<noteq> 0" using assms by (metis add_eq_0_iff2 less_irrefl)
  then have "unat (d + 1) = Suc (unat d)" using unatSuc [of d] by (simp add: add.commute)
  moreover have "unat d < 2 ^ 32" using unsigned_less [of d, where ?'a = nat] by simp
  ultimately show "2 ^ 32 - unat (d + 1) < 2 ^ 32 - unat d" "d < d + 1" by (simp_all add: word_less_nat_alt)
  show "d \<le> j \<Longrightarrow> j = d \<or> d + 1 \<le> j" using inc_le [of d j] by (metis order_le_less)
qed

lemma missed_step:
  assumes "d < - 1" "missed p run d"
  shows "first_pass p run (d + 1) j \<Longrightarrow> first_pass p run d j" "all_missed p run (d + 1) \<Longrightarrow> all_missed p run d"
proof -
  note w = word_step(2,3) [OF assms(1)]
  have all: "missed p run i" if "\<forall>i. d + 1 \<le> i \<longrightarrow> P i \<longrightarrow> missed p run i" "d \<le> i" "P i" for P i using w(2) [OF that(2)] that assms(2) by blast
  show "first_pass p run d j" if "first_pass p run (d + 1) j"
    unfolding first_pass_def using that [unfolded first_pass_def] all [of "\<lambda>i. i < j"] w(1) by auto
  show "all_missed p run d" if "all_missed p run (d + 1)"
    unfolding all_missed_def using that [unfolded all_missed_def] all [of "\<lambda>i. i \<le> ca_MaxDepth p"] by blast
qed

lemma sweep_from_returns:
  assumes "ca_MaxDepth p < - 1" "\<not> cr_Passed res"
  shows "\<exists>res' err. sweep_from p run depth res = Some (res', err)
    \<and> (err = None \<longrightarrow> (if cr_Passed res' then first_pass p run depth (cr_Depth res') else all_missed p run depth))"
  using assms(2)
proof (induction "2 ^ 32 - unat depth" arbitrary: depth res rule: less_induct)
  case less
  show ?case
  proof (cases "depth \<le> ca_MaxDepth p")
    case False
    then have "all_missed p run depth" by (auto simp: all_missed_def)
    moreover have "sweep_from p run depth res = Some (res, None)" using False by (subst sweep_from.simps) simp
    ultimately show ?thesis using less.prems by simp
  next
    case le: True
    obtain e cap err where r: "run depth = (e, cap, err)" by (cases "run depth")
    let ?res1 = "if flt e (cr_AchievedAbsError res) then res\<lparr>cr_AchievedAbsError := e\<rparr> else res"
    have lt: "depth < - 1" using le assms(1) by simp
    consider "err = None" "\<not> cap" "\<not> fle e (ca_Tolerance p)" | "err = None" "\<not> cap" "fle e (ca_Tolerance p)" | "err \<noteq> None \<or> cap" by blast
    then show ?thesis
    proof cases
      case 1
      then have m: "missed p run depth" using r by (simp add: missed_def)
      have "sweep_from p run depth res = sweep_from p run (depth + 1) ?res1" using le r 1 by (subst sweep_from.simps) (simp add: Let_def)
      moreover have "\<not> cr_Passed ?res1" using less.prems by simp
      ultimately show ?thesis using less.hyps [OF word_step(1) [OF lt], of ?res1] missed_step [OF lt m] by (metis (no_types, lifting))
    next
      case 2
      then have "sweep_from p run depth res = Some (?res1\<lparr>cr_Depth := depth, cr_Passed := True\<rparr>, None)" using le r by (subst sweep_from.simps) (simp add: Let_def)
      moreover have "first_pass p run depth depth" using 2 r le by (auto simp: first_pass_def)
      ultimately show ?thesis by simp
    next
      case 3
      then show ?thesis using le r by (subst sweep_from.simps) (auto split: option.splits)
    qed
  qed
qed

lemma sweep_from_stuck:
  assumes "sweep_from p run depth res = Some y"
  shows "\<not> (ca_MaxDepth p = - 1 \<and> (\<forall>d. missed p run d))"
proof (rule sweep_from.raw_induct [where P = "\<lambda>p run _ _ _. \<not> (ca_MaxDepth p = - 1 \<and> (\<forall>d. missed p run d))", OF _ assms])
  fix f p run d r and y :: "calibration_result \<times> sweep_error option"
  assume ih: "\<And>p run d r y. f p run d r = Some y \<Longrightarrow> \<not> (ca_MaxDepth p = - 1 \<and> (\<forall>d. missed p run d))"
    and eq: "(if d \<le> ca_MaxDepth p
      then case run d of (absErr, capHit, err) \<Rightarrow>
        (case err of
           Some e \<Rightarrow> Some (r, Some (RunFailed d e))
         | None \<Rightarrow>
             if capHit then Some (r, Some (ErrModulusCap d))
             else let res1 = (if flt absErr (cr_AchievedAbsError r) then r\<lparr>cr_AchievedAbsError := absErr\<rparr> else r)
                  in if fle absErr (ca_Tolerance p) then Some (res1\<lparr>cr_Depth := d, cr_Passed := True\<rparr>, None)
                     else f p run (d + 1) res1)
      else Some (r, None)) = Some y"
  show "\<not> (ca_MaxDepth p = - 1 \<and> (\<forall>d. missed p run d))"
  proof
    assume a: "ca_MaxDepth p = - 1 \<and> (\<forall>d. missed p run d)"
    then obtain e where "run d = (e, False, None)" "\<not> fle e (ca_Tolerance p)" unfolding missed_def by blast
    then obtain r' where "f p run (d + 1) r' = Some y" using eq a by (auto simp: Let_def split: if_splits)
    then show False using ih a by blast
  qed
qed

text \<open>C36. The depth sweep. Below the largest 32-bit depth it always returns; without an error it has either passed at the first depth
  whose run is within the tolerance, every earlier depth having run and missed it, or every depth up to the maximum has
  missed it. With the largest 32-bit depth as maximum, a circuit that never comes within the tolerance keeps it running for
  ever.\<close>

theorem sweep_first_depth:
  assumes "ca_MaxDepth p < - 1"
  shows "(\<exists>res err. sweep p run = Some (res, err)
      \<and> (err = None \<longrightarrow> (if cr_Passed res then first_pass p run (ca_StartDepth p) (cr_Depth res) else all_missed p run (ca_StartDepth p))))
    \<and> ((\<forall>d. missed p run d) \<longrightarrow> sweep (p\<lparr>ca_MaxDepth := - 1\<rparr>) run = None)"
proof -
  have "sweep (p\<lparr>ca_MaxDepth := - 1\<rparr>) run = None" if "\<forall>d. missed p run d"
  proof (rule ccontr)
    assume "sweep (p\<lparr>ca_MaxDepth := - 1\<rparr>) run \<noteq> None"
    then obtain y where "sweep (p\<lparr>ca_MaxDepth := - 1\<rparr>) run = Some y" by blast
    moreover have "\<forall>d. missed (p\<lparr>ca_MaxDepth := - 1\<rparr>) run d" using that by (simp add: missed_def)
    ultimately show False unfolding sweep_def using sweep_from_stuck by fastforce
  qed
  then show ?thesis unfolding sweep_def using sweep_from_returns [OF assms] by simp
qed

definition demo_sweep :: calibration_params where
  "demo_sweep = \<lparr>ca_Base = no_contract, ca_StartDepth = 1, ca_MaxDepth = 9, ca_Tolerance = Fin 1\<rparr>"

lemma sweep_first_depth_witness:
  "(\<exists>res. sweep demo_sweep (\<lambda>d. (if 3 \<le> d then Fin 0 else Fin 2, False, None)) = Some (res, None) \<and> cr_Depth res = 3)
   \<and> sweep (demo_sweep\<lparr>ca_MaxDepth := - 1\<rparr>) (\<lambda>d. (Fin 2, False, None)) = None"
proof -
  let ?run = "\<lambda>d :: 32 word. (if 3 \<le> d then Fin 0 else Fin 2, False, None :: string option)"
  have max: "ca_MaxDepth demo_sweep < - 1" by code_simp
  have s: "sweep demo_sweep ?run = Some (\<lparr>cr_Circuit = [], cr_Depth = 3, cr_ScalingModSize = 0, cr_RingDim = 0, cr_AchievedAbsError = Fin 0, cr_Passed = True\<rparr>, None)"
    by code_simp
  obtain res err where "sweep demo_sweep ?run = Some (res, err)" using sweep_first_depth [OF max, of ?run] by blast
  then have "\<exists>res. sweep demo_sweep ?run = Some (res, None) \<and> cr_Depth res = 3" using s by auto
  moreover have "sweep (demo_sweep\<lparr>ca_MaxDepth := - 1\<rparr>) (\<lambda>d. (Fin 2, False, None)) = None"
    using sweep_first_depth [OF max, of "\<lambda>d. (Fin 2, False, None)"] by (simp add: missed_def demo_sweep_def)
  ultimately show ?thesis by blast
qed

section \<open>What the other functions promise\<close>

text \<open>A slot that decrypts to NaN counts as no error at all.\<close>

lemma nan_error: "maxSlotAbsError [NaN] [Fin x] = Fin 0"
  by (simp add: maxSlotAbsError_def fsub_def Let_def)

lemma QuantizeSigned_range: "0 < scale \<Longrightarrow> q \<in> set (QuantizeSigned oob values scale) \<Longrightarrow> - scale \<le> q \<and> q \<le> scale"
  by (auto simp: QuantizeSigned_def Let_def split: if_splits)

lemma bytes_from_map: "bytes_from i (map of_char bs) = Inr bs"
proof (induction bs arbitrary: i)
  case (Cons b bs)
  have "(of_char b :: int) = int (of_char b)" by (simp add: of_char_def)
  then have "0 \<le> (of_char b :: int)" "of_char b < (256 :: int)" using of_char_less_256 [of b] by linarith+
  then show ?case using Cons by (simp add: and_then_def nat_of_char)
qed simp

lemma payload_slots_roundtrip:
  assumes "int (length payload) \<le> slotCount"
  shows "\<exists>slots. PayloadBytesToSlots payload slotCount = Some slots \<and> SlotsToPayloadBytes slots (int (length payload)) = Inr payload"
proof -
  have n: "length payload \<le> nat slotCount" using assms by linarith
  then have "PayloadBytesToSlots payload slotCount = Some (map of_char payload @ replicate (nat slotCount - length payload) 0)"
    using assms by (simp add: PayloadBytesToSlots_def Let_def)
  moreover have "SlotsToPayloadBytes (map of_char payload @ replicate (nat slotCount - length payload) 0) (int (length payload)) = Inr payload"
    by (simp add: SlotsToPayloadBytes_def bytes_from_map)
  ultimately show ?thesis by blast
qed

end
