(* ===== verification/Spec2Isabelle.thy ===== *)
theory Spec2Isabelle
  imports Ares_Prelude Relay_Props Lineage_Props Runner_Props Runner_Lineage Runner_Race Session_Props Service_Props Log_Stream
    Voting_Session Sealed_Bid_Session Ride_Share Pool_Circuit_Props Calibration
begin

text \<open>
  A verification development for ARES, a Go library for multi-party sessions over threshold homomorphic encryption, and for
  the applications shipped with it. All paths are relative to src/.

  \<^bold>\<open>The program.\<close> A session runs through a pipeline of phases. The phase runner (pkg/ares/phase) checks a list of phases, turns
  it into a state machine, dispatches messages to the phase a session is in and advances the session when that phase is
  complete; on the way it commits the phase outputs to a signed lineage (pkg/ares/lineage, pkg/ares/sign). A transport
  (pkg/ares/transport) feeds it from WebSocket connections and an administrative interface. Phases may shuffle
  participants into anonymous slots (pkg/ares/phase/anon, pkg/ares/onion) and call a helper process for the cryptography
  (pkg/ares/crypto/helperclient). Applications (examples) supply the phases. The energy auction (examples/energy_auction)
  is a self-contained demonstrator with a relay of its own, and pkg/ares/pool clears a double auction over encrypted
  curves.

  \<^bold>\<open>Theories and sources.\<close>
  \<^item> Shared: Ares\_Prelude (Go maps, decimal text, reachability), Float64 (IEEE binary64 with its rounding), Go\_Convert and
    Float\_Order (conversions, order, rounding to integers, square root), Sha256 (FIPS 180-4 in full), Codec (length-prefixed
    hashing input).
  \<^item> Energy auction: Market (market.go), Auction and Auction\_Rounds (auction.go: rounds, epochs, cohorts), Relay and
    Relay\_Props (main.go: hub and message handler).
  \<^item> Lineage: Lineage, Lineage\_Props (pkg/ares/lineage, pkg/ares/sign).
  \<^item> Phases: Session, Session\_Props (context.go, accumulator.go, phase.go), Runner, Runner\_Compose, Runner\_Steps, Runner\_Inv,
    Runner\_Props, Runner\_Lineage, Runner\_Race (runner.go, runner\_lineage.go, compose\_with.go), Defaults (phase/defaults,
    phase/keygen), Anon (phase/anon), Onion (pkg/ares/onion).
  \<^item> Transport: Hub, Hub\_Props (hub.go, rate\_limit.go, validate.go, auth.go), Service, Service\_Props (service.go, admin.go,
    trigger.go), Artifacts (artifacts.go, events.go), Log\_Stream (log\_stream.go).
  \<^item> Helper: Helper\_Client, Helper\_Ops, Sharpening (pkg/ares/crypto/helperclient).
  \<^item> Applications: Collecting, App\_Sessions, App\_Runs, App\_Triggers, Scored\_App, Fhe\_Apps, Fhe\_Triggers (what several
    applications share), Voting, Voting\_Props, Voting\_Session (examples/voting), Sealed\_Bid, Sealed\_Bid\_Session
    (examples/sealed\_bid\_auction), Ride\_Share (examples/ride\_share).
  \<^item> Pool: Pool\_Grid, Pool\_Curves (grid.go), Pool\_Clearing (clearing.go), Pool\_Circuit, Pool\_Circuit\_Props
    (circuit\_openfhe.go).
  \<^item> Calibration: Calibration (pkg/ares/crypto/fhecalib, and the slot encoding of pkg/ares/crypto/bfv).

  \<^bold>\<open>How code corresponds to definitions.\<close> A struct is a record, an enumeration a datatype, a method a function from the state to
  the new state and its results. Strings and byte slices are \<open>string\<close>; a Go map is a list of pairs with distinct keys whose
  order is the order of iteration; an \<open>any\<close> is a value of \<open>anyv\<close>. Errors are values of a sum or option type, a panic is
  \<open>None\<close> (inside the hooks of a phase, the error text ''panic''). A mutex makes the method it guards one step; where the code
  releases it between reading and acting (Runner\_Race) the two halves are separate steps of an inductive relation. An
  interface is a locale and its implementation an interpretation: node\_store, collecting, scored\_app, packed\_curve and the
  others.

  \<^bold>\<open>What the lemmas show.\<close> Each group proves its invariant under every operation, the behaviour of every branch, and the
  properties that need several components: the relay forwards ciphertexts without being able to depend on them and
  answers every message without panic; a round completes and its settlement follows the rules; a verified lineage node
  binds its payload, parents and signer, and only verified messages reach a phase; a composed pipeline is a path, each
  message moves a session forward by finitely many hops, and the exact condition under which a message panics; the
  transport refuses unauthenticated requests in production and stays inside its rate; an onion of any depth unwraps to
  the shuffled slots; a voting session and a sealed-bid session run from their start to their settlement; the pool
  clears at the unique crossing, and the circuit and its readout agree with the reference; the depth sweep returns the
  first depth within the tolerance.

  \<^bold>\<open>Bounds and fuel.\<close> The only fuel is the code's own: \<open>AdvanceToState\<close> and the advance loop stop after as many hops as there
  are phases, the number the source counts to. Every other loop is structural or has a termination proof; the draw of a
  permutation, which may reject for ever, is a partial function whose None is non-termination, with a proof that it
  returns for a keystream that accepts; so is the depth sweep, whose 32-bit counter can wrap, with a proof that it returns
  for every maximum below the largest. Integers wrap where the source's width matters; float arithmetic rounds each
  operation once, which is what the language prescribes for code that is not fused into multiply-add instructions.

  \<^bold>\<open>Parameters.\<close> Code outside src/ is an argument: Ed25519, X25519, HKDF and AES-GCM, the text of JSON values, the text \<open>fmt\<close>
  gives a float or a type, the clock, random bytes, the order of iteration where it matters, \<open>math.Sin\<close> and \<open>math.Pow\<close>, a
  float that does not fit an integer, the helper process and the OpenFHE operations behind a context handle. A theorem
  that relies on their documented behaviour names it as a hypothesis and has a witness with concrete functions.

  \<^bold>\<open>Not modelled.\<close> The cgo bridge (pkg/ares/crypto/cgo) and the helper executable (cmd/openfhe-contract-helper), which pass
  byte buffers to the OpenFHE C++ library; the provisioning of contexts in pkg/ares/crypto/fhecalib; the phase of pkg/ares/phase/boundcheck and its example, the recurring cohort ranking,
  the BFV examples and parameter profiles; the credential client (pkg/ares/authclient), a client of a remote service;
  the release tooling (internal/releasebundle, cmd/release-artifact-gate), which inspects archives on disk; the Swift,
  Kotlin and Python clients and the browser code. Of the modelled packages, HTTP routing, socket writes, timers and
  logging are left out.
\<close>

end
